(* ===== verification/Go_Prelude.thy ===== *)
theory Go_Prelude
  imports Main "HOL-Library.Sublist" "HOL-Library.Multiset"
begin

text \<open>
  Shared vocabulary of the development: Go values and results.

  \<^item> A Go \<^verbatim>\<open>string\<close> or \<^verbatim>\<open>[]byte\<close> is a list of bytes, here a HOL \<open>string\<close>; a \<^verbatim>\<open>[]byte\<close> that may be
    \<^verbatim>\<open>nil\<close> is an option.
  \<^item> A Go \<^verbatim>\<open>map[string]string\<close> is an association list with distinct keys; \<open>map_of\<close> reads it, and
    the order of the list carries no meaning (loops range over a permutation of it).
  \<^item> A Go function that returns \<^verbatim>\<open>(T, error)\<close> and may panic returns a value of type \<open>'a res\<close> together
    with the new state of the world. \<open>on\<close> is the calling convention: the caller names what it does
    with the error and with the value, and a panic unwinds through it.

  The named collections: \<open>frame\<close> holds the facts that an operation leaves a component of the state
  alone, \<open>go_split\<close> the case splits of the calling convention.
\<close>

named_theorems frame \<open>components of the state an operation leaves alone\<close>
named_theorems go_split \<open>case splits of the calling convention\<close>

type_synonym bytes = string
type_synonym gomap = "(string \<times> string) list"

section \<open>Errors and results\<close>

text \<open>The errno values the file system of the model can raise.\<close>

datatype fs_err = ENOENT | ENOTDIR | EISDIR | EEXIST | ELOOP

text \<open>
  Errors are compared by identity in the source where they are sentinels (\<^verbatim>\<open>memcache.ErrCacheMiss\<close>,
  \<^verbatim>\<open>errAppEmpty\<close>, the other sentinels of the memcached client under \<open>ErrMc\<close>), so those are constructors of
  their own; all others carry their text.
\<close>

datatype error = Errorf string | ErrCacheMiss | ErrAppEmpty | ErrFs fs_err | ErrMc string

datatype 'a res = Ok 'a | Fail error | Panic string

definition on ::
  "'a res \<times> 'w \<Rightarrow> (error \<Rightarrow> 'w \<Rightarrow> 'b res \<times> 'w) \<Rightarrow> ('a \<Rightarrow> 'w \<Rightarrow> 'b res \<times> 'w) \<Rightarrow> 'b res \<times> 'w" where
  "on m err ok = (case m of (Ok a, w) \<Rightarrow> ok a w | (Fail e, w) \<Rightarrow> err e w | (Panic p, w) \<Rightarrow> (Panic p, w))"

text \<open>The common case \<^verbatim>\<open>if err != nil { return err }\<close>.\<close>

definition andThen :: "'a res \<times> 'w \<Rightarrow> ('a \<Rightarrow> 'w \<Rightarrow> 'b res \<times> 'w) \<Rightarrow> 'b res \<times> 'w" where
  "andThen m ok = on m (\<lambda>e w. (Fail e, w)) ok"

lemma on_simps [simp]:
  "on (Ok a, w) err ok = ok a w"
  "on (Fail e, w) err ok = err e w"
  "on (Panic p, w) err ok = (Panic p, w)"
  by (simp_all add: on_def)

lemma andThen_simps [simp]:
  "andThen (Ok a, w) ok = ok a w"
  "andThen (Fail e, w) ok = (Fail e, w)"
  "andThen (Panic p, w) ok = (Panic p, w)"
  by (simp_all add: andThen_def)

lemma on_split [go_split]:
  "P (on m err ok) \<longleftrightarrow>
     (\<forall>a w. m = (Ok a, w) \<longrightarrow> P (ok a w)) \<and> (\<forall>e w. m = (Fail e, w) \<longrightarrow> P (err e w)) \<and>
     (\<forall>p w. m = (Panic p, w) \<longrightarrow> P (Panic p, w))"
  by (cases m; cases "fst m") auto

lemma andThen_split [go_split]:
  "P (andThen m ok) \<longleftrightarrow>
     (\<forall>a w. m = (Ok a, w) \<longrightarrow> P (ok a w)) \<and> (\<forall>e w. m = (Fail e, w) \<longrightarrow> P (Fail e, w)) \<and>
     (\<forall>p w. m = (Panic p, w) \<longrightarrow> P (Panic p, w))"
  unfolding andThen_def by (rule on_split)

text \<open>Reading a successful run backwards.\<close>

lemma andThen_eq_Ok: "andThen m ok = (Ok b, w') \<longleftrightarrow> (\<exists>a w. m = (Ok a, w) \<and> ok a w = (Ok b, w'))"
  by (cases m; cases "fst m") auto

lemma on_eq_Ok:
  "on m err ok = (Ok b, w') \<longleftrightarrow>
     (\<exists>a w. m = (Ok a, w) \<and> ok a w = (Ok b, w')) \<or> (\<exists>e w. m = (Fail e, w) \<and> err e w = (Ok b, w'))"
  by (cases m; cases "fst m") auto

text \<open>
  A fact about the state that holds at the start and is kept by the call and by both continuations
  holds at the end, whatever the outcome. This is how frame facts and invariants go through a
  handler.
\<close>

lemma on_keeps:
  assumes "Q (snd m)" and "\<And>a w. m = (Ok a, w) \<Longrightarrow> Q w \<Longrightarrow> Q (snd (ok a w))"
    and "\<And>e w. m = (Fail e, w) \<Longrightarrow> Q w \<Longrightarrow> Q (snd (err e w))"
  shows "Q (snd (on m err ok))"
  using assms by (cases m; cases "fst m") auto

lemma andThen_keeps:
  assumes "Q (snd m)" and "\<And>a w. m = (Ok a, w) \<Longrightarrow> Q w \<Longrightarrow> Q (snd (ok a w))"
  shows "Q (snd (andThen m ok))"
  using assms by (cases m; cases "fst m") auto

text \<open>The value of a call whose error the source drops (\<^verbatim>\<open>files, _ := ...\<close>).\<close>

definition or_default :: "'a \<Rightarrow> 'a res \<times> 'w \<Rightarrow> ('a \<Rightarrow> 'w \<Rightarrow> 'b res \<times> 'w) \<Rightarrow> 'b res \<times> 'w" where
  "or_default d m k = on m (\<lambda>_ w. k d w) k"

lemma or_default_simps [simp]:
  "or_default d (Ok a, w) k = k a w"
  "or_default d (Fail e, w) k = k d w"
  "or_default d (Panic p, w) k = (Panic p, w)"
  by (simp_all add: or_default_def)

lemma or_default_keeps:
  assumes "Q (snd m)" and "\<And>a w. Q w \<Longrightarrow> Q (snd (k a w))"
  shows "Q (snd (or_default d m k))"
  using assms by (cases m; cases "fst m") auto

text \<open>A loop \<^verbatim>\<open>for _, x := range xs { if err := body(x); err != nil { return err } }\<close>.\<close>

fun for_each :: "('a \<Rightarrow> 'w \<Rightarrow> unit res \<times> 'w) \<Rightarrow> 'a list \<Rightarrow> 'w \<Rightarrow> unit res \<times> 'w" where
  "for_each body [] w = (Ok (), w)"
| "for_each body (x # xs) w = andThen (body x w) (\<lambda>_ w. for_each body xs w)"

lemma for_each_keeps:
  assumes "\<And>x w. x \<in> set xs \<Longrightarrow> Q w \<Longrightarrow> Q (snd (body x w))" and "Q w"
  shows "Q (snd (for_each body xs w))"
  using assms
proof (induction xs arbitrary: w)
  case (Cons x xs)
  have "Q (snd (body x w))" using Cons.prems by simp
  then show ?case
    using Cons.IH Cons.prems(1) by (simp add: andThen_keeps)
qed simp

text \<open>A completed loop, as a fold over what one round does to an observation \<open>v\<close> of the state.\<close>

lemma for_each_fold:
  assumes "for_each body xs w = (Ok u, w')" and "I w"
    and "\<And>x v v'. x \<in> set xs \<Longrightarrow> I v \<Longrightarrow> body x v = (Ok (), v') \<Longrightarrow> I v' \<and> obs v' = g x (obs v)"
  shows "I w' \<and> obs w' = fold g xs (obs w)"
  using assms
proof (induction xs arbitrary: w)
  case (Cons x xs)
  from Cons.prems(1) obtain w1 where b: "body x w = (Ok (), w1)" and r: "for_each body xs w1 = (Ok u, w')"
    by (auto simp: andThen_eq_Ok)
  have "I w1 \<and> obs w1 = g x (obs w)" using Cons.prems(3) [OF _ Cons.prems(2) b] by simp
  moreover have "I v' \<and> obs v' = g y (obs v)" if "y \<in> set xs" "I v" "body y v = (Ok (), v')" for y v v'
    using Cons.prems(3) [of y v v'] that by simp
  ultimately show ?case using Cons.IH [OF r] by simp
qed simp

lemma for_each_inv:
  assumes "for_each body xs w = (Ok u, w')" and "I w"
    and "\<And>x v v'. x \<in> set xs \<Longrightarrow> I v \<Longrightarrow> body x v = (Ok (), v') \<Longrightarrow> I v'"
  shows "I w'"
  using for_each_fold [where I = I and obs = "\<lambda>_. ()" and g = "\<lambda>_ x. x", OF assms(1,2)] assms(3) by blast

text \<open>What every round of a completed loop established.\<close>

lemma for_each_all:
  assumes "for_each body xs w = (Ok u, w')" and "I w"
    and "\<And>x v v'. x \<in> set xs \<Longrightarrow> I v \<Longrightarrow> body x v = (Ok (), v') \<Longrightarrow> I v' \<and> R x"
  shows "\<forall>x \<in> set xs. R x"
  using assms
proof (induction xs arbitrary: w)
  case (Cons x xs)
  from Cons.prems(1) obtain w1 where b: "body x w = (Ok (), w1)" and r: "for_each body xs w1 = (Ok u, w')"
    by (auto simp: andThen_eq_Ok)
  have "I w1 \<and> R x" using Cons.prems(3) [OF _ Cons.prems(2) b] by simp
  moreover have "I v' \<and> R y" if "y \<in> set xs" "I v" "body y v = (Ok (), v')" for y v v'
    using Cons.prems(3) [of y v v'] that by simp
  ultimately show ?case using Cons.IH [OF r] by simp
qed simp

lemma fold_upd_from: "fold (\<lambda>e m. m(g e := f (g e))) es m = (\<lambda>k. if k \<in> g ` set es then f k else m k)"
  by (induction es arbitrary: m) (auto simp: fun_eq_iff)

lemma fold_map_upd_key:
  "fold (\<lambda>n m. m(n \<mapsto> h n)) ns m = (\<lambda>n. if n \<in> set ns then Some (h n) else m n)"
  by (induction ns arbitrary: m) auto

lemma fold_map_del: "fold (\<lambda>n m. m(n := None)) ns m = (\<lambda>n. if n \<in> set ns then None else m n)"
  by (induction ns arbitrary: m) auto

definition upd_all :: "('n \<Rightarrow> 'k) \<Rightarrow> ('n \<Rightarrow> 'v) \<Rightarrow> 'n list \<Rightarrow> ('k \<rightharpoonup> 'v) \<Rightarrow> 'k \<rightharpoonup> 'v" where
  "upd_all h d ns f = fold (\<lambda>n m. m(h n \<mapsto> d n)) ns f"

lemma upd_all_simps [simp]:
  "upd_all h d [] f = f" "upd_all h d (x # ns) f = upd_all h d ns (f(h x \<mapsto> d x))"
  by (simp_all add: upd_all_def)

lemma upd_all_miss: "k \<notin> h ` set ns \<Longrightarrow> upd_all h d ns f k = f k"
  by (induction ns arbitrary: f) auto

lemma upd_all_hit: "k \<in> h ` set ns \<Longrightarrow> \<exists>m \<in> set ns. h m = k \<and> upd_all h d ns f k = Some (d m)"
proof (induction ns arbitrary: f)
  case (Cons x ns)
  show ?case
  proof (cases "k \<in> h ` set ns")
    case True
    then obtain m where "m \<in> set ns" "h m = k" "upd_all h d ns (f(h x \<mapsto> d x)) k = Some (d m)"
      using Cons.IH by blast
    then show ?thesis by auto
  next
    case False
    then show ?thesis using Cons.prems by (auto simp: upd_all_miss)
  qed
qed simp

section \<open>Maps as association lists\<close>

text \<open>Assignment \<^verbatim>\<open>m[k] = v\<close>.\<close>

fun gm_set :: "'k \<Rightarrow> 'v \<Rightarrow> ('k \<times> 'v) list \<Rightarrow> ('k \<times> 'v) list" where
  "gm_set k v [] = [(k, v)]"
| "gm_set k v ((a, b) # m) = (if a = k then (k, v) # m else (a, b) # gm_set k v m)"

abbreviation gm_ok :: "('k \<times> 'v) list \<Rightarrow> bool" where
  "gm_ok m \<equiv> distinct (map fst m)"

lemma map_of_gm_set [simp]: "map_of (gm_set k v m) = (map_of m)(k \<mapsto> v)"
  by (induction k v m rule: gm_set.induct) auto

lemma set_keys_gm_set [simp]: "fst ` set (gm_set k v m) = insert k (fst ` set m)"
  by (induction k v m rule: gm_set.induct) auto

lemma gm_ok_gm_set [simp]: "gm_ok m \<Longrightarrow> gm_ok (gm_set k v m)"
  by (induction k v m rule: gm_set.induct) (auto simp: image_iff)

text \<open>Building a map from a sequence of assignments: the last one wins.\<close>

definition gm_of :: "('k \<times> 'v) list \<Rightarrow> ('k \<times> 'v) list" where
  "gm_of kvs = fold (\<lambda>(k, v). gm_set k v) kvs []"

lemma gm_ok_fold: "gm_ok m \<Longrightarrow> gm_ok (fold (\<lambda>(k, v). gm_set k v) kvs m)"
  by (induction kvs arbitrary: m) auto

lemma gm_ok_gm_of [simp]: "gm_ok (gm_of kvs)"
  by (simp add: gm_of_def gm_ok_fold)

lemma map_of_gm_fold: "map_of (fold (\<lambda>(k, v). gm_set k v) kvs m) = map_of m ++ map_of (rev kvs)"
  by (induction kvs arbitrary: m) (auto simp: map_add_def fun_eq_iff split: option.splits)

lemma map_of_gm_of: "map_of (gm_of kvs) = map_of (rev kvs)"
  by (simp add: gm_of_def map_of_gm_fold)

lemma map_of_rev_distinct: "gm_ok m \<Longrightarrow> map_of (rev m) = map_of m"
  by (rule map_of_eqI) (auto simp: map_of_eq_Some_iff rev_map[symmetric] map_of_is_SomeI
      dom_map_of_conv_image_fst intro: map_of_eqI)

lemma map_of_perm: "mset xs = mset ys \<Longrightarrow> gm_ok ys \<Longrightarrow> map_of xs = map_of ys"
  by (metis map_of_inject_set mset_map mset_eq_imp_distinct_iff set_mset_mset)

lemma gm_ok_perm: "mset xs = mset ys \<Longrightarrow> gm_ok xs = gm_ok ys"
  by (metis mset_map mset_eq_imp_distinct_iff)

lemma map_le_Some: "m \<subseteq>\<^sub>m n \<Longrightarrow> m k = Some v \<Longrightarrow> n k = Some v"
  by (metis domI map_le_def)

section \<open>Strings\<close>

text \<open>\<^verbatim>\<open>strings.HasPrefix\<close>, \<^verbatim>\<open>strings.Contains\<close> are \<open>prefix\<close> and \<open>sublist\<close> of the library; equality and
  concatenation are HOL's. \<^verbatim>\<open>strings.Join\<close> and \<^verbatim>\<open>strings.Split\<close> with a one-byte separator:\<close>

fun join :: "'a list \<Rightarrow> 'a list list \<Rightarrow> 'a list" where
  "join sep [] = []"
| "join sep [x] = x"
| "join sep (x # y # xs) = x @ sep @ join sep (y # xs)"

fun split_on :: "'a \<Rightarrow> 'a list \<Rightarrow> 'a list list" where
  "split_on c [] = [[]]"
| "split_on c (x # xs) =
     (if x = c then [] # split_on c xs
      else (case split_on c xs of [] \<Rightarrow> [[x]] | y # ys \<Rightarrow> (x # y) # ys))"

lemma split_on_ne [simp]: "split_on c s \<noteq> []"
  by (induction c s rule: split_on.induct) (auto split: list.splits)

lemma join_split_on [simp]: "join [c] (split_on c s) = s"
proof (induction c s rule: split_on.induct)
  case (2 c x xs)
  obtain y ys where y: "split_on c xs = y # ys" by (meson list.exhaust split_on_ne)
  show ?case using 2 y by (cases ys) auto
qed simp

lemma split_on_no_sep: "y \<in> set (split_on c s) \<Longrightarrow> c \<notin> set y"
  by (induction c s arbitrary: y rule: split_on.induct) (fastforce split: if_splits list.splits)+

lemma split_on_unsplit: "c \<notin> set s \<Longrightarrow> split_on c s = [s]"
  by (induction c s rule: split_on.induct) auto

lemma split_on_append: "c \<notin> set x \<Longrightarrow> split_on c (x @ c # s) = x # split_on c s"
  by (induction x) auto

lemma split_on_join:
  "xs \<noteq> [] \<Longrightarrow> (\<And>x. x \<in> set xs \<Longrightarrow> c \<notin> set x) \<Longrightarrow> split_on c (join [c] xs) = xs"
  by (induction "[c]" xs rule: join.induct) (auto simp: split_on_unsplit split_on_append)

lemma sublist_append_left: "sublist x y \<Longrightarrow> sublist x (a @ y)"
  unfolding sublist_def by (metis append_assoc)

text \<open>\<^verbatim>\<open>strings.Replace(s, old, new, -1)\<close> for a non-empty \<open>old\<close>.\<close>

function replace_all :: "'a list \<Rightarrow> 'a list \<Rightarrow> 'a list \<Rightarrow> 'a list" where
  "replace_all old new s =
     (if s = [] \<or> old = [] then s
      else if prefix old s then new @ replace_all old new (drop (length old) s)
      else hd s # replace_all old new (tl s))"
  by pat_completeness auto
termination
  by (relation "measure (\<lambda>(old, new, s). length s)") (auto simp: neq_Nil_conv)

declare replace_all.simps [simp del]

lemma replace_all_absent: "\<not> sublist old s \<Longrightarrow> replace_all old new s = s"
proof (induction old new s rule: replace_all.induct)
  case (1 old new s)
  show ?case
  proof (cases "s = [] \<or> old = []")
    case True
    then show ?thesis by (subst replace_all.simps) auto
  next
    case False
    moreover have "\<not> prefix old s" using "1.prems" by (auto intro: prefix_imp_sublist)
    moreover have "\<not> sublist old (tl s)"
      using "1.prems" by (metis sublist_order.order_trans sublist_tl)
    ultimately show ?thesis
      using "1.IH"(2) by (subst replace_all.simps) auto
  qed
qed

text \<open>\<^verbatim>\<open>strings.ToLower\<close> on ASCII letters.\<close>

definition ascii_lower :: "char \<Rightarrow> char" where
  "ascii_lower c =
     (case map_of (zip ''ABCDEFGHIJKLMNOPQRSTUVWXYZ'' ''abcdefghijklmnopqrstuvwxyz'') c of
        Some l \<Rightarrow> l | None \<Rightarrow> c)"

definition to_lower :: "string \<Rightarrow> string" where
  "to_lower s = map ascii_lower s"

lemma to_lower_append: "to_lower (a @ b) = to_lower a @ to_lower b"
  by (simp add: to_lower_def)

end
