(* ===== verification/Go_Path.thy ===== *)
theory Go_Path
  imports Go_Prelude
begin

text \<open>
  The lexical path functions of Go's \<^verbatim>\<open>path\<close> and \<^verbatim>\<open>path/filepath\<close> packages on Unix, as far as the
  bundler uses them: \<^verbatim>\<open>Clean\<close>, \<^verbatim>\<open>Join\<close>, \<^verbatim>\<open>Dir\<close>, \<^verbatim>\<open>Ext\<close> and \<^verbatim>\<open>Rel\<close>. They work on the components of a
  path; the lemmas say which components the result has, which is what the confinement properties of
  the archive code need.
\<close>

section \<open>Components\<close>

abbreviation slash :: char where "slash \<equiv> CHR ''/''"

definition comps :: "string \<Rightarrow> string list" where
  "comps p = filter (\<lambda>c. c \<noteq> [] \<and> c \<noteq> ''.'') (split_on slash p)"

text \<open>A component proper: what \<open>comps\<close> returns, and what a directory entry can be called.\<close>

definition is_comp :: "string \<Rightarrow> bool" where
  "is_comp c \<longleftrightarrow> c \<noteq> [] \<and> c \<noteq> ''.'' \<and> slash \<notin> set c"

lemma comps_is_comp: "c \<in> set (comps p) \<Longrightarrow> is_comp c"
  by (auto simp: comps_def is_comp_def split_on_no_sep)

lemma split_on_append_sep: "split_on c (a @ c # b) = split_on c a @ split_on c b"
  by (induction a) (auto split: list.splits)

lemma comps_append_slash: "comps (a @ slash # b) = comps a @ comps b"
  by (simp add: comps_def split_on_append_sep)

lemma comps_slash [simp]: "comps (slash # b) = comps b"
  by (simp add: comps_def)

lemma comps_Nil [simp]: "comps [] = []"
  by (simp add: comps_def)

lemma comps_single: "is_comp c \<Longrightarrow> comps c = [c]"
  by (simp add: comps_def is_comp_def split_on_unsplit)

lemma comps_join: "(\<And>c. c \<in> set cs \<Longrightarrow> is_comp c) \<Longrightarrow> comps (join [slash] cs) = cs"
  by (induction "[slash]" cs rule: join.induct) (simp_all add: comps_single comps_append_slash)

section \<open>Clean and Join\<close>

text \<open>Elimination of \<^verbatim>\<open>..\<close>: \<open>st\<close> is the output so far, last component first.\<close>

fun elim_dotdot :: "bool \<Rightarrow> string list \<Rightarrow> string list \<Rightarrow> string list" where
  "elim_dotdot rooted st [] = rev st"
| "elim_dotdot rooted st (c # cs) =
     (if c = ''..'' then
        (case st of
           [] \<Rightarrow> elim_dotdot rooted (if rooted then [] else [c]) cs
         | t # ts \<Rightarrow> elim_dotdot rooted (if t = ''..'' then c # st else ts) cs)
      else elim_dotdot rooted (c # st) cs)"

definition rooted :: "string \<Rightarrow> bool" where
  "rooted p \<longleftrightarrow> prefix ''/'' p"

definition Clean :: "string \<Rightarrow> string" where
  "Clean p =
     (let cs = elim_dotdot (rooted p) [] (comps p) in
      if rooted p then slash # join ''/'' cs else if cs = [] then ''.'' else join ''/'' cs)"

definition path_Join :: "string list \<Rightarrow> string" where
  "path_Join es =
     (case dropWhile (\<lambda>e. e = []) es of [] \<Rightarrow> [] | es' \<Rightarrow> Clean (join ''/'' es'))"

definition path_Dir :: "string \<Rightarrow> string" where
  "path_Dir p = Clean (rev (dropWhile (\<lambda>c. c \<noteq> slash) (rev p)))"

definition path_Ext :: "string \<Rightarrow> string" where
  "path_Ext p =
     (let base = takeWhile (\<lambda>c. c \<noteq> slash) (rev p) in
      if CHR ''.'' \<in> set base then CHR ''.'' # rev (takeWhile (\<lambda>c. c \<noteq> CHR ''.'') base) else [])"

lemma elim_dotdot_append:
  "elim_dotdot r st (xs @ ys) = elim_dotdot r (rev (elim_dotdot r st xs)) ys"
  by (induction r st xs rule: elim_dotdot.induct) (auto split: list.splits)

lemma elim_dotdot_id: "''..'' \<notin> set cs \<Longrightarrow> elim_dotdot r st cs = rev st @ cs"
  by (induction cs arbitrary: st) auto

lemma elim_dotdot_subset: "set (elim_dotdot r st cs) \<subseteq> set st \<union> set cs"
  by (induction r st cs rule: elim_dotdot.induct) (auto split: list.splits if_splits)

lemma elim_dotdot_rooted:
  "''..'' \<notin> set st \<Longrightarrow> ''..'' \<notin> set (elim_dotdot True st cs)"
  by (induction True st cs rule: elim_dotdot.induct) (auto split: list.splits)

lemma elim_dotdot_is_comp:
  "c \<in> set (elim_dotdot r [] (comps p)) \<Longrightarrow> is_comp c"
  using elim_dotdot_subset [of r "[]" "comps p"] by (auto intro: comps_is_comp)

lemma rooted_Clean [simp]: "rooted (Clean p) = rooted p"
proof (cases "rooted p")
  case True
  then show ?thesis by (simp add: Clean_def rooted_def)
next
  case False
  let ?cs = "elim_dotdot (rooted p) [] (comps p)"
  show ?thesis
  proof (cases ?cs)
    case Nil
    then show ?thesis using False by (simp add: Clean_def rooted_def)
  next
    case (Cons c cs)
    have "is_comp c" using Cons elim_dotdot_is_comp [of c "rooted p" p] by simp
    then have "join ''/'' ?cs \<noteq> [] \<and> hd (join ''/'' ?cs) \<noteq> slash"
      by (cases cs) (auto simp: Cons is_comp_def hd_append neq_Nil_conv)
    then show ?thesis
      using False Cons by (auto simp: Clean_def rooted_def prefix_def)
  qed
qed

lemma comps_Clean: "comps (Clean p) = elim_dotdot (rooted p) [] (comps p)"
  using comps_join [of "elim_dotdot (rooted p) [] (comps p)", OF elim_dotdot_is_comp]
  by (auto simp: Clean_def Let_def comps_def [of "''.''"])

lemma rooted_append [simp]: "rooted d \<Longrightarrow> rooted (d @ x)"
  by (auto simp: rooted_def prefix_def)

lemma rooted_ne: "rooted d \<Longrightarrow> d \<noteq> []"
  by (auto simp: rooted_def)

text \<open>The components of a path below a rooted directory.\<close>

lemma comps_path_Join2:
  assumes "rooted d"
  shows "comps (path_Join [d, n]) = elim_dotdot True [] (comps d @ comps n)"
    and "rooted (path_Join [d, n])"
  using assms rooted_ne [OF assms] by (simp_all add: path_Join_def comps_Clean comps_append_slash)

lemma comps_path_Join3:
  assumes "rooted d"
  shows "comps (path_Join [d, e, n]) = elim_dotdot True [] (comps d @ comps e @ comps n)"
    and "rooted (path_Join [d, e, n])"
  using assms rooted_ne [OF assms] by (simp_all add: path_Join_def comps_Clean comps_append_slash)

text \<open>A directory path is in normal form when it has no \<^verbatim>\<open>..\<close> left.\<close>

definition plain_dir :: "string \<Rightarrow> bool" where
  "plain_dir d \<longleftrightarrow> rooted d \<and> ''..'' \<notin> set (comps d)"

lemma path_Join_below:
  assumes "plain_dir d" and "''..'' \<notin> set (comps n)"
  shows "comps (path_Join [d, n]) = comps d @ comps n"
  using assms by (simp add: plain_dir_def comps_path_Join2 elim_dotdot_id)

text \<open>What a substring test on a file name says about its components.\<close>

lemma comp_sublist: "c \<in> set (split_on slash n) \<Longrightarrow> sublist c n"
proof -
  assume "c \<in> set (split_on slash n)"
  moreover have "x \<in> set xs \<Longrightarrow> sublist x (join s xs)" for x s :: string and xs
  proof (induction s xs rule: join.induct)
    case (3 sep x' y xs)
    show ?case
    proof (cases "x = x'")
      case False
      then have "sublist x (join sep (y # xs))" using 3 by auto
      then show ?thesis by (simp add: sublist_append_left)
    qed simp
  qed auto
  ultimately show "sublist c n"
    by (metis join_split_on)
qed

lemma no_dotdot_comps: "\<not> sublist ''..'' n \<Longrightarrow> ''..'' \<notin> set (comps n)"
  using comp_sublist by (auto simp: comps_def)

text \<open>A name without \<^verbatim>\<open>../\<close> has \<^verbatim>\<open>..\<close> as its last component or not at all.\<close>

lemma no_updir_butlast:
  assumes "\<not> sublist ''../'' n"
  shows "''..'' \<notin> set (butlast (split_on slash n))"
proof
  assume "''..'' \<in> set (butlast (split_on slash n))"
  then obtain xs ys where "butlast (split_on slash n) = xs @ ''..'' # ys"
    by (meson split_list)
  then obtain l where l: "split_on slash n = xs @ ''..'' # ys @ [l]"
    by (metis append_Cons append_assoc append_butlast_last_id split_on_ne)
  have "sublist ''../'' (join ''/'' (xs @ ''..'' # ys @ [l]))"
  proof (induction xs)
    case Nil
    then show ?case
      by (cases ys) (auto simp: sublist_def)
  next
    case (Cons x xs)
    obtain y zs where yz: "xs @ ''..'' # ys @ [l] = y # zs" by (cases xs) auto
    have "join ''/'' ((x # xs) @ ''..'' # ys @ [l]) = (x @ ''/'') @ join ''/'' (xs @ ''..'' # ys @ [l])"
      by (simp add: yz)
    then show ?case using Cons by (simp only: sublist_append_left)
  qed
  then show False using assms l by (metis join_split_on)
qed

text \<open>The directory part of a path without \<^verbatim>\<open>..\<close> has the components of the path, up to the last one.\<close>

lemma path_Dir_prefix:
  assumes "''..'' \<notin> set (comps p)"
  shows "prefix (comps (path_Dir p)) (comps p)" and "length (comps p) \<le> Suc (length (comps (path_Dir p)))"
proof -
  define c where "c = rev (takeWhile (\<lambda>c. c \<noteq> slash) (rev p))"
  define q where "q = rev (dropWhile (\<lambda>c. c \<noteq> slash) (rev p))"
  have p: "p = q @ c"
    unfolding c_def q_def by (metis rev_append rev_rev_ident takeWhile_dropWhile_id)
  have c: "slash \<notin> set c" unfolding c_def by (auto dest: set_takeWhileD)
  have "q = [] \<or> last q = slash"
    unfolding q_def using hd_dropWhile [of "\<lambda>c. c \<noteq> slash" "rev p"] by (auto simp: last_rev)
  then have cp: "comps p = comps q @ comps c"
  proof
    assume "last q = slash"
    show ?thesis
    proof (cases "q = []")
      case False
      then have q: "q = butlast q @ [slash]" using \<open>last q = slash\<close> by (metis append_butlast_last_id)
      have "comps p = comps (butlast q) @ comps c" using p q by (metis append_Cons append_Nil append_assoc comps_append_slash)
      moreover have "comps q = comps (butlast q)" using q comps_append_slash [of "butlast q" "[]"] by simp
      ultimately show ?thesis by simp
    qed (simp add: p)
  qed (simp add: p)
  have "comps (path_Dir p) = comps q"
    using assms cp by (simp add: path_Dir_def q_def [symmetric] comps_Clean elim_dotdot_id)
  moreover have "length (comps c) \<le> 1"
    using c by (simp add: comps_def split_on_unsplit)
  ultimately show "prefix (comps (path_Dir p)) (comps p)" "length (comps p) \<le> Suc (length (comps (path_Dir p)))"
    by (simp_all add: cp)
qed

end
