(* ===== verification/Go_Fs.thy ===== *)
theory Go_Fs
  imports Go_Path
begin

text \<open>
  The file system the bundler works on: a map from absolute component lists to nodes, with the
  system calls behind the \<^verbatim>\<open>os\<close> and \<^verbatim>\<open>ioutil\<close> functions the code calls. Path resolution follows
  symbolic links as Linux does (at most 40 per path), because the archive code creates links from
  data the client sends. Permissions, limits on name lengths and device errors are not modelled, and
  a relative path is taken from the root directory.
\<close>

datatype node = NDir | NFile bytes | NLink string

type_synonym path = "string list"
type_synonym fsys = "path \<Rightarrow> node option"

definition node_at :: "fsys \<Rightarrow> path \<Rightarrow> node option" where
  "node_at fs p = (if p = [] then Some NDir else fs p)"

section \<open>Path resolution\<close>

text \<open>\<open>walk n fs cur cs\<close>: from directory \<open>cur\<close>, follow the components \<open>cs\<close>, expanding at most \<open>n\<close>
  links. The last component need not exist: the result is where it would be created.\<close>

function walk :: "nat \<Rightarrow> fsys \<Rightarrow> path \<Rightarrow> string list \<Rightarrow> fs_err + path" where
  "walk n fs cur [] = Inr cur"
| "walk n fs cur (c # cs) =
     (if c = ''..'' then walk n fs (butlast cur) cs
      else case fs (cur @ [c]) of
        None \<Rightarrow> if cs = [] then Inr (cur @ [c]) else Inl ENOENT
      | Some NDir \<Rightarrow> walk n fs (cur @ [c]) cs
      | Some (NFile b) \<Rightarrow> if cs = [] then Inr (cur @ [c]) else Inl ENOTDIR
      | Some (NLink t) \<Rightarrow>
          (case n of 0 \<Rightarrow> Inl ELOOP
           | Suc m \<Rightarrow> walk m fs (if rooted t then [] else cur) (comps t @ cs)))"
  by pat_completeness auto
termination
  by (relation "measures [\<lambda>(n, fs, cur, cs). n, \<lambda>(n, fs, cur, cs). length cs]") auto

definition max_links :: nat where "max_links = 40"

definition resolve :: "fsys \<Rightarrow> string \<Rightarrow> fs_err + path" where
  "resolve fs p = (if p = [] then Inl ENOENT else walk max_links fs [] (comps p))"

text \<open>The place of a path's last component, which itself is not followed when it is a link.\<close>

definition resolve_entry :: "fsys \<Rightarrow> string \<Rightarrow> fs_err + path" where
  "resolve_entry fs p =
     (if p = [] then Inl ENOENT
      else if comps p = [] then Inr []
      else case walk max_links fs [] (butlast (comps p)) of
        Inl e \<Rightarrow> Inl e
      | Inr d \<Rightarrow> if node_at fs d = Some NDir then Inr (d @ [last (comps p)])
                 else Inl (if node_at fs d = None then ENOENT else ENOTDIR))"

section \<open>System calls\<close>

definition os_Stat :: "fsys \<Rightarrow> string \<Rightarrow> fs_err option" where
  "os_Stat fs p =
     (case resolve fs p of Inl e \<Rightarrow> Some e | Inr q \<Rightarrow> if node_at fs q = None then Some ENOENT else None)"

definition os_ReadFile :: "fsys \<Rightarrow> string \<Rightarrow> fs_err + bytes" where
  "os_ReadFile fs p =
     (case resolve fs p of
        Inl e \<Rightarrow> Inl e
      | Inr q \<Rightarrow> (case node_at fs q of
            None \<Rightarrow> Inl ENOENT
          | Some (NFile b) \<Rightarrow> Inr b
          | Some NDir \<Rightarrow> Inl EISDIR
          | Some (NLink t) \<Rightarrow> Inl ELOOP))"

definition os_WriteFile :: "fsys \<Rightarrow> string \<Rightarrow> bytes \<Rightarrow> fs_err + fsys" where
  "os_WriteFile fs p b =
     (case resolve fs p of
        Inl e \<Rightarrow> Inl e
      | Inr q \<Rightarrow> if node_at fs q = Some NDir then Inl EISDIR else Inr (fs(q \<mapsto> NFile b)))"

definition os_Symlink :: "fsys \<Rightarrow> string \<Rightarrow> string \<Rightarrow> fs_err + fsys" where
  "os_Symlink fs target p =
     (case resolve_entry fs p of
        Inl e \<Rightarrow> Inl e
      | Inr q \<Rightarrow> if node_at fs q \<noteq> None then Inl EEXIST
                 else if target = [] then Inl ENOENT else Inr (fs(q \<mapsto> NLink target)))"

text \<open>\<^verbatim>\<open>os.MkdirAll\<close>: every prefix of the path in turn; an existing directory (or a link to one) is kept,
  anything else in the way is an error. The directories made before the error stay.\<close>

fun mkdirs :: "fsys \<Rightarrow> path \<Rightarrow> string list \<Rightarrow> fs_err option \<times> fsys" where
  "mkdirs fs cur [] = (None, fs)"
| "mkdirs fs cur (c # cs) =
     (if c = ''..'' then mkdirs fs (butlast cur) cs
      else case fs (cur @ [c]) of
        None \<Rightarrow> mkdirs (fs(cur @ [c] \<mapsto> NDir)) (cur @ [c]) cs
      | Some NDir \<Rightarrow> mkdirs fs (cur @ [c]) cs
      | Some (NFile b) \<Rightarrow> (Some ENOTDIR, fs)
      | Some (NLink t) \<Rightarrow>
          (case walk max_links fs cur [c] of
             Inl e \<Rightarrow> (Some EEXIST, fs)
           | Inr d \<Rightarrow> if node_at fs d = Some NDir then mkdirs fs d cs else (Some EEXIST, fs)))"

definition os_MkdirAll :: "fsys \<Rightarrow> string \<Rightarrow> fs_err option \<times> fsys" where
  "os_MkdirAll fs p = (if p = [] then (Some ENOENT, fs) else mkdirs fs [] (comps p))"

definition os_RemoveAll :: "fsys \<Rightarrow> string \<Rightarrow> fsys" where
  "os_RemoveAll fs p =
     (case resolve_entry fs p of
        Inl e \<Rightarrow> fs
      | Inr q \<Rightarrow> (\<lambda>r. if prefix q r then None else fs r))"

section \<open>Confinement\<close>

text \<open>
  \<open>clear_below fs d\<close>: below the directory \<open>d\<close> there is no symbolic link, and \<open>d\<close> is reached through
  directories only. Then every path whose components start with \<open>d\<close> and have no \<^verbatim>\<open>..\<close> resolves to a
  place below \<open>d\<close>, so a system call on it changes nothing elsewhere.
\<close>

definition no_links_below :: "fsys \<Rightarrow> path \<Rightarrow> bool" where
  "no_links_below fs d \<longleftrightarrow> (\<forall>q t. prefix d q \<longrightarrow> fs q \<noteq> Some (NLink t))"

definition dir_chain :: "fsys \<Rightarrow> path \<Rightarrow> bool" where
  "dir_chain fs d \<longleftrightarrow> (\<forall>q. prefix q d \<longrightarrow> q \<noteq> [] \<longrightarrow> fs q = Some NDir)"

definition clear_below :: "fsys \<Rightarrow> path \<Rightarrow> bool" where
  "clear_below fs d \<longleftrightarrow> no_links_below fs d \<and> dir_chain fs d"

lemma walk_dirs:
  assumes "\<And>q. prefix q cs \<Longrightarrow> q \<noteq> [] \<Longrightarrow> fs (cur @ q) = Some NDir" and "''..'' \<notin> set cs"
  shows "walk n fs cur (cs @ rest) = walk n fs (cur @ cs) rest"
  using assms
proof (induction cs arbitrary: cur)
  case (Cons c cs)
  have "fs (cur @ [c]) = Some NDir" using Cons.prems(1) [of "[c]"] by simp
  moreover have "fs ((cur @ [c]) @ q) = Some NDir" if "prefix q cs" "q \<noteq> []" for q
    using Cons.prems(1) [of "c # q"] that by simp
  ultimately show ?case using Cons.IH [of "cur @ [c]"] Cons.prems(2) by auto
qed simp

lemma walk_stays_below:
  assumes "no_links_below fs d" and "prefix d cur" and "''..'' \<notin> set cs" and "walk n fs cur cs = Inr q"
  shows "q = cur @ cs"
  using assms(2-)
proof (induction cs arbitrary: cur)
  case (Cons c cs)
  have "prefix d (cur @ [c])" using Cons.prems(1) by simp
  moreover have "fs (cur @ [c]) \<noteq> Some (NLink t)" for t
    using assms(1) calculation by (auto simp: no_links_below_def)
  ultimately show ?case
    using Cons.IH [of "cur @ [c]"] Cons.prems by (auto split: option.splits node.splits if_splits)
qed simp

lemma resolve_below:
  assumes "clear_below fs d" and "comps p = d @ cs" and "''..'' \<notin> set (comps p)"
    and "resolve fs p = Inr q"
  shows "q = d @ cs"
proof -
  have "walk max_links fs [] (d @ cs) = walk max_links fs d cs"
    using walk_dirs [of d fs "[]" max_links cs] assms(1-3) by (auto simp: clear_below_def dir_chain_def)
  then have "walk max_links fs d cs = Inr q"
    using assms(2,4) by (auto simp: resolve_def split: if_splits)
  then show ?thesis
    using walk_stays_below [of fs d d cs max_links q] assms(1-3) by (auto simp: clear_below_def)
qed

lemma resolve_entry_below:
  assumes "clear_below fs d" and "comps p = d @ cs" and "cs \<noteq> []" and "''..'' \<notin> set (comps p)"
    and "resolve_entry fs p = Inr q"
  shows "q = d @ cs"
proof -
  have bl: "butlast (comps p) = d @ butlast cs" using assms(2,3) by (simp add: butlast_append)
  have nd: "''..'' \<notin> set (butlast cs)" using assms(2,4) by (auto dest: in_set_butlastD)
  obtain e where e: "walk max_links fs [] (d @ butlast cs) = Inr e" and q: "q = e @ [last (comps p)]"
    using assms(2,3,5) bl by (auto simp: resolve_entry_def split: sum.splits if_splits)
  have "walk max_links fs [] (d @ butlast cs) = walk max_links fs d (butlast cs)"
    using walk_dirs [of d fs "[]" max_links "butlast cs"] assms(1,2,4)
    by (auto simp: clear_below_def dir_chain_def)
  then have "e = d @ butlast cs"
    using walk_stays_below [of fs d d "butlast cs" max_links e] e nd assms(1) by (auto simp: clear_below_def)
  then show ?thesis using q assms(2,3) by simp
qed

lemma mkdirs_below:
  assumes "no_links_below fs d" and "prefix d cur" and "''..'' \<notin> set cs" and "mkdirs fs cur cs = (e, fs')"
  shows "fs' q = fs q \<or> strict_prefix cur q \<and> prefix q (cur @ cs) \<and> fs q = None \<and> fs' q = Some NDir"
  using assms
proof (induction cs arbitrary: fs cur)
  case (Cons c cs)
  have below: "prefix d (cur @ [c])" using Cons.prems(2) by simp
  have nl: "fs (cur @ [c]) \<noteq> Some (NLink t)" for t
    using Cons.prems(1) below by (auto simp: no_links_below_def)
  have up: "strict_prefix (cur @ [c]) q \<Longrightarrow> strict_prefix cur q"
    by (auto simp: strict_prefix_def prefix_def)
  show ?case
  proof (cases "fs (cur @ [c])")
    case None
    let ?fs = "fs(cur @ [c] \<mapsto> NDir)"
    have nb: "no_links_below ?fs d" using Cons.prems(1) by (auto simp: no_links_below_def)
    have run: "mkdirs ?fs (cur @ [c]) cs = (e, fs')" using Cons.prems(3,4) None by auto
    have step: "fs' q = ?fs q \<or> strict_prefix (cur @ [c]) q \<and> prefix q (cur @ c # cs) \<and>
        ?fs q = None \<and> fs' q = Some NDir"
      using Cons.IH [OF nb below _ run] Cons.prems(3) by simp
    then show ?thesis
      using None up by (cases "q = cur @ [c]") (auto simp: strict_prefix_def)
  next
    case (Some nd)
    then show ?thesis
    proof (cases nd)
      case NDir
      then have run: "mkdirs fs (cur @ [c]) cs = (e, fs')" using Cons.prems(3,4) Some by auto
      show ?thesis
        using Cons.IH [OF Cons.prems(1) below _ run] Cons.prems(3) up by auto
    qed (use Cons.prems Some nl in auto)
  qed
qed auto

text \<open>Nothing that exists is changed.\<close>

lemma mkdirs_keeps: "mkdirs fs cur cs = (e, fs') \<Longrightarrow> fs q \<noteq> None \<Longrightarrow> fs' q = fs q"
proof (induction fs cur cs rule: mkdirs.induct)
  case (2 fs cur c cs)
  have "fs' q = (fs(cur @ [c] \<mapsto> NDir)) q"
    if "c \<noteq> ''..''" "fs (cur @ [c]) = None" "mkdirs (fs(cur @ [c] \<mapsto> NDir)) (cur @ [c]) cs = (e, fs')"
    by (rule "2.IH"(2) [OF that]) (use "2.prems" in auto)
  then show ?case
    using 2 by (auto split: if_splits option.splits node.splits sum.splits)
qed simp

lemma os_MkdirAll_keeps: "os_MkdirAll fs p = (e, fs') \<Longrightarrow> fs q \<noteq> None \<Longrightarrow> fs' q = fs q"
  using mkdirs_keeps [of fs "[]" "comps p" e fs' q] by (simp add: os_MkdirAll_def split: if_splits)

text \<open>Directories that are there already are passed through.\<close>

lemma mkdirs_dirs:
  assumes "\<And>q. prefix q cs \<Longrightarrow> q \<noteq> [] \<Longrightarrow> fs (cur @ q) = Some NDir" and "''..'' \<notin> set cs"
  shows "mkdirs fs cur (cs @ rest) = mkdirs fs (cur @ cs) rest"
  using assms
proof (induction cs arbitrary: cur)
  case (Cons c cs)
  have "fs (cur @ [c]) = Some NDir" using Cons.prems(1) [of "[c]"] by simp
  moreover have "fs ((cur @ [c]) @ q) = Some NDir" if "prefix q cs" "q \<noteq> []" for q
    using Cons.prems(1) [of "c # q"] that by simp
  ultimately show ?case using Cons.IH [of "cur @ [c]"] Cons.prems(2) by auto
qed simp

text \<open>
  \<open>confined d fs fs'\<close>: from \<open>fs\<close> to \<open>fs'\<close> nothing changed outside the directory \<open>d\<close>, no directory was
  replaced and no link was made in it.
\<close>

definition confined :: "path \<Rightarrow> fsys \<Rightarrow> fsys \<Rightarrow> bool" where
  "confined d fs fs' \<longleftrightarrow>
     (\<forall>q. fs' q = fs q \<or> strict_prefix d q \<and> fs q \<noteq> Some NDir \<and> (fs' q = Some NDir \<or> (\<exists>b. fs' q = Some (NFile b))))"

lemma confined_refl [simp]: "confined d fs fs"
  by (simp add: confined_def)

lemma confined_trans: "confined d fs fs' \<Longrightarrow> confined d fs' fs'' \<Longrightarrow> confined d fs fs''"
  unfolding confined_def by (metis node.distinct(1) option.inject)

lemma confined_clear: "confined d fs fs' \<Longrightarrow> clear_below fs d \<Longrightarrow> clear_below fs' d"
  unfolding confined_def clear_below_def dir_chain_def no_links_below_def
  by (metis node.distinct(3) node.distinct(5) option.inject)

lemma confined_outside: "confined d fs fs' \<Longrightarrow> \<not> strict_prefix d q \<Longrightarrow> fs' q = fs q"
  by (auto simp: confined_def)

lemma os_MkdirAll_confined:
  assumes "clear_below fs d" and "prefix (comps p) d \<or> prefix d (comps p)" and "''..'' \<notin> set (comps p)"
    and "''..'' \<notin> set d" and "os_MkdirAll fs p = (e, fs')"
  shows "confined d fs fs'"
proof -
  have ch: "fs ([] @ q) = Some NDir" if "prefix q d" "q \<noteq> []" for q
    using assms(1) that by (auto simp: clear_below_def dir_chain_def)
  consider (up) "prefix (comps p) d" | (down) y where "comps p = d @ y"
    using assms(2) by (auto simp: prefix_def)
  then show ?thesis
  proof cases
    case up
    have "mkdirs fs [] (comps p @ []) = mkdirs fs ([] @ comps p) []"
      by (rule mkdirs_dirs) (use ch up assms(3) prefix_order.trans in blast)+
    then show ?thesis using assms(5) by (auto simp: os_MkdirAll_def split: if_splits)
  next
    case down
    have "mkdirs fs [] (d @ y) = mkdirs fs ([] @ d) y"
      by (rule mkdirs_dirs) (use ch assms(4) in auto)
    then have "p = [] \<or> mkdirs fs d y = (e, fs')" using assms(5) down by (auto simp: os_MkdirAll_def split: if_splits)
    moreover have "''..'' \<notin> set y" using assms(3) down by simp
    moreover have "confined d fs fs'" if "mkdirs fs d y = (e, fs')" "''..'' \<notin> set y"
      using mkdirs_below [OF _ _ that(2,1), of d] assms(1)
      unfolding clear_below_def confined_def by (metis option.distinct(1) prefix_order.refl)
    ultimately show ?thesis using assms(5) by (auto simp: os_MkdirAll_def)
  qed
qed

lemma os_WriteFile_confined:
  assumes "clear_below fs d" and "comps p = d @ cs" and "''..'' \<notin> set (comps p)" and "os_WriteFile fs p b = Inr fs'"
  shows "confined d fs fs' \<and> fs' (d @ cs) = Some (NFile b) \<and> fs' = fs(d @ cs \<mapsto> NFile b)"
proof -
  obtain q where q: "resolve fs p = Inr q" and nd: "node_at fs q \<noteq> Some NDir" and fs': "fs' = fs(q \<mapsto> NFile b)"
    using assms(4) by (auto simp: os_WriteFile_def split: sum.splits if_splits)
  have "q = d @ cs" by (rule resolve_below [OF assms(1-3) q])
  moreover have "cs \<noteq> []"
    using nd calculation assms(1) by (auto simp: node_at_def clear_below_def dir_chain_def split: if_splits)
  ultimately show ?thesis
    using nd fs' by (auto simp: confined_def node_at_def strict_prefix_def split: if_splits)
qed

end
