(* ===== verification/Request_Context.thy ===== *)
theory Request_Context
  imports Go_Prelude
begin

text \<open>
  Values attached to a request, \<^verbatim>\<open>github.com/gorilla/context\<close>: two maps keyed by the request (its identity,
  a number here), one with the values and one with the time the request was first seen. The bundler
  stores strings under integer keys. Each operation takes the mutex for its whole body, so the model
  is sequential.

  The lemmas: the two maps always have the same requests (\<open>ctx_ok\<close>); reading back what was set;
  requests do not see each other's values; nothing is left of a request that was cleared.
\<close>

record ctx_store =
  cs_data :: "(nat \<times> (int \<times> string) list) list"
  cs_time :: "(nat \<times> int) list"

definition ctx_empty :: ctx_store where "ctx_empty = \<lparr>cs_data = [], cs_time = []\<rparr>"

definition del_key :: "'k \<Rightarrow> ('k \<times> 'v) list \<Rightarrow> ('k \<times> 'v) list" where
  "del_key k m = filter (\<lambda>(a, _). a \<noteq> k) m"

section \<open>Operations\<close>

definition context_Set :: "int \<Rightarrow> nat \<Rightarrow> int \<Rightarrow> string \<Rightarrow> ctx_store \<Rightarrow> ctx_store" where
  "context_Set now r key val c =
     (let c = (if map_of (cs_data c) r = None
               then c\<lparr>cs_data := gm_set r [] (cs_data c), cs_time := gm_set r now (cs_time c)\<rparr> else c) in
      case map_of (cs_data c) r of
        None \<Rightarrow> c
      | Some ctx \<Rightarrow> c\<lparr>cs_data := gm_set r (gm_set key val ctx) (cs_data c)\<rparr>)"

text \<open>A missing value is the nil interface.\<close>

definition context_Get :: "nat \<Rightarrow> int \<Rightarrow> ctx_store \<Rightarrow> string option" where
  "context_Get r key c = (case map_of (cs_data c) r of Some ctx \<Rightarrow> map_of ctx key | None \<Rightarrow> None)"

definition context_GetOk :: "nat \<Rightarrow> int \<Rightarrow> ctx_store \<Rightarrow> string option \<times> bool" where
  "context_GetOk r key c =
     (case map_of (cs_data c) r of Some ctx \<Rightarrow> (map_of ctx key, map_of ctx key \<noteq> None) | None \<Rightarrow> (None, False))"

definition context_GetAll :: "nat \<Rightarrow> ctx_store \<Rightarrow> (int \<times> string) list option" where
  "context_GetAll r c = (case map_of (cs_data c) r of Some ctx \<Rightarrow> Some (gm_of ctx) | None \<Rightarrow> None)"

definition context_GetAllOk :: "nat \<Rightarrow> ctx_store \<Rightarrow> (int \<times> string) list \<times> bool" where
  "context_GetAllOk r c =
     (gm_of (case map_of (cs_data c) r of Some ctx \<Rightarrow> ctx | None \<Rightarrow> []), map_of (cs_data c) r \<noteq> None)"

definition context_Delete :: "nat \<Rightarrow> int \<Rightarrow> ctx_store \<Rightarrow> ctx_store" where
  "context_Delete r key c =
     (case map_of (cs_data c) r of
        Some ctx \<Rightarrow> c\<lparr>cs_data := gm_set r (del_key key ctx) (cs_data c)\<rparr>
      | None \<Rightarrow> c)"

definition context_clear :: "nat \<Rightarrow> ctx_store \<Rightarrow> ctx_store" where
  "context_clear r c = c\<lparr>cs_data := del_key r (cs_data c), cs_time := del_key r (cs_time c)\<rparr>"

definition context_Clear :: "nat \<Rightarrow> ctx_store \<Rightarrow> ctx_store" where
  "context_Clear r c = context_clear r c"

text \<open>The loop of \<^verbatim>\<open>Purge\<close> over the requests there were when it started.\<close>

fun purge_loop :: "int \<Rightarrow> nat list \<Rightarrow> ctx_store \<times> nat \<Rightarrow> ctx_store \<times> nat" where
  "purge_loop min' [] (c, k) = (c, k)"
| "purge_loop min' (r # rs) (c, k) =
     (if (case map_of (cs_time c) r of Some t \<Rightarrow> t | None \<Rightarrow> 0) < min'
      then purge_loop min' rs (context_clear r c, k + 1)
      else purge_loop min' rs (c, k))"

definition context_Purge :: "int \<Rightarrow> int \<Rightarrow> ctx_store \<Rightarrow> ctx_store \<times> nat" where
  "context_Purge now maxAge c =
     (if maxAge \<le> 0 then (ctx_empty, length (cs_data c))
      else purge_loop (now - maxAge) (map fst (cs_data c)) (c, 0))"

section \<open>Facts\<close>

definition ctx_ok :: "ctx_store \<Rightarrow> bool" where
  "ctx_ok c \<longleftrightarrow> gm_ok (cs_data c) \<and> gm_ok (cs_time c) \<and> fst ` set (cs_data c) = fst ` set (cs_time c) \<and>
     (\<forall>(r, m) \<in> set (cs_data c). gm_ok m)"

lemma map_of_del_key [simp]: "map_of (del_key k m) = (map_of m)(k := None)"
  by (induction m) (auto simp: del_key_def fun_eq_iff)

lemma keys_del_key [simp]: "fst ` set (del_key k m) = fst ` set m - {k}"
  by (force simp: del_key_def)

lemma gm_ok_del_key [simp]: "gm_ok m \<Longrightarrow> gm_ok (del_key k m)"
  by (simp add: del_key_def distinct_map_filter)

lemma set_gm_set: "e \<in> set (gm_set k v m) \<Longrightarrow> e = (k, v) \<or> e \<in> set m"
  by (induction k v m rule: gm_set.induct) (auto split: if_splits)

lemma gm_set_all: "(\<forall>(r, m) \<in> set d. P m) \<Longrightarrow> P v \<Longrightarrow> \<forall>(r, m) \<in> set (gm_set k v d). P m"
  using set_gm_set by fastforce

lemma ctx_ok_empty: "ctx_ok ctx_empty"
  by (simp add: ctx_ok_def ctx_empty_def)

lemma ctx_ok_inner: "ctx_ok c \<Longrightarrow> map_of (cs_data c) r = Some ctx \<Longrightarrow> gm_ok ctx"
  unfolding ctx_ok_def by (auto dest: map_of_SomeD)

lemma ctx_ok_update:
  assumes "ctx_ok c" "r \<in> fst ` set (cs_data c)" "gm_ok ctx"
  shows "ctx_ok (c\<lparr>cs_data := gm_set r ctx (cs_data c)\<rparr>)"
  using assms gm_set_all [of "cs_data c" gm_ok ctx r] by (auto simp: ctx_ok_def insert_absorb)

lemma ctx_ok_Set: "ctx_ok c \<Longrightarrow> ctx_ok (context_Set now r key val c)"
proof -
  assume c: "ctx_ok c"
  define c1 where "c1 = (if map_of (cs_data c) r = None
    then c\<lparr>cs_data := gm_set r [] (cs_data c), cs_time := gm_set r now (cs_time c)\<rparr> else c)"
  have "ctx_ok c1"
    using c gm_set_all [of "cs_data c" gm_ok "[]" r] by (auto simp: c1_def ctx_ok_def)
  moreover obtain ctx where ctx: "map_of (cs_data c1) r = Some ctx"
    by (cases "map_of (cs_data c) r") (auto simp: c1_def)
  moreover have "r \<in> fst ` set (cs_data c1)" using ctx by (metis domI dom_map_of_conv_image_fst)
  ultimately show ?thesis
    using ctx_ok_update [of c1 r "gm_set key val ctx"] ctx_ok_inner [of c1 r ctx]
    unfolding context_Set_def Let_def c1_def [symmetric] by simp
qed

lemma ctx_ok_Delete: "ctx_ok c \<Longrightarrow> ctx_ok (context_Delete r key c)"
proof (cases "map_of (cs_data c) r")
  case (Some ctx)
  assume c: "ctx_ok c"
  have "r \<in> fst ` set (cs_data c)" using Some by (metis domI dom_map_of_conv_image_fst)
  then show ?thesis
    using ctx_ok_update [OF c, of r "del_key key ctx"] ctx_ok_inner [OF c Some] Some
    by (simp add: context_Delete_def)
qed (simp add: context_Delete_def)

lemma ctx_ok_Clear: "ctx_ok c \<Longrightarrow> ctx_ok (context_Clear r c)"
  by (auto simp: ctx_ok_def context_Clear_def context_clear_def del_key_def distinct_map_filter)
    (force simp: image_iff)+

lemma purge_loop_ok: "ctx_ok c \<Longrightarrow> ctx_ok (fst (purge_loop m rs (c, n)))"
  by (induction m rs "(c, n)" arbitrary: c n rule: purge_loop.induct)
    (auto simp: ctx_ok_Clear [unfolded context_Clear_def])

lemma ctx_ok_Purge: "ctx_ok c \<Longrightarrow> ctx_ok (fst (context_Purge now maxAge c))"
  by (simp add: context_Purge_def ctx_ok_empty purge_loop_ok)

lemma context_Get_Set [simp]:
  "context_Get r' k' (context_Set now r k v c) = (if r' = r \<and> k' = k then Some v else context_Get r' k' c)"
  by (auto simp: context_Get_def context_Set_def Let_def split: option.split)

lemma context_Get_Clear [simp]: "context_Get r' k (context_Clear r c) = (if r' = r then None else context_Get r' k c)"
  by (simp add: context_Get_def context_Clear_def context_clear_def)

lemma context_Get_Delete [simp]:
  "context_Get r' k' (context_Delete r k c) = (if r' = r \<and> k' = k then None else context_Get r' k' c)"
  by (auto simp: context_Get_def context_Delete_def split: option.split)

text \<open>\<^verbatim>\<open>Purge\<close> removes exactly the requests that are older than the limit and counts them.\<close>

lemma purge_loop_spec:
  assumes "distinct rs" and "purge_loop m rs (c, n) = (c', n')"
  shows "map_of (cs_data c') r = (if r \<in> set rs \<and> (case map_of (cs_time c) r of Some t \<Rightarrow> t | None \<Rightarrow> 0) < m
      then None else map_of (cs_data c) r)"
    and "n' = n + length (filter (\<lambda>r. (case map_of (cs_time c) r of Some t \<Rightarrow> t | None \<Rightarrow> 0) < m) rs)"
proof -
  let ?old = "\<lambda>c r. (case map_of (cs_time c) r of Some t \<Rightarrow> t | None \<Rightarrow> 0) < m"
  have "map_of (cs_data c') r = (if r \<in> set rs \<and> ?old c r then None else map_of (cs_data c) r) \<and>
      n' = n + length (filter (?old c) rs)"
    using assms
  proof (induction rs arbitrary: c n)
    case (Cons x rs)
    have keep: "filter (?old (context_clear x c)) rs = filter (?old c) rs"
      using Cons.prems(1) by (intro filter_cong) (auto simp: context_clear_def)
    show ?case
      using Cons.IH [of "context_clear x c" "n + 1"] Cons.IH [of c n] Cons.prems keep
      by (auto simp: context_clear_def split: if_splits)
  qed simp
  then show "map_of (cs_data c') r = (if r \<in> set rs \<and> ?old c r then None else map_of (cs_data c) r)"
    and "n' = n + length (filter (?old c) rs)" by auto
qed

end
