(* ===== verification/World.thy ===== *)
theory World
  imports Go_Fs Request_Context
begin

text \<open>
  The state the bundler's handlers act on and the parameters that stand for what is outside the
  repository.

  \<^item> \<open>env\<close> holds the parameters: environment variables, the HTTP exchange with the object store,
    the memcached operations, the order in which Go ranges over a map, the names of temporary
    directories, the zip, PNG and RSA routines of the standard library, the shell that runs the
    packager, and what the SQL server makes of a condition it was not written for. Theorems quantify
    over all of it; what they rely on is a named hypothesis (\<open>range_law\<close>, \<open>temp_law\<close>, \<open>memcached_law\<close>
    below, the locale \<open>s3_service\<close> in the theory of the S3 client).
  \<^item> \<open>world\<close> is the state: the rows of the \<^verbatim>\<open>files\<close> table, the states of the object store and of
    memcached (type parameters), the file system, the HTTP response being written, the request
    contexts, and scripts that say how the next database queries, web requests and broker calls end
    (\<open>w_puts\<close> collects the requests sent to the web application with their two handshake headers,
    \<open>w_msgs\<close> the messages published).
\<close>

section \<open>Requests, responses, rows\<close>

record http_req =
  hq_method :: string
  hq_url :: string
  hq_body :: bytes

record http_resp =
  hp_status :: nat
  hp_header :: gomap
  hp_body :: "error + bytes"

text \<open>An incoming request: \<open>rq_id\<close> is its identity (the pointer), \<open>rq_vars\<close> the route variables,
  \<open>rq_form\<close> the parsed query and form values, \<open>rq_post\<close> the values of the form body alone, \<open>rq_header\<close> the
  headers by canonical name, \<open>rq_host\<close> the host it was sent to, \<open>rq_abs_host\<close> the host of the URL if that is absolute,
  \<open>rq_query\<close> the first value of each key of the URL's query.\<close>

record request =
  rq_id :: nat
  rq_method :: string
  rq_path :: string
  rq_vars :: gomap
  rq_form :: gomap
  rq_post :: gomap
  rq_body :: bytes
  rq_header :: gomap
  rq_host :: string
  rq_abs_host :: "string option"
  rq_query :: gomap

text \<open>The response: \<open>rs_status\<close> is \<open>None\<close> until the header has gone out; \<open>rs_header\<close> holds the headers other
  than the content type.\<close>

record response =
  rs_status :: "nat option"
  rs_ctype :: string
  rs_body :: string
  rs_header :: gomap

record row =
  r_app :: string
  r_sub :: "string option"
  r_name :: string
  r_hash :: string

text \<open>How a query ends: normally; refused; refused although it took effect (the connection broke
  after the commit); or, for a SELECT, cut off after \<open>n\<close> rows (the row loop of the code ends the same
  way in both cases, because it does not look at \<^verbatim>\<open>rows.Err()\<close>).\<close>

datatype db_outcome = Q_ok | Q_fail error | Q_lost error | Q_cut nat

text \<open>An entry of a zip archive as \<^verbatim>\<open>archive/zip\<close> presents it: whether it opens, what its mode says, the
  bytes its reader delivers and the error it may then end with.\<close>

record zip_file =
  zf_name :: string
  zf_open :: "error option"
  zf_dir :: bool
  zf_symlink :: bool
  zf_data :: bytes
  zf_end :: "error option"

text \<open>What \<^verbatim>\<open>pem.Decode\<close> and \<^verbatim>\<open>x509.ParsePKIXPublicKey\<close> make of the key file.\<close>

datatype pubkey = Pem_none | Pkix_error error | Pkix_other | Pkix_rsa string

text \<open>The dynamic type of an error that the HTTP client returned, as far as the retry loop asks for it:
  end of file, a DNS failure, a network operation, an S3 error with its code, anything else.\<close>

datatype err_class = E_eof | E_unexpected_eof | E_dns | E_op string | E_s3 string | E_other

record ('s, 'm) env =
  getenv :: "string \<Rightarrow> string"
  now :: int
  http_do :: "http_req \<Rightarrow> 's \<Rightarrow> (error + http_resp) \<times> 's"
  http_class :: "error \<Rightarrow> err_class"
  s3_sign :: "http_req \<Rightarrow> error option"
  s3_errdoc :: "http_resp \<Rightarrow> error"
  s3_attempts :: nat
  mc_get :: "string \<Rightarrow> 'm \<Rightarrow> (error + bytes) \<times> 'm"
  mc_set :: "string \<Rightarrow> bytes \<Rightarrow> 'm \<Rightarrow> error option \<times> 'm"
  mc_delete :: "string \<Rightarrow> 'm \<Rightarrow> error option \<times> 'm"
  map_range :: "gomap \<Rightarrow> gomap"
  temp_name :: "string \<Rightarrow> fsys \<Rightarrow> error + string"
  zip_open :: "bytes \<Rightarrow> error + zip_file list"
  zip_bytes :: "(string \<times> bytes) list \<Rightarrow> bytes"
  read_dir :: "fsys \<Rightarrow> path \<Rightarrow> string list"
  png_config :: "bytes \<Rightarrow> error + int \<times> int"
  base64_decode :: "string \<Rightarrow> bytes \<times> error option"
  parse_pubkey :: "bytes \<Rightarrow> pubkey"
  sha256_sum :: "bytes \<Rightarrow> bytes"
  rsa_verify :: "string \<Rightarrow> bytes \<Rightarrow> bytes \<Rightarrow> error option"
  run_shell :: "string \<Rightarrow> fsys \<Rightarrow> (error option \<times> bytes \<times> bytes) \<times> fsys"
  sql_other :: "string \<Rightarrow> (row \<Rightarrow> bool) option"

record ('s, 'm) world =
  w_rows :: "row list"
  w_dbq :: "db_outcome list"
  w_s3 :: 's
  w_mc :: 'm
  w_fs :: fsys
  w_rsp :: response
  w_ctx :: ctx_store
  w_web :: "(error + http_resp) list"
  w_puts :: "(http_req \<times> string \<times> string) list"
  w_amqp :: "error option list"
  w_msgs :: "string list"

section \<open>What the parameters are assumed to do\<close>

text \<open>Ranging over a map visits every entry once.\<close>

definition range_law :: "('s, 'm) env \<Rightarrow> bool" where
  "range_law env \<longleftrightarrow> (\<forall>m. mset (map_range env m) = mset m)"

text \<open>\<^verbatim>\<open>ioutil.TempDir\<close> makes a new directory in an existing one.\<close>

definition temp_law :: "('s, 'm) env \<Rightarrow> bool" where
  "temp_law env \<longleftrightarrow>
     (\<forall>pre fs d. temp_name env pre fs = Inr d \<longrightarrow>
        plain_dir d \<and> comps d \<noteq> [] \<and> (\<forall>q. prefix (comps d) q \<longrightarrow> fs q = None) \<and>
        dir_chain fs (butlast (comps d)))"

text \<open>Reading a directory gives its entries, each once.\<close>

definition dir_law :: "('s, 'm) env \<Rightarrow> bool" where
  "dir_law env \<longleftrightarrow>
     (\<forall>fs p. finite {n. fs (p @ [n]) \<noteq> None} \<longrightarrow>
        distinct (read_dir env fs p) \<and> set (read_dir env fs p) = {n. fs (p @ [n]) \<noteq> None})"

text \<open>
  Memcached, seen through the set \<open>mv\<close> of entries it could answer with: an answer is one of them,
  entries may disappear at any time, and only \<^verbatim>\<open>set\<close> adds one. A call that reports an error may or
  may not have taken effect.
\<close>

definition memcached_law :: "('s, 'm) env \<Rightarrow> ('m \<Rightarrow> string \<Rightarrow> bytes option) \<Rightarrow> bool" where
  "memcached_law env mv \<longleftrightarrow>
     (\<forall>k m r m'. mc_get env k m = (r, m') \<longrightarrow>
        mv m' \<subseteq>\<^sub>m mv m \<and> (\<forall>b. r = Inr b \<longrightarrow> mv m k = Some b)) \<and>
     (\<forall>k b m r m'. mc_set env k b m = (r, m') \<longrightarrow>
        mv m' \<subseteq>\<^sub>m (mv m)(k \<mapsto> b) \<or> r \<noteq> None \<and> mv m' \<subseteq>\<^sub>m mv m) \<and>
     (\<forall>k m r m'. mc_delete env k m = (r, m') \<longrightarrow>
        mv m' \<subseteq>\<^sub>m (mv m)(k := None) \<or> r \<noteq> None \<and> r \<noteq> Some ErrCacheMiss \<and> mv m' \<subseteq>\<^sub>m mv m)"

lemma memcached_getD:
  assumes "memcached_law env mv" "mc_get env k m = (r, m')"
  shows "mv m' x = Some v \<Longrightarrow> mv m x = Some v" and "r = Inr b \<Longrightarrow> mv m k = Some b"
  using assms unfolding memcached_law_def by (blast intro: map_le_Some)+

lemma memcached_setD:
  assumes "memcached_law env mv" "mc_set env k b m = (r, m')" "mv m' x = Some v"
  shows "((mv m)(k \<mapsto> b)) x = Some v \<or> r \<noteq> None \<and> mv m x = Some v"
  using assms unfolding memcached_law_def by (blast intro: map_le_Some)

lemma memcached_deleteD:
  assumes "memcached_law env mv" "mc_delete env k m = (r, m')" "mv m' x = Some v"
  shows "((mv m)(k := None)) x = Some v \<or> r \<noteq> None \<and> r \<noteq> Some ErrCacheMiss \<and> mv m x = Some v"
  using assms unfolding memcached_law_def by (blast intro: map_le_Some)

section \<open>Writing the response\<close>

definition http_write :: "string \<Rightarrow> ('s, 'm) world \<Rightarrow> ('s, 'm) world" where
  "http_write s w =
     (let r = w_rsp w in
      w\<lparr>w_rsp := r\<lparr>rs_status := Some (case rs_status r of None \<Rightarrow> 200 | Some c \<Rightarrow> c),
                   rs_body := rs_body r @ s\<rparr>\<rparr>)"

definition set_ctype :: "string \<Rightarrow> ('s, 'm) world \<Rightarrow> ('s, 'm) world" where
  "set_ctype t w =
     (let r = w_rsp w in if rs_status r = None then w\<lparr>w_rsp := r\<lparr>rs_ctype := t\<rparr>\<rparr> else w)"

text \<open>\<^verbatim>\<open>http.Error\<close>: the status only counts if the header has not gone out.\<close>

definition http_Error :: "string \<Rightarrow> nat \<Rightarrow> ('s, 'm) world \<Rightarrow> ('s, 'm) world" where
  "http_Error msg code w =
     (let w' = set_ctype ''text/plain; charset=utf-8'' w; r = w_rsp w' in
      http_write (msg @ [CHR 0x0A])
        (w'\<lparr>w_rsp := r\<lparr>rs_status := Some (case rs_status r of None \<Rightarrow> code | Some c \<Rightarrow> c)\<rparr>\<rparr>))"

definition new_response :: response where
  "new_response = \<lparr>rs_status = None, rs_ctype = [], rs_body = [], rs_header = []\<rparr>"

lemma http_write_fields [simp]:
  "w_rows (http_write s w) = w_rows w" "w_dbq (http_write s w) = w_dbq w"
  "w_s3 (http_write s w) = w_s3 w" "w_mc (http_write s w) = w_mc w" "w_fs (http_write s w) = w_fs w"
  "w_ctx (http_write s w) = w_ctx w" "w_web (http_write s w) = w_web w" "w_puts (http_write s w) = w_puts w"
  "w_amqp (http_write s w) = w_amqp w" "w_msgs (http_write s w) = w_msgs w"
  by (simp_all add: http_write_def Let_def)

lemma http_Error_fields [simp]:
  "w_rows (http_Error s c w) = w_rows w" "w_dbq (http_Error s c w) = w_dbq w"
  "w_s3 (http_Error s c w) = w_s3 w" "w_mc (http_Error s c w) = w_mc w" "w_fs (http_Error s c w) = w_fs w"
  "w_ctx (http_Error s c w) = w_ctx w" "w_web (http_Error s c w) = w_web w" "w_puts (http_Error s c w) = w_puts w"
  "w_amqp (http_Error s c w) = w_amqp w" "w_msgs (http_Error s c w) = w_msgs w"
  by (simp_all add: http_Error_def set_ctype_def Let_def)

lemma set_ctype_fields [simp]:
  "w_rows (set_ctype s w) = w_rows w" "w_dbq (set_ctype s w) = w_dbq w"
  "w_s3 (set_ctype s w) = w_s3 w" "w_mc (set_ctype s w) = w_mc w" "w_fs (set_ctype s w) = w_fs w"
  "w_ctx (set_ctype s w) = w_ctx w" "w_web (set_ctype s w) = w_web w" "w_puts (set_ctype s w) = w_puts w"
  "w_amqp (set_ctype s w) = w_amqp w" "w_msgs (set_ctype s w) = w_msgs w"
  by (simp_all add: set_ctype_def Let_def)

text \<open>Once the header has gone out, the status stays.\<close>

lemma status_http_write [simp]:
  "rs_status (w_rsp (http_write s w)) = Some (case rs_status (w_rsp w) of None \<Rightarrow> 200 | Some c \<Rightarrow> c)"
  by (simp add: http_write_def Let_def)

lemma status_http_Error [simp]:
  "rs_status (w_rsp (http_Error s c w)) = Some (case rs_status (w_rsp w) of None \<Rightarrow> c | Some c' \<Rightarrow> c')"
  by (simp add: http_Error_def set_ctype_def Let_def)

section \<open>Handlers\<close>

text \<open>A handler acts on a request and the world; what it returns is only whether it panicked.\<close>

type_synonym ('s, 'm) handler = "request \<Rightarrow> ('s, 'm) world \<Rightarrow> unit res \<times> ('s, 'm) world"

definition lookup_str :: "string \<Rightarrow> gomap \<Rightarrow> string" where
  "lookup_str k m = (case map_of m k of None \<Rightarrow> [] | Some v \<Rightarrow> v)"

definition FormValue :: "request \<Rightarrow> string \<Rightarrow> string" where
  "FormValue r key = lookup_str key (rq_form r)"

definition PostFormValue :: "request \<Rightarrow> string \<Rightarrow> string" where
  "PostFormValue r key = lookup_str key (rq_post r)"

definition ctx_set :: "('s, 'm) env \<Rightarrow> request \<Rightarrow> int \<Rightarrow> string \<Rightarrow> ('s, 'm) world \<Rightarrow> ('s, 'm) world" where
  "ctx_set env r key val w = w\<lparr>w_ctx := context_Set (now env) (rq_id r) key val (w_ctx w)\<rparr>"

definition ctx_get :: "request \<Rightarrow> int \<Rightarrow> ('s, 'm) world \<Rightarrow> string option" where
  "ctx_get r key w = context_Get (rq_id r) key (w_ctx w)"

text \<open>\<^verbatim>\<open>context.Get(r, key).(string)\<close>: the type assertion panics on nil.\<close>

definition ctx_string :: "request \<Rightarrow> int \<Rightarrow> ('s, 'm) world \<Rightarrow> string res \<times> ('s, 'm) world" where
  "ctx_string r key w =
     (case ctx_get r key w of
        Some v \<Rightarrow> (Ok v, w)
      | None \<Rightarrow> (Panic ''interface conversion: interface is nil, not string'', w))"

lemma ctx_set_fields [simp]:
  "w_rows (ctx_set env r k v w) = w_rows w" "w_dbq (ctx_set env r k v w) = w_dbq w"
  "w_s3 (ctx_set env r k v w) = w_s3 w" "w_mc (ctx_set env r k v w) = w_mc w" "w_fs (ctx_set env r k v w) = w_fs w"
  "w_rsp (ctx_set env r k v w) = w_rsp w" "w_web (ctx_set env r k v w) = w_web w"
  "w_puts (ctx_set env r k v w) = w_puts w" "w_amqp (ctx_set env r k v w) = w_amqp w"
  "w_msgs (ctx_set env r k v w) = w_msgs w"
  by (simp_all add: ctx_set_def)

lemma ctx_get_set [simp]:
  "ctx_get r' k' (ctx_set env r k v w) = (if rq_id r' = rq_id r \<and> k' = k then Some v else ctx_get r' k' w)"
  by (simp add: ctx_get_def ctx_set_def)

section \<open>Taking the next outcome of a query\<close>

definition db_next :: "('s, 'm) world \<Rightarrow> db_outcome \<times> ('s, 'm) world" where
  "db_next w = (case w_dbq w of [] \<Rightarrow> (Q_ok, w) | q # qs \<Rightarrow> (q, w\<lparr>w_dbq := qs\<rparr>))"

lemma db_next_fields:
  "db_next w = (q, w') \<Longrightarrow> w' = w\<lparr>w_dbq := tl (w_dbq w)\<rparr>"
  by (auto simp: db_next_def split: list.splits)

text \<open>The answer of the web application to the next request.\<close>

definition web_next :: "('s, 'm) world \<Rightarrow> (error + http_resp) \<times> ('s, 'm) world" where
  "web_next w = (case w_web w of [] \<Rightarrow> (Inl (Errorf ''connection refused''), w) | a # as \<Rightarrow> (a, w\<lparr>w_web := as\<rparr>))"

text \<open>The outcome of the next call to the message broker.\<close>

definition amqp_next :: "('s, 'm) world \<Rightarrow> error option \<times> ('s, 'm) world" where
  "amqp_next w = (case w_amqp w of [] \<Rightarrow> (None, w) | a # as \<Rightarrow> (a, w\<lparr>w_amqp := as\<rparr>))"

text \<open>\<^verbatim>\<open>err.Error()\<close>; the errors of the file system are reduced to their kind.\<close>

fun error_text :: "error \<Rightarrow> string" where
  "error_text (Errorf s) = s"
| "error_text ErrCacheMiss = ''memcache: cache miss''"
| "error_text ErrAppEmpty = ''This app has not been pushed yet.''"
| "error_text (ErrFs ENOENT) = ''no such file or directory''"
| "error_text (ErrFs ENOTDIR) = ''not a directory''"
| "error_text (ErrFs EISDIR) = ''is a directory''"
| "error_text (ErrFs EEXIST) = ''file exists''"
| "error_text (ErrFs ELOOP) = ''too many levels of symbolic links''"
| "error_text (ErrMc s) = s"

text \<open>A file-system error as a Go error.\<close>

definition fs_error :: "fs_err \<Rightarrow> error" where
  "fs_error e = ErrFs e"

text \<open>\<^verbatim>\<open>ioutil.TempDir("", prefix)\<close>.\<close>

definition TempDir :: "('s, 'm) env \<Rightarrow> string \<Rightarrow> ('s, 'm) world \<Rightarrow> string res \<times> ('s, 'm) world" where
  "TempDir env pre w =
     (case temp_name env pre (w_fs w) of
        Inl e \<Rightarrow> (Fail e, w)
      | Inr d \<Rightarrow> (Ok d, w\<lparr>w_fs := (w_fs w)(comps d \<mapsto> NDir)\<rparr>))"

definition fs_remove :: "string \<Rightarrow> ('s, 'm) world \<Rightarrow> ('s, 'm) world" where
  "fs_remove p w = w\<lparr>w_fs := os_RemoveAll (w_fs w) p\<rparr>"

text \<open>A new temporary directory is clear: no links in it, and only directories above it.\<close>

lemma TempDir_clear:
  assumes "temp_law env" and "TempDir env pre w = (Ok d, w')"
  shows "clear_below (w_fs w') (comps d)" and "plain_dir d"
proof -
  from assms have t: "temp_name env pre (w_fs w) = Inr d"
    and w': "w_fs w' = (w_fs w)(comps d \<mapsto> NDir)"
    by (auto simp: TempDir_def split: sum.splits)
  from t assms(1) have l: "plain_dir d" "comps d \<noteq> []" "\<And>q. prefix (comps d) q \<Longrightarrow> w_fs w q = None"
    "dir_chain (w_fs w) (butlast (comps d))"
    unfolding temp_law_def by blast+
  show "plain_dir d" by fact
  have "w_fs w' q = Some NDir" if "prefix q (comps d)" "q \<noteq> []" for q
  proof (cases "q = comps d")
    case False
    then have "prefix q (butlast (comps d))"
      using that(1) l(2) by (metis append_butlast_last_id prefix_snoc)
    then show ?thesis using l(4) that(2) False w' by (auto simp: dir_chain_def)
  qed (simp add: w')
  then show "clear_below (w_fs w') (comps d)"
    using l(3) w' by (auto simp: clear_below_def dir_chain_def no_links_below_def)
qed

end
