(* ===== verification/Unzip.thy ===== *)
theory Unzip
  imports World
begin

text \<open>
  Unpacking the archive a client sends, \<^verbatim>\<open>siphon/bundler/unzip.go\<close>. The entries of the archive come from
  the parameter \<open>zip_open\<close>. The lemmas: unless an entry is a symbolic link, unpacking changes nothing
  outside the destination directory, whatever the entries are called and whether it succeeds or not;
  and an entry whose name contains \<^verbatim>\<open>..\<close> ends it.
\<close>

definition extractFile :: "zip_file \<Rightarrow> string \<Rightarrow> ('s, 'm) world \<Rightarrow> unit res \<times> ('s, 'm) world" where
  "extractFile file dest w =
     (let name = zf_name file in
      if sublist ''..'' name then (Fail (Errorf (''Bad zip listing name: '' @ zf_name file)), w)
      else
        let name = Clean (replace_all ''../'' [] name);
            filePath = path_Join [dest, name] in
        if zf_dir file then
          (case os_MkdirAll (w_fs w) filePath of
             (Some e, fs) \<Rightarrow> (Fail (fs_error e), w\<lparr>w_fs := fs\<rparr>)
           | (None, fs) \<Rightarrow> (Ok (), w\<lparr>w_fs := fs\<rparr>))
        else
          (case os_MkdirAll (w_fs w) (path_Dir filePath) of
             (Some e, fs) \<Rightarrow> (Fail (fs_error e), w\<lparr>w_fs := fs\<rparr>)
           | (None, fs) \<Rightarrow>
               if zf_symlink file then
                 (case zf_end file of
                    Some e \<Rightarrow> (Fail e, w\<lparr>w_fs := fs\<rparr>)
                  | None \<Rightarrow>
                      (case os_Symlink fs (zf_data file) filePath of
                         Inl e \<Rightarrow> (Fail (fs_error e), w\<lparr>w_fs := fs\<rparr>)
                       | Inr fs \<Rightarrow> (Ok (), w\<lparr>w_fs := fs\<rparr>)))
               else
                 (case os_WriteFile fs filePath (zf_data file) of
                    Inl e \<Rightarrow> (Fail (fs_error e), w\<lparr>w_fs := fs\<rparr>)
                  | Inr fs \<Rightarrow>
                      (case zf_end file of
                         Some e \<Rightarrow> (Fail e, w\<lparr>w_fs := fs\<rparr>)
                       | None \<Rightarrow> (Ok (), w\<lparr>w_fs := fs\<rparr>)))))"

definition Unzip :: "('s, 'm) env \<Rightarrow> string \<Rightarrow> string \<Rightarrow> ('s, 'm) world \<Rightarrow> unit res \<times> ('s, 'm) world" where
  "Unzip env src dest w =
     (case os_ReadFile (w_fs w) src of
        Inl e \<Rightarrow> (Fail (fs_error e), w)
      | Inr b \<Rightarrow>
          (case zip_open env b of
             Inl e \<Rightarrow> (Fail e, w)
           | Inr files \<Rightarrow>
               for_each (\<lambda>file w.
                 case zf_open file of Some e \<Rightarrow> (Fail e, w) | None \<Rightarrow> extractFile file dest w) files w))"

section \<open>Frames\<close>

definition fs_frame :: "('s, 'm) world \<Rightarrow> ('s, 'm) world \<Rightarrow> bool" where
  "fs_frame w w' \<longleftrightarrow> w' = w\<lparr>w_fs := w_fs w'\<rparr>"

lemma fs_frame_refl [simp]: "fs_frame w w" "fs_frame w (w\<lparr>w_fs := fs\<rparr>)"
  by (simp_all add: fs_frame_def)

lemma fs_frame_trans: "fs_frame u v \<Longrightarrow> fs_frame v w \<Longrightarrow> fs_frame u w"
  by (cases u; cases v; cases w) (simp add: fs_frame_def)

lemma fs_frameD:
  assumes "fs_frame w w'"
  shows "w_rows w' = w_rows w" "w_dbq w' = w_dbq w" "w_s3 w' = w_s3 w" "w_mc w' = w_mc w" "w_rsp w' = w_rsp w"
    "w_ctx w' = w_ctx w" "w_web w' = w_web w" "w_puts w' = w_puts w" "w_amqp w' = w_amqp w" "w_msgs w' = w_msgs w"
  using assms unfolding fs_frame_def by (cases w; cases w'; simp)+

lemma extractFile_frame [frame]: "fs_frame w (snd (extractFile file dest w))"
  by (auto simp: extractFile_def Let_def split: prod.split option.split sum.split)

lemma Unzip_frame [frame]: "fs_frame w (snd (Unzip env src dest w))"
proof -
  have "fs_frame w (snd (for_each (\<lambda>file w.
      case zf_open file of Some e \<Rightarrow> (Fail e, w) | None \<Rightarrow> extractFile file dest w) files w))" for files
    by (rule for_each_keeps [where Q = "fs_frame w"])
      (auto split: option.split intro: fs_frame_trans [OF _ extractFile_frame])
  then show ?thesis by (auto simp: Unzip_def split: sum.split)
qed

section \<open>Confinement\<close>

lemma extracted_path:
  assumes "plain_dir dest" and "\<not> sublist ''..'' name"
  shows "comps (path_Join [dest, Clean (replace_all ''../'' [] name)]) = comps dest @ comps name"
    and "''..'' \<notin> set (comps dest @ comps name)"
proof -
  have "\<not> sublist ''../'' name"
    using assms(2) by (metis append.simps append_Nil2 sublist_appendI sublist_order.order_trans sublist_append_rightI append_Cons)
  then have r: "replace_all ''../'' [] name = name" by (rule replace_all_absent)
  have nd: "''..'' \<notin> set (comps name)" by (rule no_dotdot_comps [OF assms(2)])
  then have "comps (Clean name) = comps name" by (simp add: comps_Clean elim_dotdot_id)
  then show "comps (path_Join [dest, Clean (replace_all ''../'' [] name)]) = comps dest @ comps name"
    using path_Join_below [OF assms(1), of "Clean name"] nd r by simp
  show "''..'' \<notin> set (comps dest @ comps name)" using nd assms(1) by (simp add: plain_dir_def)
qed

lemma extractFile_confined:
  assumes "plain_dir dest" and "clear_below (w_fs w) (comps dest)" and "\<not> zf_symlink file"
    and "extractFile file dest w = (r, w')"
  shows "confined (comps dest) (w_fs w) (w_fs w')"
proof (cases "sublist ''..'' (zf_name file)")
  case False
  let ?d = "comps dest" and ?n = "comps (zf_name file)"
  define p where "p = path_Join [dest, Clean (replace_all ''../'' [] (zf_name file))]"
  have cp: "comps p = ?d @ ?n" and nd: "''..'' \<notin> set (comps p)" "''..'' \<notin> set ?d"
    using extracted_path [OF assms(1) False] by (auto simp: p_def)
  have mk: "confined ?d (w_fs w) fs'" if "os_MkdirAll (w_fs w) p = (e, fs')" for e fs'
    by (rule os_MkdirAll_confined [OF assms(2) _ nd that]) (simp add: cp)
  have dir: "prefix (comps (path_Dir p)) ?d \<or> prefix ?d (comps (path_Dir p))"
    using path_Dir_prefix(1) [OF nd(1)] cp by (metis prefixI prefix_same_cases)
  have nd': "''..'' \<notin> set (comps (path_Dir p))"
    using path_Dir_prefix(1) [OF nd(1)] nd(1) by (meson set_mono_prefix subsetD)
  have up: "confined ?d (w_fs w) fs'" if "os_MkdirAll (w_fs w) (path_Dir p) = (e, fs')" for e fs'
    by (rule os_MkdirAll_confined [OF assms(2) dir nd' nd(2) that])
  have wr: "confined ?d (w_fs w) fs''"
    if "os_MkdirAll (w_fs w) (path_Dir p) = (e, fs')" "os_WriteFile fs' p b = Inr fs''" for e fs' fs'' b
    using os_WriteFile_confined [OF confined_clear [OF up [OF that(1)] assms(2)] cp nd(1) that(2)]
      confined_trans [OF up [OF that(1)]] by blast
  show ?thesis
    using assms(3,4) False up wr mk unfolding extractFile_def Let_def p_def [symmetric]
    by (auto split: prod.splits option.splits sum.splits if_splits)
qed (use assms(4) in \<open>auto simp: extractFile_def\<close>)

lemma Unzip_confined:
  assumes "plain_dir dest" and "clear_below (w_fs w) (comps dest)"
    and "\<And>b files f. zip_open env b = Inr files \<Longrightarrow> f \<in> set files \<Longrightarrow> \<not> zf_symlink f"
  shows "confined (comps dest) (w_fs w) (w_fs (snd (Unzip env src dest w)))"
proof -
  let ?body = "\<lambda>file w. case zf_open file of Some e \<Rightarrow> (Fail e, w) | None \<Rightarrow> extractFile file dest w"
  have "confined (comps dest) (w_fs w) (w_fs (snd (for_each ?body files w)))" if "zip_open env b = Inr files" for b files
  proof (rule for_each_keeps [where Q = "\<lambda>v. confined (comps dest) (w_fs w) (w_fs v)"])
    fix f and v :: "('a, 'b) world"
    assume f: "f \<in> set files" and v: "confined (comps dest) (w_fs w) (w_fs v)"
    note c = confined_clear [OF v assms(2)]
    obtain r v' where x: "extractFile f dest v = (r, v')" by (cases "extractFile f dest v")
    have "confined (comps dest) (w_fs v) (w_fs v')"
      by (rule extractFile_confined [OF assms(1) c assms(3) [OF that f] x])
    then show "confined (comps dest) (w_fs w) (w_fs (snd (?body f v)))"
      using v x by (auto split: option.split intro: confined_trans)
  qed simp
  then show ?thesis by (auto simp: Unzip_def split: sum.split)
qed

text \<open>An archive with a name that climbs is refused when that entry is reached.\<close>

lemma extractFile_dotdot: "sublist ''..'' (zf_name f) \<Longrightarrow> extractFile f dest w = (Fail (Errorf (''Bad zip listing name: '' @ zf_name f)), w)"
  by (simp add: extractFile_def)

end
