(* ===== verification/Go_Json.thy ===== *)
theory Go_Json
  imports Go_Prelude
begin

text \<open>
  \<^verbatim>\<open>encoding/json\<close> as the bundler uses it: \<^verbatim>\<open>json.Unmarshal\<close> into string maps and structs of strings.
  The scanner is a character automaton followed by a stack machine over the tokens, as in the Go
  library, so parsing is a structural recursion over the input. String literals are unquoted with
  Go's treatment of \<^verbatim>\<open>\u\<close> escapes, surrogates and invalid UTF-8 (replaced by U+FFFD). Struct fields are
  found by case folding, unknown keys are skipped, \<^verbatim>\<open>null\<close> leaves a string alone and clears a map, and
  a value of another type makes the whole call fail.
\<close>

datatype json = JNull | JBool bool | JNum string | JStr string | JArr "json list" | JObj "(string \<times> json) list"

datatype tok = T_null | T_true | T_false | T_num string | T_str string
  | T_lbrack | T_rbrack | T_lbrace | T_rbrace | T_comma | T_colon

section \<open>Scanner\<close>

definition code :: "char \<Rightarrow> nat" where "code c = of_char c"

abbreviation dquote :: char where "dquote \<equiv> CHR 0x22"
abbreviation backslash :: char where "backslash \<equiv> CHR 0x5C"

definition is_digit :: "char \<Rightarrow> bool" where "is_digit c \<longleftrightarrow> c \<in> set ''0123456789''"
definition is_hex :: "char \<Rightarrow> bool" where "is_hex c \<longleftrightarrow> c \<in> set ''0123456789abcdefABCDEF''"
definition is_space :: "char \<Rightarrow> bool" where
  "is_space c \<longleftrightarrow> c = CHR '' '' \<or> c = CHR 0x09 \<or> c = CHR 0x0A \<or> c = CHR 0x0D"
definition is_control :: "char \<Rightarrow> bool" where "is_control c \<longleftrightarrow> code c < 32"

text \<open>States of a number: after the sign, after a leading zero, in the integer part, after the point,
  in the fraction, after the exponent letter, after its sign, in the exponent.\<close>

datatype num_state = N_neg | N_zero | N_int | N_dot | N_frac | N_e | N_esign | N_exp

fun num_accept :: "num_state \<Rightarrow> bool" where
  "num_accept N_zero = True" | "num_accept N_int = True" | "num_accept N_frac = True"
| "num_accept N_exp = True" | "num_accept _ = False"

definition num_step :: "num_state \<Rightarrow> char \<Rightarrow> num_state option" where
  "num_step st c =
     (case st of
        N_neg \<Rightarrow> if c = CHR ''0'' then Some N_zero else if is_digit c then Some N_int else None
      | N_zero \<Rightarrow> if c = CHR ''.'' then Some N_dot else if c \<in> set ''eE'' then Some N_e else None
      | N_int \<Rightarrow> if is_digit c then Some N_int else if c = CHR ''.'' then Some N_dot
                 else if c \<in> set ''eE'' then Some N_e else None
      | N_dot \<Rightarrow> if is_digit c then Some N_frac else None
      | N_frac \<Rightarrow> if is_digit c then Some N_frac else if c \<in> set ''eE'' then Some N_e else None
      | N_e \<Rightarrow> if c \<in> set ''+-'' then Some N_esign else if is_digit c then Some N_exp else None
      | N_esign \<Rightarrow> if is_digit c then Some N_exp else None
      | N_exp \<Rightarrow> if is_digit c then Some N_exp else None)"

text \<open>States of the scanner: between tokens, in a string (read so far, last byte first), after a
  backslash in it, in the hex digits of a \<^verbatim>\<open>\u\<close> escape, in a number, in a word.\<close>

datatype lex_state = L_idle | L_str string | L_esc string | L_hex nat string
  | L_num num_state string | L_word string tok

definition lex_idle :: "char \<Rightarrow> (tok list \<times> lex_state) option" where
  "lex_idle c =
     (if is_space c then Some ([], L_idle)
      else if c = dquote then Some ([], L_str [])
      else if c = CHR ''['' then Some ([T_lbrack], L_idle)
      else if c = CHR '']'' then Some ([T_rbrack], L_idle)
      else if c = CHR ''{'' then Some ([T_lbrace], L_idle)
      else if c = CHR ''}'' then Some ([T_rbrace], L_idle)
      else if c = CHR '','' then Some ([T_comma], L_idle)
      else if c = CHR '':'' then Some ([T_colon], L_idle)
      else if c = CHR ''-'' then Some ([], L_num N_neg [c])
      else if c = CHR ''0'' then Some ([], L_num N_zero [c])
      else if is_digit c then Some ([], L_num N_int [c])
      else if c = CHR ''n'' then Some ([], L_word ''ull'' T_null)
      else if c = CHR ''t'' then Some ([], L_word ''rue'' T_true)
      else if c = CHR ''f'' then Some ([], L_word ''alse'' T_false)
      else None)"

definition lex_step :: "lex_state \<Rightarrow> char \<Rightarrow> (tok list \<times> lex_state) option" where
  "lex_step st c =
     (case st of
        L_idle \<Rightarrow> lex_idle c
      | L_str acc \<Rightarrow>
          if c = dquote then Some ([T_str (rev acc)], L_idle)
          else if c = backslash then Some ([], L_esc (c # acc))
          else if is_control c then None else Some ([], L_str (c # acc))
      | L_esc acc \<Rightarrow>
          if c = CHR ''u'' then Some ([], L_hex 4 (c # acc))
          else if c \<in> set [dquote, backslash, CHR ''/'', CHR ''b'', CHR ''f'', CHR ''n'', CHR ''r'', CHR ''t'']
          then Some ([], L_str (c # acc)) else None
      | L_hex n acc \<Rightarrow>
          if is_hex c then Some ([], if n \<le> 1 then L_str (c # acc) else L_hex (n - 1) (c # acc)) else None
      | L_num s acc \<Rightarrow>
          (case num_step s c of
             Some s' \<Rightarrow> Some ([], L_num s' (c # acc))
           | None \<Rightarrow> if num_accept s
                     then map_option (\<lambda>(ts, st'). (T_num (rev acc) # ts, st')) (lex_idle c) else None)
      | L_word rest t \<Rightarrow>
          (case rest of
             [] \<Rightarrow> None
           | r # rs \<Rightarrow> if c = r then Some (if rs = [] then ([t], L_idle) else ([], L_word rs t)) else None))"

fun json_lex :: "lex_state \<Rightarrow> string \<Rightarrow> tok list option" where
  "json_lex st [] =
     (case st of L_idle \<Rightarrow> Some [] | L_num s acc \<Rightarrow> if num_accept s then Some [T_num (rev acc)] else None
      | _ \<Rightarrow> None)"
| "json_lex st (c # cs) =
     (case lex_step st c of
        None \<Rightarrow> None
      | Some (ts, st') \<Rightarrow> map_option (\<lambda>us. ts @ us) (json_lex st' cs))"

section \<open>Strings\<close>

text \<open>The length of the valid UTF-8 sequence at the head of a string, 0 if there is none.\<close>

definition cont_byte :: "nat \<Rightarrow> nat \<Rightarrow> string \<Rightarrow> nat \<Rightarrow> bool" where
  "cont_byte lo hi s i \<longleftrightarrow> i < length s \<and> lo \<le> code (s ! i) \<and> code (s ! i) \<le> hi"

definition utf8_width :: "string \<Rightarrow> nat" where
  "utf8_width s =
     (case s of
        [] \<Rightarrow> 0
      | c # _ \<Rightarrow>
          let b = code c; cont = cont_byte 0x80 0xBF s in
          if b < 0x80 then 1
          else if 0xC2 \<le> b \<and> b \<le> 0xDF \<and> cont 1 then 2
          else if 0xE0 \<le> b \<and> b \<le> 0xEF \<and>
                  cont_byte (if b = 0xE0 then 0xA0 else 0x80) (if b = 0xED then 0x9F else 0xBF) s 1 \<and> cont 2 then 3
          else if 0xF0 \<le> b \<and> b \<le> 0xF4 \<and>
                  cont_byte (if b = 0xF0 then 0x90 else 0x80) (if b = 0xF4 then 0x8F else 0xBF) s 1 \<and>
                  cont 2 \<and> cont 3 then 4
          else 0)"

definition replacement :: string where
  "replacement = [CHR 0xEF, CHR 0xBF, CHR 0xBD]"

definition utf8_encode :: "nat \<Rightarrow> string" where
  "utf8_encode r =
     (if r < 0x80 then [char_of r]
      else if r < 0x800 then [char_of (0xC0 + r div 64), char_of (0x80 + r mod 64)]
      else if r < 0x10000 then
        [char_of (0xE0 + r div 4096), char_of (0x80 + r div 64 mod 64), char_of (0x80 + r mod 64)]
      else [char_of (0xF0 + r div 262144), char_of (0x80 + r div 4096 mod 64),
            char_of (0x80 + r div 64 mod 64), char_of (0x80 + r mod 64)])"

definition hex_digit :: "char \<Rightarrow> nat" where
  "hex_digit c =
     (if 48 \<le> code c \<and> code c \<le> 57 then code c - 48
      else if 97 \<le> code c \<and> code c \<le> 102 then code c - 87 else code c - 55)"

definition getu4 :: "string \<Rightarrow> nat option" where
  "getu4 s =
     (if length s \<ge> 6 \<and> s ! 0 = backslash \<and> s ! 1 = CHR ''u'' \<and> list_all is_hex (take 4 (drop 2 s))
      then Some (foldl (\<lambda>n c. 16 * n + hex_digit c) 0 (take 4 (drop 2 s))) else None)"

definition surrogate :: "nat \<Rightarrow> bool" where "surrogate r \<longleftrightarrow> 0xD800 \<le> r \<and> r < 0xE000"

definition esc_char :: "char \<Rightarrow> char" where
  "esc_char c =
     (if c = CHR ''b'' then CHR 0x08 else if c = CHR ''f'' then CHR 0x0C else if c = CHR ''n'' then CHR 0x0A
      else if c = CHR ''r'' then CHR 0x0D else if c = CHR ''t'' then CHR 0x09 else c)"

text \<open>What one unit of the literal becomes, and how much of the input it is (at least one byte).\<close>

definition unquote1 :: "string \<Rightarrow> string \<times> nat" where
  "unquote1 s =
     (case s of
        [] \<Rightarrow> ([], 1)
      | c # cs \<Rightarrow>
          if c = backslash then
            (case getu4 s of
               Some r \<Rightarrow>
                 if surrogate r then
                   (case getu4 (drop 6 s) of
                      Some r2 \<Rightarrow>
                        if r < 0xDC00 \<and> 0xDC00 \<le> r2 \<and> r2 < 0xE000
                        then (utf8_encode (0x10000 + (r - 0xD800) * 0x400 + (r2 - 0xDC00)), 12)
                        else (replacement, 6)
                    | None \<Rightarrow> (replacement, 6))
                 else (utf8_encode r, 6)
             | None \<Rightarrow> (case cs of [] \<Rightarrow> ([], 1) | d # _ \<Rightarrow> ([esc_char d], 2)))
          else if utf8_width s = 0 then (replacement, 1) else (take (utf8_width s) s, utf8_width s))"

lemma utf8_width_le [simp]: "utf8_width s = 0 \<or> 0 < utf8_width s" by auto

lemma unquote1_pos: "0 < snd (unquote1 s)"
  by (auto simp: unquote1_def split: list.splits option.splits)

function unquote :: "string \<Rightarrow> string" where
  "unquote s = (if s = [] then [] else fst (unquote1 s) @ unquote (drop (snd (unquote1 s)) s))"
  by pat_completeness auto
termination
proof (relation "measure length")
  fix s :: string assume "s \<noteq> []"
  then show "(drop (snd (unquote1 s)) s, s) \<in> measure length"
    using unquote1_pos [of s] by (cases s) auto
qed simp

declare unquote.simps [simp del]

section \<open>Values\<close>

text \<open>What is open around the current position: an array, an object, an object at the value of a key.\<close>

datatype frame = F_arr "json list" | F_obj "(string \<times> json) list" | F_key "(string \<times> json) list" string

text \<open>What may come next: a value; the first element or the end of an array; the first key or the end
  of an object; a key; a colon; or nothing but what follows a finished value.\<close>

datatype pstate = P_value | P_elem | P_first | P_name | P_colon | P_done json

definition p_scalar :: "tok \<Rightarrow> json option" where
  "p_scalar t =
     (case t of T_null \<Rightarrow> Some JNull | T_true \<Rightarrow> Some (JBool True) | T_false \<Rightarrow> Some (JBool False)
      | T_num n \<Rightarrow> Some (JNum n) | T_str s \<Rightarrow> Some (JStr (unquote s)) | _ \<Rightarrow> None)"

definition p_value :: "tok \<Rightarrow> frame list \<Rightarrow> (frame list \<times> pstate) option" where
  "p_value t fs =
     (case t of
        T_lbrack \<Rightarrow> Some (F_arr [] # fs, P_elem)
      | T_lbrace \<Rightarrow> Some (F_obj [] # fs, P_first)
      | _ \<Rightarrow> map_option (\<lambda>j. (fs, P_done j)) (p_scalar t))"

definition p_name :: "tok \<Rightarrow> frame list \<Rightarrow> (frame list \<times> pstate) option" where
  "p_name t fs =
     (case t of
        T_str k \<Rightarrow> (case fs of F_obj kvs # fs' \<Rightarrow> Some (F_key kvs (unquote k) # fs', P_colon) | _ \<Rightarrow> None)
      | _ \<Rightarrow> None)"

fun p_after :: "tok \<Rightarrow> json \<Rightarrow> frame list \<Rightarrow> (frame list \<times> pstate) option" where
  "p_after T_comma j (F_arr vs # fs) = Some (F_arr (j # vs) # fs, P_value)"
| "p_after T_rbrack j (F_arr vs # fs) = Some (fs, P_done (JArr (rev (j # vs))))"
| "p_after T_comma j (F_key kvs k # fs) = Some (F_obj ((k, j) # kvs) # fs, P_name)"
| "p_after T_rbrace j (F_key kvs k # fs) = Some (fs, P_done (JObj (rev ((k, j) # kvs))))"
| "p_after _ _ _ = None"

fun p_step :: "tok \<Rightarrow> frame list \<times> pstate \<Rightarrow> (frame list \<times> pstate) option" where
  "p_step t (fs, P_value) = p_value t fs"
| "p_step t (fs, P_elem) = (if t = T_rbrack then Some (tl fs, P_done (JArr [])) else p_value t fs)"
| "p_step t (fs, P_first) = (if t = T_rbrace then Some (tl fs, P_done (JObj [])) else p_name t fs)"
| "p_step t (fs, P_name) = p_name t fs"
| "p_step t (fs, P_colon) = (if t = T_colon then Some (fs, P_value) else None)"
| "p_step t (fs, P_done j) = p_after t j fs"

fun p_run :: "tok list \<Rightarrow> frame list \<times> pstate \<Rightarrow> json option" where
  "p_run [] st = (case st of ([], P_done j) \<Rightarrow> Some j | _ \<Rightarrow> None)"
| "p_run (t # ts) st = (case p_step t st of None \<Rightarrow> None | Some st' \<Rightarrow> p_run ts st')"

definition json_parse :: "bytes \<Rightarrow> json option" where
  "json_parse b = (case json_lex L_idle b of None \<Rightarrow> None | Some ts \<Rightarrow> p_run ts ([], P_value))"

section \<open>Unmarshal\<close>

text \<open>Decoding a value into a variable: its new content and whether a type error was met. The call
  reports the error at the end, so a decoder runs on after it.\<close>

type_synonym 'a decoder = "json \<Rightarrow> 'a \<Rightarrow> 'a \<times> bool"

definition dec_string :: "string decoder" where
  "dec_string j v = (case j of JStr s \<Rightarrow> (s, False) | JNull \<Rightarrow> (v, False) | _ \<Rightarrow> (v, True))"

text \<open>\<^verbatim>\<open>map[string]string\<close>: \<open>None\<close> is the nil map.\<close>

fun dec_entries :: "(string \<times> json) list \<Rightarrow> gomap \<Rightarrow> gomap \<times> bool" where
  "dec_entries [] m = (m, False)"
| "dec_entries ((k, j) # kvs) m =
     (let (v, e) = dec_string j []; (m', e') = dec_entries kvs (gm_set k v m) in (m', e \<or> e'))"

definition dec_map :: "gomap option decoder" where
  "dec_map j m =
     (case j of
        JObj kvs \<Rightarrow> (let (m', e) = dec_entries kvs (case m of None \<Rightarrow> [] | Some m' \<Rightarrow> m') in (Some m', e))
      | JNull \<Rightarrow> (None, False)
      | _ \<Rightarrow> (m, True))"

definition ascii_upper :: "char \<Rightarrow> char" where
  "ascii_upper c =
     (case map_of (zip ''abcdefghijklmnopqrstuvwxyz'' ''ABCDEFGHIJKLMNOPQRSTUVWXYZ'') c of Some u \<Rightarrow> u | None \<Rightarrow> c)"

text \<open>Field names are compared up to case; the long s and the Kelvin sign fold to s and k.\<close>

fun fold_norm :: "string \<Rightarrow> string" where
  "fold_norm [] = []"
| "fold_norm (c # cs) =
     (if c = CHR 0xC5 \<and> prefix [CHR 0xBF] cs then CHR ''s'' # fold_norm (drop 1 cs)
      else if c = CHR 0xE2 \<and> prefix [CHR 0x84, CHR 0xAA] cs then CHR ''k'' # fold_norm (drop 2 cs)
      else ascii_lower c # fold_norm cs)"

definition field_is :: "string \<Rightarrow> string \<Rightarrow> bool" where
  "field_is name key \<longleftrightarrow> fold_norm key = name"

text \<open>A struct: \<open>field\<close> gives the decoder for a key, or none when no field has that name.\<close>

fun dec_fields :: "(string \<Rightarrow> 'a decoder option) \<Rightarrow> (string \<times> json) list \<Rightarrow> 'a \<Rightarrow> 'a \<times> bool" where
  "dec_fields field [] v = (v, False)"
| "dec_fields field ((k, j) # kvs) v =
     (case field k of
        None \<Rightarrow> dec_fields field kvs v
      | Some d \<Rightarrow> let (v', e) = d j v; (v'', e') = dec_fields field kvs v' in (v'', e \<or> e'))"

definition dec_struct :: "(string \<Rightarrow> 'a decoder option) \<Rightarrow> 'a decoder" where
  "dec_struct field j v =
     (case j of JObj kvs \<Rightarrow> dec_fields field kvs v | JNull \<Rightarrow> (v, False) | _ \<Rightarrow> (v, True))"

text \<open>A pointer to a struct: \<^verbatim>\<open>null\<close> makes it nil, anything else allocates it first.\<close>

definition dec_ptr :: "'a \<Rightarrow> 'a decoder \<Rightarrow> 'a option decoder" where
  "dec_ptr zero d j p =
     (if j = JNull then (None, False)
      else let (v, e) = d j (case p of None \<Rightarrow> zero | Some v \<Rightarrow> v) in (Some v, e))"

definition json_error :: error where "json_error = Errorf ''json''"

definition Unmarshal :: "'a decoder \<Rightarrow> bytes \<Rightarrow> 'a \<Rightarrow> error + 'a" where
  "Unmarshal d b v =
     (case json_parse b of
        None \<Rightarrow> Inl json_error
      | Some j \<Rightarrow> let (v', e) = d j v in if e then Inl json_error else Inr v')"

lemma gm_ok_dec_entries: "gm_ok m \<Longrightarrow> gm_ok (fst (dec_entries kvs m))"
  by (induction kvs m rule: dec_entries.induct) (auto simp: Let_def split: prod.splits)

lemma Unmarshal_map_ok:
  assumes "Unmarshal dec_map b v = Inr (Some m)" and "\<And>m. v = Some m \<Longrightarrow> gm_ok m"
  shows "gm_ok m"
proof -
  obtain j where j: "json_parse b = Some j" "dec_map j v = (Some m, False)"
    using assms(1) by (auto simp: Unmarshal_def Let_def split: option.splits prod.splits if_splits)
  then show ?thesis
    using gm_ok_dec_entries [of "case v of None \<Rightarrow> [] | Some m' \<Rightarrow> m'"] assms(2)
    by (auto simp: dec_map_def Let_def split: json.splits prod.splits option.splits) (metis fst_conv distinct.simps(1) list.simps(8))+
qed

end
