(* ===== verification/Archive.thy ===== *)
theory Archive
  imports Unzip Go_Json
begin

text \<open>
  The unpacked upload, \<^verbatim>\<open>siphon/bundler/archive.go\<close>: a listing (file name to hash, from the client) and a
  directory with the files that differ. The lemmas: what a listing that was accepted satisfies; that
  the paths formed from its names stay in the archive's directory; that the comparison with the
  server's files is exactly the difference of the two maps, so that applying it gives the listing.
\<close>

section \<open>Operations\<close>

definition diffsDir :: string where "diffsDir = ''diffs''"
definition listingFile :: string where "listingFile = ''listing.json''"
definition MetadataName :: string where "MetadataName = ''Siphonfile''"

record Archive =
  ar_tempDir :: string
  ar_listing :: "gomap option"

record ArchiveComparison =
  cmp_added :: "string list"
  cmp_changed :: "string list"
  cmp_removed :: "string list"

text \<open>A nil map reads as the empty one.\<close>

definition listing_of :: "Archive \<Rightarrow> gomap" where
  "listing_of a = (case ar_listing a of None \<Rightarrow> [] | Some l \<Rightarrow> l)"

text \<open>The security check on one entry of the listing.\<close>

fun check_entry :: "string \<times> string \<Rightarrow> error option" where
  "check_entry (name, sha) =
     (if sublist ''../'' name then Some (Errorf (''Bad listing name: '' @ name))
      else if sha = [] then Some (Errorf (''Bad listing SHA: '' @ sha)) else None)"

text \<open>The loop stops at the first entry that fails the check.\<close>

fun check_entries :: "gomap \<Rightarrow> error option" where
  "check_entries [] = None"
| "check_entries (e # es) = (case check_entry e of Some err \<Rightarrow> Some err | None \<Rightarrow> check_entries es)"

text \<open>A listing file that cannot be opened or read is parsed as if it were empty.\<close>

definition parseListingFile :: "('s, 'm) env \<Rightarrow> Archive \<Rightarrow> fsys \<Rightarrow> error + Archive" where
  "parseListingFile env a fs =
     (if ar_listing a \<noteq> None then Inr a
      else
        let p = path_Join [ar_tempDir a, listingFile];
            b = (case os_ReadFile fs p of Inl _ \<Rightarrow> [] | Inr b \<Rightarrow> b) in
        (case Unmarshal dec_map b (Some []) of
           Inl e \<Rightarrow> Inl e
         | Inr l \<Rightarrow>
             (case check_entries (map_range env (case l of None \<Rightarrow> [] | Some m \<Rightarrow> m)) of
                Some e \<Rightarrow> Inl e
              | None \<Rightarrow> Inr (a\<lparr>ar_listing := l\<rparr>))))"

definition diffPath :: "Archive \<Rightarrow> string \<Rightarrow> string" where
  "diffPath a name = path_Join [ar_tempDir a, diffsDir, name]"

text \<open>Only a missing file counts as absent; any other error of \<^verbatim>\<open>os.Stat\<close> counts as present.\<close>

definition diffExists :: "Archive \<Rightarrow> string \<Rightarrow> fsys \<Rightarrow> bool" where
  "diffExists a name fs \<longleftrightarrow> os_Stat fs (diffPath a name) \<noteq> Some ENOENT"

definition GetContent :: "Archive \<Rightarrow> string \<Rightarrow> fsys \<Rightarrow> error + bytes" where
  "GetContent a name fs = (case os_ReadFile fs (diffPath a name) of Inl e \<Rightarrow> Inl (fs_error e) | Inr b \<Rightarrow> Inr b)"

definition GetMetadata :: "Archive \<Rightarrow> fsys \<Rightarrow> error + bytes option" where
  "GetMetadata a fs =
     (if \<not> diffExists a MetadataName fs then Inr None
      else case GetContent a MetadataName fs of Inl e \<Rightarrow> Inl e | Inr b \<Rightarrow> Inr (Some b))"

text \<open>The two lists of the first loop of \<^verbatim>\<open>Compare\<close>, in its order.\<close>

fun new_or_changed :: "gomap \<Rightarrow> gomap \<Rightarrow> string list \<times> string list" where
  "new_or_changed files [] = ([], [])"
| "new_or_changed files ((name, sha) # es) =
     (let (added, changed) = new_or_changed files es in
      case map_of files name of
        None \<Rightarrow> (name # added, changed)
      | Some serverSha \<Rightarrow> if sha \<noteq> serverSha then (added, name # changed) else (added, changed))"

definition Compare ::
  "('s, 'm) env \<Rightarrow> Archive \<Rightarrow> gomap \<Rightarrow> fsys \<Rightarrow> error + Archive \<times> ArchiveComparison" where
  "Compare env a files fs =
     (case parseListingFile env a fs of
        Inl e \<Rightarrow> Inl e
      | Inr a \<Rightarrow>
          let (added, changed) = new_or_changed files (map_range env (listing_of a)) in
          if list_all (\<lambda>name. diffExists a name fs) (added @ changed) then
            Inr (a, \<lparr>cmp_added = added, cmp_changed = changed,
                     cmp_removed = filter (\<lambda>name. map_of (listing_of a) name = None)
                                     (map fst (map_range env files))\<rparr>)
          else Inl (Errorf ''Listing does not match diffs/ in archive.''))"

definition GetHash :: "Archive \<Rightarrow> string \<Rightarrow> string" where
  "GetHash a name = (case map_of (listing_of a) name of None \<Rightarrow> [] | Some h \<Rightarrow> h)"

definition decompress_error :: error where
  "decompress_error = Errorf ''Failed to decompress the payload.''"

text \<open>The error of writing the zip file is overwritten by that of unpacking it. The archive is returned
  in both cases, because its directory is set before the error.\<close>

definition Decompress ::
  "('s, 'm) env \<Rightarrow> Archive \<Rightarrow> bytes \<Rightarrow> ('s, 'm) world \<Rightarrow> (Archive \<times> error option) res \<times> ('s, 'm) world" where
  "Decompress env a b w =
     on (TempDir env ''bundler-archive'' w) (\<lambda>e w. (Ok (a, Some decompress_error), w)) (\<lambda>d w.
       let a = a\<lparr>ar_tempDir := d\<rparr>;
           src = path_Join [ar_tempDir a, ''archive.zip''];
           w = w\<lparr>w_fs := (case os_WriteFile (w_fs w) src b of Inl _ \<Rightarrow> w_fs w | Inr fs \<Rightarrow> fs)\<rparr> in
       on (Unzip env src (ar_tempDir a) w) (\<lambda>e w. (Ok (a, Some decompress_error), w))
         (\<lambda>_ w. (Ok (a, None), w)))"

definition Archive_Close :: "Archive \<Rightarrow> ('s, 'm) world \<Rightarrow> ('s, 'm) world" where
  "Archive_Close a w = fs_remove (ar_tempDir a) w"

definition NewArchive :: Archive where
  "NewArchive = \<lparr>ar_tempDir = [], ar_listing = None\<rparr>"

section \<open>Listings\<close>

text \<open>What the check lets through.\<close>

definition listing_ok :: "gomap \<Rightarrow> bool" where
  "listing_ok l \<longleftrightarrow> gm_ok l \<and> (\<forall>(n, h) \<in> set l. \<not> sublist ''../'' n \<and> h \<noteq> [])"

lemma check_entries_None: "check_entries es = None \<longleftrightarrow> (\<forall>(n, h) \<in> set es. \<not> sublist ''../'' n \<and> h \<noteq> [])"
  by (induction es rule: check_entries.induct) (auto split: option.splits if_splits)

lemma range_set: "range_law env \<Longrightarrow> set (map_range env m) = set m"
  unfolding range_law_def by (metis set_mset_mset)

lemma range_gm: "range_law env \<Longrightarrow> gm_ok m \<Longrightarrow> gm_ok (map_range env m) \<and> map_of (map_range env m) = map_of m"
  unfolding range_law_def by (metis gm_ok_perm map_of_perm)

lemma parseListingFile_ok:
  assumes "range_law env" and "parseListingFile env a fs = Inr a'" and "ar_listing a \<noteq> None \<longrightarrow> listing_ok (listing_of a)"
  shows "listing_ok (listing_of a')" and "ar_tempDir a' = ar_tempDir a"
proof -
  show "ar_tempDir a' = ar_tempDir a"
    using assms(2) by (auto simp: parseListingFile_def Let_def split: if_splits sum.splits option.splits)
  show "listing_ok (listing_of a')"
  proof (cases "ar_listing a = None")
    case True
    then obtain b l where u: "Unmarshal dec_map b (Some []) = Inr l"
      and c: "check_entries (map_range env (case l of None \<Rightarrow> [] | Some m \<Rightarrow> m)) = None"
      and a': "a' = a\<lparr>ar_listing := l\<rparr>"
      using assms(2) by (auto simp: parseListingFile_def Let_def split: sum.splits option.splits)
    have "gm_ok m" if "l = Some m" for m using Unmarshal_map_ok [of b "Some []" m] u that by simp
    then show ?thesis
      using c a' by (auto simp: listing_ok_def listing_of_def check_entries_None range_set [OF assms(1)]
          split: option.splits)
  qed (use assms(2,3) in \<open>auto simp: parseListingFile_def\<close>)
qed

text \<open>The file of a listed name is inside the archive's own directory, even for a name that ends in
  \<^verbatim>\<open>..\<close>, which the check does not reject.\<close>

lemma updir_last:
  assumes "\<not> sublist ''../'' n"
  shows "''..'' \<notin> set (butlast (comps n))"
proof -
  have nb: "''..'' \<notin> set (butlast (split_on slash n))" by (rule no_updir_butlast [OF assms])
  obtain xs x where sp: "split_on slash n = xs @ [x]" by (metis append_butlast_last_id split_on_ne)
  have "''..'' \<notin> set xs" using nb sp by simp
  then show ?thesis
    by (auto simp: comps_def sp butlast_append dest: in_set_butlastD)
qed

lemma join_updir:
  assumes "plain_dir d" and "\<not> sublist ''../'' n" and "''..'' \<notin> set e"
  shows "elim_dotdot True [] (comps d @ e @ comps n) =
    (if comps n \<noteq> [] \<and> last (comps n) = ''..'' then butlast (comps d @ e @ butlast (comps n)) else comps d @ e @ comps n)"
proof (cases "comps n \<noteq> [] \<and> last (comps n) = ''..''")
  case True
  let ?b = "comps d @ e @ butlast (comps n)"
  have b: "comps d @ e @ comps n = ?b @ [''..'']" using True by (metis append_assoc append_butlast_last_id)
  have nd: "''..'' \<notin> set ?b" using assms updir_last [OF assms(2)] by (auto simp: plain_dir_def)
  have "elim_dotdot True (rev x) [''..''] = butlast x" if "''..'' \<notin> set x" for x
    using that by (cases x rule: rev_cases) auto
  from this [OF nd] have "elim_dotdot True [] (?b @ [''..'']) = butlast ?b"
    by (subst elim_dotdot_append, subst elim_dotdot_id [OF nd]) simp
  then show ?thesis using True by (simp only: b simp_thms if_True)
next
  case False
  have "''..'' \<notin> set (comps n)"
  proof
    assume "''..'' \<in> set (comps n)"
    moreover have "comps n = butlast (comps n) @ [last (comps n)]" using calculation by (cases "comps n") auto
    ultimately show False using updir_last [OF assms(2)] False by (metis Un_iff list.set(1) list.set(2) set_append empty_iff insert_iff)
  qed
  then have "''..'' \<notin> set (comps d @ e @ comps n)" using assms by (auto simp: plain_dir_def)
  then show ?thesis using False elim_dotdot_id [of "comps d @ e @ comps n" True "[]"] by auto
qed

lemma diffPath_inside:
  assumes "plain_dir (ar_tempDir a)" and "\<not> sublist ''../'' n"
  shows "prefix (comps (ar_tempDir a)) (comps (diffPath a n))"
proof -
  have cd: "comps diffsDir = [''diffs'']" by (simp add: diffsDir_def comps_def)
  have r: "rooted (ar_tempDir a)" using assms(1) by (simp add: plain_dir_def)
  show ?thesis
    using join_updir [OF assms, of "[''diffs'']"]
    by (simp add: diffPath_def comps_path_Join3 [OF r] cd butlast_append)
qed

section \<open>Comparison\<close>

lemma new_or_changed_sets:
  assumes "new_or_changed files es = (added, changed)"
  shows "set added = {n. \<exists>h. (n, h) \<in> set es \<and> map_of files n = None}"
    and "set changed = {n. \<exists>h h'. (n, h) \<in> set es \<and> map_of files n = Some h' \<and> h \<noteq> h'}"
    and "gm_ok es \<Longrightarrow> distinct added \<and> distinct changed"
proof -
  have "set added = {n. \<exists>h. (n, h) \<in> set es \<and> map_of files n = None} \<and>
    set changed = {n. \<exists>h h'. (n, h) \<in> set es \<and> map_of files n = Some h' \<and> h \<noteq> h'} \<and>
    (gm_ok es \<longrightarrow> distinct added \<and> distinct changed)"
    using assms
  proof (induction es arbitrary: added changed)
    case (Cons e es)
    obtain n h where e: "e = (n, h)" by (cases e)
    obtain ad ch where r: "new_or_changed files es = (ad, ch)" by (cases "new_or_changed files es")
    note IH = Cons.IH [OF r]
    show ?case
    proof (cases "map_of files n")
      case None
      then have "added = n # ad" "changed = ch" using Cons.prems e r by auto
      then show ?thesis using IH None e by (auto simp: image_iff)
    next
      case (Some h')
      then have "added = ad" "changed = (if h \<noteq> h' then n # ch else ch)" using Cons.prems e r by (auto split: if_splits)
      then show ?thesis using IH Some e by (auto simp: image_iff)
    qed
  qed simp
  then show "set added = {n. \<exists>h. (n, h) \<in> set es \<and> map_of files n = None}"
    "set changed = {n. \<exists>h h'. (n, h) \<in> set es \<and> map_of files n = Some h' \<and> h \<noteq> h'}"
    "gm_ok es \<Longrightarrow> distinct added \<and> distinct changed" by auto
qed

text \<open>The specification of a comparison: the difference of two maps.\<close>

definition is_diff :: "(string \<rightharpoonup> string) \<Rightarrow> (string \<rightharpoonup> string) \<Rightarrow> ArchiveComparison \<Rightarrow> bool" where
  "is_diff new old c \<longleftrightarrow>
     set (cmp_added c) = dom new - dom old \<and>
     set (cmp_changed c) = {n \<in> dom new \<inter> dom old. new n \<noteq> old n} \<and>
     set (cmp_removed c) = dom old - dom new \<and>
     distinct (cmp_added c) \<and> distinct (cmp_changed c) \<and> distinct (cmp_removed c)"

lemma Compare_diff:
  assumes "range_law env" and "gm_ok files" and "ar_listing a \<noteq> None \<longrightarrow> listing_ok (listing_of a)"
    and "Compare env a files fs = Inr (a', c)"
  shows "parseListingFile env a fs = Inr a'" and "listing_ok (listing_of a')"
    and "is_diff (map_of (listing_of a')) (map_of files) c"
    and "\<forall>n \<in> set (cmp_added c) \<union> set (cmp_changed c). diffExists a' n fs"
proof -
  obtain ad ch where p: "parseListingFile env a fs = Inr a'"
    and nc: "new_or_changed files (map_range env (listing_of a')) = (ad, ch)"
    and ex: "list_all (\<lambda>name. diffExists a' name fs) (ad @ ch)"
    and c: "c = \<lparr>cmp_added = ad, cmp_changed = ch,
      cmp_removed = filter (\<lambda>name. map_of (listing_of a') name = None) (map fst (map_range env files))\<rparr>"
    using assms(4) by (auto simp: Compare_def Let_def split: sum.splits prod.splits if_splits)
  show "parseListingFile env a fs = Inr a'" by fact
  show lo: "listing_ok (listing_of a')" by (rule parseListingFile_ok(1) [OF assms(1) p assms(3)])
  show "\<forall>n \<in> set (cmp_added c) \<union> set (cmp_changed c). diffExists a' n fs"
    using ex c by (auto simp: list_all_iff)
  have gl: "gm_ok (listing_of a')" using lo by (simp add: listing_ok_def)
  note rl = range_gm [OF assms(1) gl] range_set [OF assms(1), of "listing_of a'"] and rf = range_gm [OF assms(1,2)]
    and rs = range_set [OF assms(1), of files]
  have "map_of (listing_of a') n = Some h \<longleftrightarrow> (n, h) \<in> set (listing_of a')" for n h using gl by simp
  moreover have "fst ` set files = dom (map_of files)" by (simp add: dom_map_of_conv_image_fst)
  ultimately show "is_diff (map_of (listing_of a')) (map_of files) c"
    using new_or_changed_sets [OF nc] rl rf rs gl unfolding is_diff_def c
    by (auto simp: dom_def image_iff)
qed

text \<open>Additions, changes and removals applied to the old listing give the new one.\<close>

definition apply_diff ::
  "(string \<rightharpoonup> string) \<Rightarrow> ArchiveComparison \<Rightarrow> (string \<rightharpoonup> string) \<Rightarrow> (string \<rightharpoonup> string)" where
  "apply_diff new c old =
     (\<lambda>n. if n \<in> set (cmp_added c) \<union> set (cmp_changed c) then new n
          else if n \<in> set (cmp_removed c) then None else old n)"

lemma apply_diff_is_diff: "is_diff new old c \<Longrightarrow> apply_diff new c old = new"
  by (auto simp: is_diff_def apply_diff_def fun_eq_iff dom_def)

lemma is_diff_empty: "is_diff new old c \<Longrightarrow> cmp_added c = [] \<and> cmp_changed c = [] \<and> cmp_removed c = [] \<longleftrightarrow> new = old"
proof -
  assume d: "is_diff new old c"
  have "new = old" if "cmp_added c = []" "cmp_changed c = []" "cmp_removed c = []"
    using apply_diff_is_diff [OF d] that by (simp add: apply_diff_def)
  then show ?thesis using d by (auto simp: is_diff_def)
qed

end
