(* ===== verification/Metadata.thy ===== *)
theory Metadata
  imports Archive
begin

text \<open>
  The Siphonfile, \<^verbatim>\<open>siphon/bundler/metadata.go\<close>: JSON decoded into a struct and checked field by field. The
  version is accepted when \<^verbatim>\<open>strconv.ParseFloat\<close> accepts it, which is modelled exactly: the syntax, the
  special values and the range. The lemmas: what an accepted Siphonfile satisfies, which input is
  rejected with which message, and that an accepted version is made of characters that mean nothing
  to a shell (it is spliced into a command line later).
\<close>

section \<open>strconv.ParseFloat\<close>

definition special_float :: "string \<Rightarrow> bool" where
  "special_float s \<longleftrightarrow>
     (let l = fold_norm s in
      list_all (\<lambda>c. code c < 128) s \<and>
      (l = ''nan'' \<or> l \<in> {''inf'', ''infinity'', ''+inf'', ''+infinity'', ''-inf'', ''-infinity''}))"

definition strip_sign :: "string \<Rightarrow> string" where
  "strip_sign s = (case s of [] \<Rightarrow> [] | c # cs \<Rightarrow> if c \<in> set ''+-'' then cs else s)"

definition digits_val :: "string \<Rightarrow> nat" where
  "digits_val ds = foldl (\<lambda>n c. 10 * n + hex_digit c) 0 ds"

text \<open>The exponent stops growing once it has five digits.\<close>

definition exp_val :: "string \<Rightarrow> nat" where
  "exp_val ds = foldl (\<lambda>n c. if n < 10000 then 10 * n + hex_digit c else n) 0 ds"

text \<open>Mantissa digits before and after the point and the exponent, if the whole string is a number.\<close>

definition read_float :: "string \<Rightarrow> (string \<times> string \<times> int) option" where
  "read_float s =
     (let t = strip_sign s;
          ints = takeWhile is_digit t; t1 = dropWhile is_digit t;
          dot = (case t1 of [] \<Rightarrow> False | c # _ \<Rightarrow> c = CHR ''.'');
          frac = (if dot then takeWhile is_digit (tl t1) else []);
          t2 = (if dot then dropWhile is_digit (tl t1) else t1) in
      if ints @ frac = [] then None
      else case t2 of
        [] \<Rightarrow> Some (ints, frac, 0)
      | c # t3 \<Rightarrow>
          if c \<in> set ''eE'' then
            let neg = (case t3 of [] \<Rightarrow> False | d # _ \<Rightarrow> d = CHR ''-''); ds = strip_sign t3 in
            if ds \<noteq> [] \<and> list_all is_digit ds
            then Some (ints, frac, if neg then - int (exp_val ds) else int (exp_val ds)) else None
          else None)"

text \<open>The smallest magnitude that rounds to infinity in 64 bits.\<close>

definition float_limit :: int where "float_limit = 2 ^ 1024 - 2 ^ 970"

lemma float_limit_code [code]:
  "float_limit = 179769313486231580793728971405303415079934132710037826936173778980444968292764750946649017977587207096330286416692887910946555547851940402630657488671505820681908902000708383676273854845817711531764475730270069855571366959622842914819860834936475292719074168444365510704342711559699508093042880177904174497792"
  by (simp add: float_limit_def)

definition ParseFloat_ok :: "string \<Rightarrow> bool" where
  "ParseFloat_ok s \<longleftrightarrow>
     special_float s \<or>
     (case read_float s of
        None \<Rightarrow> False
      | Some (ints, frac, e) \<Rightarrow>
          let m = digits_val (ints @ frac); k = e - int (length frac) in
          if 0 \<le> k then int m * 10 ^ nat k < float_limit else int m < float_limit * 10 ^ nat (- k))"

section \<open>Siphonfile\<close>

record PlatformMetadata =
  pm_Language :: string
  pm_StoreName :: string

record Metadata =
  md_BaseVersion :: string
  md_DisplayName :: string
  md_FacebookAppID :: string
  md_IOS :: PlatformMetadata
  md_Android :: PlatformMetadata

definition PlatformMetadata_zero :: PlatformMetadata where
  "PlatformMetadata_zero = \<lparr>pm_Language = [], pm_StoreName = []\<rparr>"

definition Metadata_zero :: Metadata where
  "Metadata_zero = \<lparr>md_BaseVersion = [], md_DisplayName = [], md_FacebookAppID = [],
     md_IOS = PlatformMetadata_zero, md_Android = PlatformMetadata_zero\<rparr>"

definition dec_PlatformMetadata :: "PlatformMetadata decoder" where
  "dec_PlatformMetadata = dec_struct (\<lambda>k.
     if field_is ''language'' k then
       Some (\<lambda>j p. let (v, e) = dec_string j (pm_Language p) in (p\<lparr>pm_Language := v\<rparr>, e))
     else if field_is ''store_name'' k then
       Some (\<lambda>j p. let (v, e) = dec_string j (pm_StoreName p) in (p\<lparr>pm_StoreName := v\<rparr>, e))
     else None)"

definition dec_Metadata :: "Metadata decoder" where
  "dec_Metadata = dec_struct (\<lambda>k.
     if field_is ''base_version'' k then
       Some (\<lambda>j m. let (v, e) = dec_string j (md_BaseVersion m) in (m\<lparr>md_BaseVersion := v\<rparr>, e))
     else if field_is ''display_name'' k then
       Some (\<lambda>j m. let (v, e) = dec_string j (md_DisplayName m) in (m\<lparr>md_DisplayName := v\<rparr>, e))
     else if field_is ''facebook_app_id'' k then
       Some (\<lambda>j m. let (v, e) = dec_string j (md_FacebookAppID m) in (m\<lparr>md_FacebookAppID := v\<rparr>, e))
     else if field_is ''ios'' k then
       Some (\<lambda>j m. let (v, e) = dec_PlatformMetadata j (md_IOS m) in (m\<lparr>md_IOS := v\<rparr>, e))
     else if field_is ''android'' k then
       Some (\<lambda>j m. let (v, e) = dec_PlatformMetadata j (md_Android m) in (m\<lparr>md_Android := v\<rparr>, e))
     else None)"

definition check_Metadata :: "Metadata \<Rightarrow> error option" where
  \<open>check_Metadata m =
     (if md_BaseVersion m = [] then
        Some (Errorf ''The "base_version" key in your Siphonfile is empty, it should be a string like "0.1".'')
      else if \<not> ParseFloat_ok (md_BaseVersion m) then
        Some (Errorf (''The "base_version" key in your Siphonfile is not in '' @
          ''the correct format, it should be a string like "0.1".''))
      else if length (md_DisplayName m) > 32 then
        Some (Errorf ''The "display_name" key in your Siphonfile is too long. The maximum is 32 characters.'')
      else if length (md_FacebookAppID m) > 32 then
        Some (Errorf (''The "facebook_app_id" key in your Siphonfile is too long. You can find the app ID '' @
          ''in your app'' @ [CHR 0x27] @ ''s dashboard at https://developers.facebook.com''))
      else if length (pm_StoreName (md_IOS m)) > 255 then
        Some (Errorf ''The iOS "store_name" key in your Siphonfile is too long. The maximum is 255 characters.'')
      else if length (pm_Language (md_IOS m)) > 7 then
        Some (Errorf ''The iOS "language" key in your Siphonfile is too long. The maximum is 7 characters.'')
      else if length (pm_StoreName (md_Android m)) > 30 then
        Some (Errorf ''The Android "store_name" key in your Siphonfile is too long. The maximum is 30 characters.'')
      else if length (pm_Language (md_Android m)) > 7 then
        Some (Errorf ''The Android "language" key in your Siphonfile is too long. The maximum is 7 characters.'')
      else None)\<close>

definition ParseMetadata :: "bytes \<Rightarrow> error + Metadata" where
  "ParseMetadata b =
     (case Unmarshal dec_Metadata b Metadata_zero of
        Inl e \<Rightarrow> Inl (Errorf ''The format of your Siphonfile is invalid. Please check the documentation.'')
      | Inr m \<Rightarrow> (case check_Metadata m of Some e \<Rightarrow> Inl e | None \<Rightarrow> Inr m))"

section \<open>Accepted Siphonfiles\<close>

definition metadata_ok :: "Metadata \<Rightarrow> bool" where
  "metadata_ok m \<longleftrightarrow>
     md_BaseVersion m \<noteq> [] \<and> ParseFloat_ok (md_BaseVersion m) \<and> length (md_DisplayName m) \<le> 32 \<and>
     length (md_FacebookAppID m) \<le> 32 \<and> length (pm_StoreName (md_IOS m)) \<le> 255 \<and>
     length (pm_Language (md_IOS m)) \<le> 7 \<and> length (pm_StoreName (md_Android m)) \<le> 30 \<and>
     length (pm_Language (md_Android m)) \<le> 7"

lemma check_Metadata_None: "check_Metadata m = None \<longleftrightarrow> metadata_ok m"
  by (auto simp: check_Metadata_def metadata_ok_def)

lemma ParseMetadata_accepts:
  "ParseMetadata b = Inr m \<longleftrightarrow> Unmarshal dec_Metadata b Metadata_zero = Inr m \<and> metadata_ok m"
  by (auto simp: ParseMetadata_def check_Metadata_None [symmetric] split: sum.splits option.splits)

text \<open>The characters of an accepted version.\<close>

definition float_char :: "char \<Rightarrow> bool" where
  "float_char c \<longleftrightarrow> c \<in> set ''0123456789+-.eEinfatyINFATY''"

lemma digits_float: "list_all is_digit ds \<Longrightarrow> list_all float_char ds"
proof -
  have "set ''0123456789'' \<subseteq> set ''0123456789+-.eEinfatyINFATY''" by simp
  then show "list_all is_digit ds \<Longrightarrow> list_all float_char ds"
    unfolding list_all_iff is_digit_def float_char_def by blast
qed

lemma strip_sign_float: "list_all float_char (strip_sign s) \<Longrightarrow> list_all float_char s"
  by (auto simp: strip_sign_def float_char_def split: list.splits if_splits)

lemma takeWhile_float: "list_all float_char (takeWhile is_digit t)"
  by (rule digits_float) (auto simp: list_all_iff dest: set_takeWhileD)

lemma digit_split_float: "list_all float_char (dropWhile is_digit t) \<Longrightarrow> list_all float_char t"
  by (metis list_all_append takeWhile_dropWhile_id takeWhile_float)

lemma read_float_chars: "read_float s = Some x \<Longrightarrow> list_all float_char s"
proof -
  assume r: "read_float s = Some x"
  define t where "t = strip_sign s"
  define t1 where "t1 = dropWhile is_digit t"
  define dot where "dot = (case t1 of [] \<Rightarrow> False | c # _ \<Rightarrow> c = CHR ''.'')"
  define t2 where "t2 = (if dot then dropWhile is_digit (tl t1) else t1)"
  have ex: "t2 = [] \<or> (\<exists>c t3. t2 = c # t3 \<and> c \<in> set ''eE'' \<and> list_all is_digit (strip_sign t3))"
    using r unfolding read_float_def Let_def t_def [symmetric] t1_def [symmetric] dot_def [symmetric] t2_def [symmetric]
    by (auto split: if_splits list.splits)
  then have "list_all float_char t2"
  proof
    assume "\<exists>c t3. t2 = c # t3 \<and> c \<in> set ''eE'' \<and> list_all is_digit (strip_sign t3)"
    then obtain c t3 where c: "t2 = c # t3" "c \<in> set ''eE''" "list_all is_digit (strip_sign t3)" by blast
    have "float_char c" using c(2) by (auto simp: float_char_def)
    then show ?thesis using strip_sign_float [OF digits_float [OF c(3)]] c(1) by simp
  qed simp
  then have "list_all float_char t1"
  proof (cases dot)
    case True
    then obtain t' where "t1 = CHR ''.'' # t'" by (auto simp: dot_def split: list.splits)
    then show ?thesis
      using \<open>list_all float_char t2\<close> True digit_split_float [of t'] by (simp add: t2_def float_char_def)
  qed (simp add: t2_def)
  then have "list_all float_char t" unfolding t1_def by (rule digit_split_float)
  then show ?thesis unfolding t_def by (rule strip_sign_float)
qed

lemma fold_norm_char: "c \<in> set s \<Longrightarrow> list_all (\<lambda>c. code c < 128) s \<Longrightarrow> ascii_lower c \<in> set (fold_norm s)"
proof (induction s)
  case (Cons d s)
  have "d \<noteq> CHR 0xC5" "d \<noteq> CHR 0xE2" using Cons.prems(2) by (auto simp: code_def)
  then show ?case using Cons by auto
qed simp

lemma ParseFloat_chars: "ParseFloat_ok s \<Longrightarrow> list_all float_char s"
proof -
  assume "ParseFloat_ok s"
  then consider (sp) "special_float s" | (num) x where "read_float s = Some x"
    by (auto simp: ParseFloat_ok_def split: option.splits)
  then show ?thesis
  proof cases
    case sp
    then have a: "list_all (\<lambda>c. code c < 128) s"
      and l: "fold_norm s \<in> {''nan'', ''inf'', ''infinity'', ''+inf'', ''+infinity'', ''-inf'', ''-infinity''}"
      by (auto simp: special_float_def Let_def)
    have "float_char c" if "c \<in> set s" for c
    proof -
      have "ascii_lower c \<in> set (fold_norm s)" by (rule fold_norm_char [OF that a])
      then have "ascii_lower c \<in> set ''naifty+-''" using l by auto
      then show ?thesis unfolding ascii_lower_def float_char_def by (auto split: if_splits)
    qed
    then show ?thesis by (simp add: list_all_iff)
  next
    case num
    then show ?thesis by (rule read_float_chars)
  qed
qed

end
