(* ===== verification/S3_Client.thy ===== *)
theory S3_Client
  imports World
begin

text \<open>
  The object store, from the bundler's wrapper down to the HTTP exchange: \<^verbatim>\<open>siphon/bundler/s3.go\<close>
  (bucket choice, three attempts per operation) over the calls it makes into
  \<^verbatim>\<open>gopkg.in/amz.v3/s3/s3.go\<close>. The exchange itself is the parameter \<open>http_do\<close>; \<open>s3_attempts\<close> is the number
  of attempts the clock allows the retry strategy of the client library.

  The locale \<open>s3_service\<close> says what the service behind the exchange does to its objects. A request
  whose answer is an error or not a success may have taken effect. Inside the locale: what the
  wrapper's three operations do to the objects of the bucket, on success and on failure.
\<close>

section \<open>The client library\<close>

record region =
  rg_name :: string
  rg_s3_endpoint :: string
  rg_s3_bucket_endpoint :: string
  rg_s3_location_constraint :: bool
  rg_s3_lowercase_bucket :: bool

definition USEast :: region where
  "USEast = \<lparr>rg_name = ''us-east-1'', rg_s3_endpoint = ''https://s3.amazonaws.com'',
     rg_s3_bucket_endpoint = [], rg_s3_location_constraint = False, rg_s3_lowercase_bucket = False\<rparr>"

definition ResolveS3BucketEndpoint :: "region \<Rightarrow> string \<Rightarrow> string" where
  "ResolveS3BucketEndpoint r bucketName =
     (if rg_s3_bucket_endpoint r \<noteq> []
      then to_lower (replace_all ''${bucket}'' bucketName (rg_s3_bucket_endpoint r))
      else to_lower (rg_s3_endpoint r @ ''/'' @ bucketName @ ''/''))"

record bucket =
  bk_region :: region
  bk_name :: string

definition S3_Bucket :: "region \<Rightarrow> string \<Rightarrow> error + bucket" where
  "S3_Bucket reg name =
     (if \<exists>c \<in> set name. c \<in> {CHR ''/'', CHR '':'', CHR ''@''} then Inl (Errorf (''bad S3 bucket: '' @ [CHR 0x22] @ name @ [CHR 0x22]))
      else Inr \<lparr>bk_region = reg,
        bk_name = (if rg_s3_bucket_endpoint reg \<noteq> [] \<or> rg_s3_lowercase_bucket reg then to_lower name else name)\<rparr>)"

definition object_url :: "bucket \<Rightarrow> string \<Rightarrow> string" where
  "object_url b path = ResolveS3BucketEndpoint (bk_region b) (bk_name b) @ path"

definition success :: "http_resp \<Rightarrow> bool" where
  "success r \<longleftrightarrow> hp_status r = 200 \<or> hp_status r = 204"

definition put_req :: "string \<Rightarrow> bytes \<Rightarrow> http_req" where
  "put_req u b = \<lparr>hq_method = ''PUT'', hq_url = u, hq_body = b\<rparr>"

definition get_req :: "string \<Rightarrow> http_req" where
  "get_req u = \<lparr>hq_method = ''GET'', hq_url = u, hq_body = []\<rparr>"

definition del_req :: "string \<Rightarrow> http_req" where
  "del_req u = \<lparr>hq_method = ''DELETE'', hq_url = u, hq_body = []\<rparr>"

definition Bucket_Put ::
  "('s, 'm) env \<Rightarrow> bucket \<Rightarrow> string \<Rightarrow> bytes \<Rightarrow> 's \<Rightarrow> error option \<times> 's" where
  "Bucket_Put env b path data s =
     (let req = put_req (object_url b path) data in
      case s3_sign env req of
        Some e \<Rightarrow> (Some e, s)
      | None \<Rightarrow> (case http_do env req s of
            (Inl e, s) \<Rightarrow> (Some e, s)
          | (Inr r, s) \<Rightarrow> if success r then (None, s) else (Some (s3_errdoc env r), s)))"

text \<open>The status of the answer is not looked at.\<close>

definition Bucket_Del :: "('s, 'm) env \<Rightarrow> bucket \<Rightarrow> string \<Rightarrow> 's \<Rightarrow> error option \<times> 's" where
  "Bucket_Del env b path s =
     (let req = del_req (object_url b path) in
      case s3_sign env req of
        Some e \<Rightarrow> (Some e, s)
      | None \<Rightarrow> (case http_do env req s of (Inl e, s) \<Rightarrow> (Some e, s) | (Inr r, s) \<Rightarrow> (None, s)))"

fun shouldRetry :: "err_class \<Rightarrow> bool" where
  "shouldRetry E_eof = True"
| "shouldRetry E_unexpected_eof = True"
| "shouldRetry E_dns = True"
| "shouldRetry (E_op op) = (op = ''read'' \<or> op = ''write'')"
| "shouldRetry (E_s3 code) = (code \<in> {''InternalError'', ''NoSuchUpload'', ''NoSuchBucket''})"
| "shouldRetry E_other = False"

text \<open>The attempts left are those \<^verbatim>\<open>attempt.Next()\<close> still grants; \<^verbatim>\<open>attempt.HasNext()\<close> asks for one more.\<close>

fun requestRetryLoop ::
  "('s, 'm) env \<Rightarrow> nat \<Rightarrow> http_req \<Rightarrow> 's \<Rightarrow> (error + http_resp) \<times> 's" where
  "requestRetryLoop env 0 req s =
     (Inl (Errorf ''could not complete the request within the specified retry attempts''), s)"
| "requestRetryLoop env (Suc n) req s =
     (case http_do env req s of
        (Inl e, s) \<Rightarrow> if shouldRetry (http_class env e) \<and> n > 0 then requestRetryLoop env n req s
                      else (Inl (Errorf ''making request''), s)
      | (Inr r, s) \<Rightarrow> (Inr r, s))"

definition Bucket_Get :: "('s, 'm) env \<Rightarrow> bucket \<Rightarrow> string \<Rightarrow> 's \<Rightarrow> (error + bytes) \<times> 's" where
  "Bucket_Get env b path s =
     (let req = get_req (object_url b path) in
      case s3_sign env req of
        Some e \<Rightarrow> (Inl e, s)
      | None \<Rightarrow> (case requestRetryLoop env (s3_attempts env) req s of
            (Inl e, s) \<Rightarrow> (Inl e, s)
          | (Inr r, s) \<Rightarrow> if success r then (hp_body r, s) else (Inl (s3_errdoc env r), s)))"

definition Bucket_DelBucket :: "('s, 'm) env \<Rightarrow> bucket \<Rightarrow> 's \<Rightarrow> error option \<times> 's" where
  "Bucket_DelBucket env b s =
     (let req = del_req (ResolveS3BucketEndpoint (bk_region b) (bk_name b)) in
      case s3_sign env req of
        Some e \<Rightarrow> (Some e, s)
      | None \<Rightarrow> (case requestRetryLoop env (s3_attempts env) req s of
            (Inl e, s) \<Rightarrow> (Some e, s) | (Inr r, s) \<Rightarrow> (None, s)))"

text \<open>The location constraint, empty where the region asks for none.\<close>

definition locationConstraint :: "region \<Rightarrow> bytes" where
  \<open>locationConstraint r =
     (if rg_s3_location_constraint r
      then ''<CreateBucketConfiguration xmlns="http://s3.amazonaws.com/doc/2006-03-01/">'' @ [CHR 0x0A] @
           ''  <LocationConstraint>'' @ rg_name r @ ''</LocationConstraint>'' @ [CHR 0x0A] @
           ''</CreateBucketConfiguration>''
      else [])\<close>

definition Bucket_PutBucket :: "('s, 'm) env \<Rightarrow> bucket \<Rightarrow> 's \<Rightarrow> error option \<times> 's" where
  "Bucket_PutBucket env b s =
     (let req = put_req (ResolveS3BucketEndpoint (bk_region b) (bk_name b)) (locationConstraint (bk_region b)) in
      case s3_sign env req of
        Some e \<Rightarrow> (Some e, s)
      | None \<Rightarrow> (case http_do env req s of (Inl e, s) \<Rightarrow> (Some e, s) | (Inr r, s) \<Rightarrow> (None, s)))"

section \<open>The bundler's wrapper\<close>

definition getBucketName :: "('s, 'm) env \<Rightarrow> string" where
  "getBucketName env =
     (let e = getenv env ''SIPHON_ENV'' in
      if e = [] \<or> e = ''testing'' then ''siphon-files-testing''
      else if e = ''staging'' then ''siphon-files-staging'' else ''siphon-files'')"

definition maxAttempts :: nat where "maxAttempts = 3"

definition S3Wrapper_Open :: "('s, 'm) env \<Rightarrow> error + bucket" where
  "S3Wrapper_Open env = S3_Bucket USEast (getBucketName env)"

text \<open>\<^verbatim>\<open>for i := 0; i < maxAttempts; i++\<close> with \<^verbatim>\<open>err\<close> carried to the end of the loop.\<close>

fun attempts :: "nat \<Rightarrow> ('s \<Rightarrow> (error + 'a) \<times> 's) \<Rightarrow> error + 'a \<Rightarrow> 's \<Rightarrow> (error + 'a) \<times> 's" where
  "attempts 0 f prev s = (prev, s)"
| "attempts (Suc n) f prev s =
     (case f s of (Inr a, s) \<Rightarrow> (Inr a, s) | (Inl e, s) \<Rightarrow> attempts n f (Inl e) s)"

definition err_sum :: "error option \<times> 's \<Rightarrow> (error + unit) \<times> 's" where
  "err_sum x = (case x of (None, s) \<Rightarrow> (Inr (), s) | (Some e, s) \<Rightarrow> (Inl e, s))"

definition WriteKey ::
  "('s, 'm) env \<Rightarrow> bucket \<Rightarrow> string \<Rightarrow> bytes \<Rightarrow> ('s, 'm) world \<Rightarrow> unit res \<times> ('s, 'm) world" where
  "WriteKey env b key data w =
     (case attempts maxAttempts (\<lambda>s. err_sum (Bucket_Put env b key data s)) (Inr ()) (w_s3 w) of
        (Inr u, s) \<Rightarrow> (Ok (), w\<lparr>w_s3 := s\<rparr>) | (Inl e, s) \<Rightarrow> (Fail e, w\<lparr>w_s3 := s\<rparr>))"

definition DeleteKey ::
  "('s, 'm) env \<Rightarrow> bucket \<Rightarrow> string \<Rightarrow> ('s, 'm) world \<Rightarrow> unit res \<times> ('s, 'm) world" where
  "DeleteKey env b key w =
     (case attempts maxAttempts (\<lambda>s. err_sum (Bucket_Del env b key s)) (Inr ()) (w_s3 w) of
        (Inr u, s) \<Rightarrow> (Ok (), w\<lparr>w_s3 := s\<rparr>) | (Inl e, s) \<Rightarrow> (Fail e, w\<lparr>w_s3 := s\<rparr>))"

definition GetKey ::
  "('s, 'm) env \<Rightarrow> bucket \<Rightarrow> string \<Rightarrow> ('s, 'm) world \<Rightarrow> bytes res \<times> ('s, 'm) world" where
  "GetKey env b key w =
     (case attempts maxAttempts (Bucket_Get env b key) (Inr []) (w_s3 w) of
        (Inr d, s) \<Rightarrow> (Ok d, w\<lparr>w_s3 := s\<rparr>) | (Inl e, s) \<Rightarrow> (Fail e, w\<lparr>w_s3 := s\<rparr>))"

text \<open>\<^verbatim>\<open>bucket\<close> is nil when the name is bad, and the method call on it dereferences it.\<close>

definition CreateBuckets :: "('s, 'm) env \<Rightarrow> ('s, 'm) world \<Rightarrow> unit res \<times> ('s, 'm) world" where
  "CreateBuckets env w =
     (case S3_Bucket USEast (getBucketName env) of
        Inl e \<Rightarrow> (Panic ''invalid memory address or nil pointer dereference'', w)
      | Inr b \<Rightarrow> (case Bucket_PutBucket env b (w_s3 w) of
            (None, s) \<Rightarrow> (Ok (), w\<lparr>w_s3 := s\<rparr>) | (Some e, s) \<Rightarrow> (Fail e, w\<lparr>w_s3 := s\<rparr>)))"

section \<open>Facts that need no service\<close>

text \<open>
  A request URL is kept with its path decoded, as the client builds it (\<^verbatim>\<open>req.URL.Path += path\<close>): the
  endpoint, the bucket and the key one after the other. The laws of the service are asked for the URLs
  of keys made of letters, digits, slashes, dots, dashes and underscores only, which is what hashes and
  identifiers are made of; \<open>plain_url\<close> is the set of those URLs.
\<close>

definition plain_char :: "char \<Rightarrow> bool" where
  "plain_char c \<longleftrightarrow>
     c \<in> set ''0123456789-_./ABCDEFGHIJKLMNOPQRSTUVWXYZabcdefghijklmnopqrstuvwxyz''"

definition plain_key :: "string \<Rightarrow> bool" where
  "plain_key k \<longleftrightarrow> k \<noteq> [] \<and> list_all plain_char k"

definition url_path :: "string \<Rightarrow> string" where
  "url_path u = drop 24 u"

definition plain_url :: "string \<Rightarrow> bool" where
  "plain_url u \<longleftrightarrow>
     (let p = drop 25 u; b = takeWhile (\<lambda>c. c \<noteq> slash) p; o' = drop (length b + 1) p in
      prefix ''https://s3.amazonaws.com/'' u \<and> plain_key b \<and> plain_key o')"

lemma plain_key_append: "plain_key (a @ b) \<longleftrightarrow> (a @ b \<noteq> []) \<and> list_all plain_char a \<and> list_all plain_char b"
  by (auto simp: plain_key_def)

lemma object_url_inj: "object_url b k = object_url b k' \<longleftrightarrow> k = k'"
  by (simp add: object_url_def)

text \<open>The bucket always opens, whatever the environment says.\<close>

lemma S3Wrapper_Open_Inr: "\<exists>b. S3Wrapper_Open env = Inr b"
  by (auto simp: S3Wrapper_Open_def S3_Bucket_def getBucketName_def Let_def)

lemma getBucketName_cases:
  "getBucketName env \<in> {''siphon-files-testing'', ''siphon-files-staging'', ''siphon-files''}"
  by (simp add: getBucketName_def Let_def)

lemma bucket_url:
  assumes "S3Wrapper_Open env = Inr b"
  shows "object_url b k = ''https://s3.amazonaws.com/'' @ getBucketName env @ ''/'' @ k"
proof -
  have "b = \<lparr>bk_region = USEast, bk_name = getBucketName env\<rparr>"
    using assms unfolding S3Wrapper_Open_def S3_Bucket_def by (simp add: USEast_def split: if_split_asm)
  then have "bk_region b = USEast" "bk_name b = getBucketName env" by simp_all
  moreover have "to_lower (''https://s3.amazonaws.com/'' @ getBucketName env @ ''/'') =
      ''https://s3.amazonaws.com/'' @ getBucketName env @ ''/''"
  proof -
    have e: "to_lower ''https://s3.amazonaws.com/'' = ''https://s3.amazonaws.com/''" "to_lower ''/'' = ''/''"
      by (simp_all add: to_lower_def ascii_lower_def)
    have "to_lower n = n" if "n \<in> {''siphon-files-testing'', ''siphon-files-staging'', ''siphon-files''}" for n
      using that by (elim insertE emptyE) (simp_all add: to_lower_def ascii_lower_def)
    note this [OF getBucketName_cases [of env]]
    then show ?thesis by (simp only: to_lower_append e)
  qed
  ultimately show ?thesis
    by (simp add: object_url_def ResolveS3BucketEndpoint_def USEast_def)
qed

lemma plain_object_url:
  assumes "S3Wrapper_Open env = Inr b" and "plain_key k"
  shows "plain_url (object_url b k)"
proof -
  have n: "plain_key (getBucketName env)" "slash \<notin> set (getBucketName env)"
  proof -
    have "plain_key n \<and> slash \<notin> set n"
      if "n \<in> {''siphon-files-testing'', ''siphon-files-staging'', ''siphon-files''}" for n
      using that by (auto simp: plain_key_def plain_char_def)
    then show "plain_key (getBucketName env)" "slash \<notin> set (getBucketName env)"
      using getBucketName_cases [of env] by blast+
  qed
  then have "takeWhile (\<lambda>c. c \<noteq> slash) (getBucketName env @ ''/'' @ k) = getBucketName env"
    by (subst takeWhile_append2) auto
  then show ?thesis
    using assms(2) n by (simp add: plain_url_def bucket_url [OF assms(1)] Let_def)
qed

text \<open>An operation is tried at most three times and stops at the first success.\<close>

lemma attempts_Inr:
  "attempts (Suc n) f prev s = (Inr a, s') \<longleftrightarrow>
     f s = (Inr a, s') \<or> (\<exists>e t. f s = (Inl e, t) \<and> attempts n f (Inl e) t = (Inr a, s'))"
  by (auto split: prod.splits sum.splits)

lemma attempts_rel:
  assumes "attempts (Suc n) f prev s = (x, s')" and "\<And>s x s'. f s = (x, s') \<Longrightarrow> P s x s'"
    and "\<And>s e t x s'. P s (Inl e) t \<Longrightarrow> P t x s' \<Longrightarrow> P s x s'"
  shows "P s x s'"
  using assms(1)
proof (induction n arbitrary: prev s)
  case 0
  then show ?case using assms(2) [of s] by (cases "f s"; cases "fst (f s)") auto
next
  case (Suc n)
  obtain y t where ft: "f s = (y, t)" by (cases "f s")
  show ?case
  proof (cases y)
    case (Inl e)
    then have "P t x s'" using Suc ft by simp
    then show ?thesis using assms(2) [OF ft] Inl assms(3) by blast
  next
    case (Inr a)
    then show ?thesis using Suc.prems ft assms(2) [OF ft] by simp
  qed
qed

lemma three_attempts: "maxAttempts = Suc 2"
  by (simp add: maxAttempts_def)

text \<open>The wrapper touches the object store only.\<close>

lemma WriteKey_frame [frame]: "\<exists>s. snd (WriteKey env b k d w) = w\<lparr>w_s3 := s\<rparr>"
  by (auto simp: WriteKey_def split: prod.split sum.split)

lemma DeleteKey_frame [frame]: "\<exists>s. snd (DeleteKey env b k w) = w\<lparr>w_s3 := s\<rparr>"
  by (auto simp: DeleteKey_def split: prod.split sum.split)

lemma GetKey_frame [frame]: "\<exists>s. snd (GetKey env b k w) = w\<lparr>w_s3 := s\<rparr>"
  by (auto simp: GetKey_def split: prod.split sum.split)

section \<open>The service\<close>

locale s3_service =
  fixes env :: "('s, 'm) env" and view :: "'s \<Rightarrow> string \<Rightarrow> bytes option" and valid :: "string \<Rightarrow> bool"
  assumes put_stored: "valid u \<Longrightarrow> http_do env (put_req u b) s = (Inr r, s') \<Longrightarrow> success r \<Longrightarrow>
      view s' = (view s)(u \<mapsto> b)"
    and put_any: "valid u \<Longrightarrow> http_do env (put_req u b) s = (x, s') \<Longrightarrow>
      view s' = view s \<or> view s' = (view s)(u \<mapsto> b)"
    and get_any: "valid u \<Longrightarrow> http_do env (get_req u) s = (x, s') \<Longrightarrow> view s' = view s"
    and get_found: "valid u \<Longrightarrow> http_do env (get_req u) s = (Inr r, s') \<Longrightarrow> success r \<Longrightarrow>
      hp_body r = Inr b \<Longrightarrow> view s u = Some b"
    and del_any: "valid u \<Longrightarrow> http_do env (del_req u) s = (x, s') \<Longrightarrow>
      view s' = view s \<or> view s' = (view s)(u := None)"
begin

lemma Bucket_Put_view:
  assumes "valid (object_url b k)" and "Bucket_Put env b k d s = (x, s')"
  shows "view s' = (view s)(object_url b k \<mapsto> d) \<or> x \<noteq> None \<and> view s' = view s"
  using assms put_stored [OF assms(1), of d s] put_any [OF assms(1), of d s]
  by (auto simp: Bucket_Put_def Let_def split: option.splits prod.splits sum.splits if_splits)

lemma Bucket_Del_view:
  assumes "valid (object_url b k)" and "Bucket_Del env b k s = (x, s')"
  shows "view s' = view s \<or> view s' = (view s)(object_url b k := None)"
  using assms del_any [OF assms(1), of s]
  by (auto simp: Bucket_Del_def Let_def split: option.splits prod.splits sum.splits)

lemma requestRetryLoop_view:
  assumes "valid u" and "requestRetryLoop env n (get_req u) s = (x, s')"
  shows "view s' = view s \<and> (\<forall>r b. x = Inr r \<longrightarrow> success r \<longrightarrow> hp_body r = Inr b \<longrightarrow> view s u = Some b)"
  using assms(2)
proof (induction n arbitrary: s)
  case (Suc n)
  obtain y t where h: "http_do env (get_req u) s = (y, t)" by (cases "http_do env (get_req u) s")
  have vt: "view t = view s" by (rule get_any [OF assms(1) h])
  show ?case
  proof (cases y)
    case (Inl e)
    then show ?thesis
      using Suc.IH [of t] Suc.prems h vt by (auto split: if_splits)
  next
    case (Inr r)
    then show ?thesis
      using Suc.prems h vt get_found [OF assms(1), of s r t] by auto
  qed
qed auto

lemma Bucket_Get_view:
  assumes "valid (object_url b k)" and "Bucket_Get env b k s = (x, s')"
  shows "view s' = view s \<and> (\<forall>d. x = Inr d \<longrightarrow> view s (object_url b k) = Some d)"
proof (cases "s3_sign env (get_req (object_url b k))")
  case None
  obtain y t where h: "requestRetryLoop env (s3_attempts env) (get_req (object_url b k)) s = (y, t)"
    by (cases "requestRetryLoop env (s3_attempts env) (get_req (object_url b k)) s")
  then show ?thesis
    using assms(2) None requestRetryLoop_view [OF assms(1) h]
    by (cases y) (auto simp: Bucket_Get_def split: if_splits)
qed (use assms(2) in \<open>auto simp: Bucket_Get_def\<close>)

lemma WriteKey_view:
  assumes "valid (object_url b k)" and "WriteKey env b k d w = (r, w')"
  shows "view (w_s3 w') = (view (w_s3 w))(object_url b k \<mapsto> d) \<or> r \<noteq> Ok () \<and> view (w_s3 w') = view (w_s3 w)"
proof -
  let ?f = "\<lambda>s. err_sum (Bucket_Put env b k d s)"
  let ?P = "\<lambda>s x s'. view s' = (view s)(object_url b k \<mapsto> d) \<or> (\<exists>e. x = Inl e) \<and> view s' = view s"
  obtain x s' where run: "attempts maxAttempts ?f (Inr ()) (w_s3 w) = (x, s')" by fastforce
  have "?P (w_s3 w) x s'"
  proof (rule attempts_rel [where P = ?P, OF run [unfolded three_attempts]])
    show "?P s x s'" if "?f s = (x, s')" for s x s'
      using Bucket_Put_view [OF assms(1), of d s] that
      by (cases "Bucket_Put env b k d s"; cases "fst (Bucket_Put env b k d s)") (auto simp: err_sum_def)
  qed auto
  then show ?thesis using assms(2) run by (cases x) (auto simp: WriteKey_def)
qed

lemma DeleteKey_view:
  assumes "valid (object_url b k)" and "DeleteKey env b k w = (r, w')"
  shows "view (w_s3 w') = view (w_s3 w) \<or> view (w_s3 w') = (view (w_s3 w))(object_url b k := None)"
proof -
  let ?f = "\<lambda>s. err_sum (Bucket_Del env b k s)"
  let ?P = "\<lambda>s (x :: error + unit) s'. view s' = view s \<or> view s' = (view s)(object_url b k := None)"
  obtain x s' where run: "attempts maxAttempts ?f (Inr ()) (w_s3 w) = (x, s')" by fastforce
  have "?P (w_s3 w) x s'"
  proof (rule attempts_rel [where P = ?P, OF run [unfolded three_attempts]])
    show "?P s x s'" if "?f s = (x, s')" for s x s'
      using Bucket_Del_view [OF assms(1), of s] that
      by (cases "Bucket_Del env b k s"; cases "fst (Bucket_Del env b k s)") (auto simp: err_sum_def)
  qed auto
  then show ?thesis using assms(2) run by (cases x) (auto simp: DeleteKey_def)
qed

lemma GetKey_view:
  assumes "valid (object_url b k)" and "GetKey env b k w = (r, w')"
  shows "view (w_s3 w') = view (w_s3 w) \<and> (\<forall>d. r = Ok d \<longrightarrow> view (w_s3 w) (object_url b k) = Some d)"
proof -
  let ?P = "\<lambda>s x s'. view s' = view s \<and> (\<forall>d. x = Inr d \<longrightarrow> view s (object_url b k) = Some d)"
  obtain x s' where run: "attempts maxAttempts (Bucket_Get env b k) (Inr []) (w_s3 w) = (x, s')" by fastforce
  have "?P (w_s3 w) x s'"
    by (rule attempts_rel [where P = ?P, OF run [unfolded three_attempts]])
      (use Bucket_Get_view [OF assms(1)] in auto)
  then show ?thesis using assms(2) run by (cases x) (auto simp: GetKey_def)
qed

end

end
