(* ===== verification/Cache.thy ===== *)
theory Cache
  imports S3_Client
begin

text \<open>
  The file store of \<^verbatim>\<open>siphon/bundler/cache.go\<close>: blobs under keys prefixed with the app and, for a
  submission, its ID; S3 holds them, memcached holds copies. \<^verbatim>\<open>Set\<close> and \<^verbatim>\<open>Delete\<close> go to S3 first and to
  memcached second, \<^verbatim>\<open>Get\<close> asks memcached first and fills it from S3 on a miss.

  The locale \<open>blob_store\<close> is the contract the handlers use. The locale \<open>cache_backend\<close> has the laws of
  the two services; in it every cache is a \<open>blob_store\<close>, with the invariant that memcached holds no
  value that S3 does not hold. The invariant is kept by every operation that succeeds and by every
  read; an operation that fails between its two halves is what can break it.
\<close>

section \<open>Operations\<close>

record Cache =
  c_appID :: string
  c_submissionID :: string
  c_mc :: bool
  c_s3 :: bucket

definition BundleFooterFile :: "string \<Rightarrow> string" where
  "BundleFooterFile platform = ''bundle-footer-'' @ platform"

definition NewCache ::
  "('s, 'm) env \<Rightarrow> string \<Rightarrow> string \<Rightarrow> ('s, 'm) world \<Rightarrow> Cache res \<times> ('s, 'm) world" where
  "NewCache env appID submissionID w =
     (case S3Wrapper_Open env of
        Inl e \<Rightarrow> (Fail e, w)
      | Inr b \<Rightarrow> (Ok \<lparr>c_appID = appID, c_submissionID = submissionID,
                      c_mc = (getenv env ''SIPHON_ENV'' \<noteq> ''testing''), c_s3 = b\<rparr>, w))"

definition prefixed :: "Cache \<Rightarrow> string \<Rightarrow> string" where
  "prefixed c key =
     (if c_submissionID c = [] then c_appID c @ ''/'' @ key
      else c_appID c @ ''/'' @ c_submissionID c @ ''/'' @ key)"

text \<open>\<^verbatim>\<open>c.mc.Set\<close>, skipped when there is no client.\<close>

definition mc_put ::
  "('s, 'm) env \<Rightarrow> Cache \<Rightarrow> string \<Rightarrow> bytes \<Rightarrow> ('s, 'm) world \<Rightarrow> unit res \<times> ('s, 'm) world" where
  "mc_put env c k b w =
     (if \<not> c_mc c then (Ok (), w)
      else case mc_set env k b (w_mc w) of
        (None, m) \<Rightarrow> (Ok (), w\<lparr>w_mc := m\<rparr>)
      | (Some e, m) \<Rightarrow> (Fail e, w\<lparr>w_mc := m\<rparr>))"

definition cacheMiss ::
  "('s, 'm) env \<Rightarrow> Cache \<Rightarrow> string \<Rightarrow> ('s, 'm) world \<Rightarrow> bytes res \<times> ('s, 'm) world" where
  "cacheMiss env c k w =
     andThen (GetKey env (c_s3 c) k w) (\<lambda>b w. andThen (mc_put env c k b w) (\<lambda>_ w. (Ok b, w)))"

definition Cache_Get ::
  "('s, 'm) env \<Rightarrow> Cache \<Rightarrow> string \<Rightarrow> ('s, 'm) world \<Rightarrow> bytes res \<times> ('s, 'm) world" where
  "Cache_Get env c key w =
     (let k = prefixed c key in
      if c_mc c then
        (case mc_get env k (w_mc w) of
           (Inl e, m) \<Rightarrow> if e = ErrCacheMiss then cacheMiss env c k (w\<lparr>w_mc := m\<rparr>) else (Fail e, w\<lparr>w_mc := m\<rparr>)
         | (Inr v, m) \<Rightarrow> (Ok v, w\<lparr>w_mc := m\<rparr>))
      else cacheMiss env c k w)"

definition Cache_Set ::
  "('s, 'm) env \<Rightarrow> Cache \<Rightarrow> string \<Rightarrow> bytes \<Rightarrow> ('s, 'm) world \<Rightarrow> unit res \<times> ('s, 'm) world" where
  "Cache_Set env c key b w =
     (let k = prefixed c key in
      andThen (WriteKey env (c_s3 c) k b w) (\<lambda>_ w. mc_put env c k b w))"

definition GetBundleFooter ::
  "('s, 'm) env \<Rightarrow> Cache \<Rightarrow> string \<Rightarrow> ('s, 'm) world \<Rightarrow> bytes res \<times> ('s, 'm) world" where
  "GetBundleFooter env c name w = Cache_Get env c name w"

definition SetBundleFooter ::
  "('s, 'm) env \<Rightarrow> Cache \<Rightarrow> bytes \<Rightarrow> string \<Rightarrow> ('s, 'm) world \<Rightarrow> unit res \<times> ('s, 'm) world" where
  "SetBundleFooter env c b name w = Cache_Set env c name b w"

definition Cache_Delete ::
  "('s, 'm) env \<Rightarrow> Cache \<Rightarrow> string \<Rightarrow> ('s, 'm) world \<Rightarrow> unit res \<times> ('s, 'm) world" where
  "Cache_Delete env c key w =
     (let k = prefixed c key in
      andThen (DeleteKey env (c_s3 c) k w) (\<lambda>_ w.
        if \<not> c_mc c then (Ok (), w)
        else case mc_delete env k (w_mc w) of
          (None, m) \<Rightarrow> (Ok (), w\<lparr>w_mc := m\<rparr>)
        | (Some e, m) \<Rightarrow> if e = ErrCacheMiss then (Ok (), w\<lparr>w_mc := m\<rparr>) else (Fail e, w\<lparr>w_mc := m\<rparr>)))"

section \<open>Keys\<close>

lemma NewCache_Ok:
  "NewCache env app sub w = (r, w') \<longleftrightarrow>
     (\<exists>b. S3Wrapper_Open env = Inr b \<and> w' = w \<and>
        r = Ok \<lparr>c_appID = app, c_submissionID = sub, c_mc = (getenv env ''SIPHON_ENV'' \<noteq> ''testing''), c_s3 = b\<rparr>)"
  using S3Wrapper_Open_Inr [of env] by (auto simp: NewCache_def)

definition id_ok :: "string \<Rightarrow> bool" where
  "id_ok i \<longleftrightarrow> plain_key i \<and> slash \<notin> set i"

text \<open>Keys of different namespaces differ when no part has a slash in it.\<close>

lemma prefixed_inj:
  assumes "slash \<notin> set (c_appID c)" "slash \<notin> set (c_submissionID c)" "slash \<notin> set k"
    and "slash \<notin> set (c_appID d)" "slash \<notin> set (c_submissionID d)" "slash \<notin> set l"
    and "prefixed c k = prefixed d l"
  shows "c_appID c = c_appID d \<and> c_submissionID c = c_submissionID d \<and> k = l"
proof -
  have sp: "split_on slash (prefixed e x) =
      (if c_submissionID e = [] then [c_appID e, x] else [c_appID e, c_submissionID e, x])"
    if "slash \<notin> set (c_appID e)" "slash \<notin> set (c_submissionID e)" "slash \<notin> set x" for e x
    using that by (simp add: prefixed_def split_on_append split_on_unsplit)
  show ?thesis
    using sp [OF assms(1-3)] sp [OF assms(4-6)] assms(7) by (auto split: if_splits)
qed

lemma plain_prefixed:
  assumes "plain_key (c_appID c)" "c_submissionID c = [] \<or> plain_key (c_submissionID c)" "plain_key k"
  shows "plain_key (prefixed c k)"
  using assms by (auto simp: prefixed_def plain_key_def plain_char_def)

section \<open>Frames\<close>

definition store_frame :: "('s, 'm) world \<Rightarrow> ('s, 'm) world \<Rightarrow> bool" where
  "store_frame w w' \<longleftrightarrow> w' = w\<lparr>w_s3 := w_s3 w', w_mc := w_mc w'\<rparr>"

lemma store_frame_refl [simp]: "store_frame w w"
  by (simp add: store_frame_def)

lemma store_frame_trans: "store_frame u v \<Longrightarrow> store_frame v w \<Longrightarrow> store_frame u w"
  by (cases u; cases v; cases w) (simp add: store_frame_def)

lemma store_frameD:
  assumes "store_frame w w'"
  shows "w_rows w' = w_rows w" "w_dbq w' = w_dbq w" "w_fs w' = w_fs w" "w_rsp w' = w_rsp w" "w_ctx w' = w_ctx w"
    "w_web w' = w_web w" "w_puts w' = w_puts w" "w_amqp w' = w_amqp w" "w_msgs w' = w_msgs w"
proof -
  note eq = assms [unfolded store_frame_def]
  show "w_rows w' = w_rows w" "w_dbq w' = w_dbq w" "w_fs w' = w_fs w" "w_rsp w' = w_rsp w" "w_ctx w' = w_ctx w"
    "w_web w' = w_web w" "w_puts w' = w_puts w" "w_amqp w' = w_amqp w" "w_msgs w' = w_msgs w"
    by (subst eq, simp)+
qed

lemma store_frame_s3: "store_frame w (w\<lparr>w_s3 := s\<rparr>)" "store_frame w (w\<lparr>w_mc := m\<rparr>)"
  by (simp_all add: store_frame_def)

lemma mc_put_frame [frame]: "store_frame w (snd (mc_put env c k b w))"
  by (auto simp: mc_put_def store_frame_s3 split: prod.split option.split)

lemma S3_store_frame [frame]:
  "store_frame w (snd (WriteKey env b k d w))" "store_frame w (snd (DeleteKey env b k w))"
  "store_frame w (snd (GetKey env b k w))"
  using WriteKey_frame [of env b k d w] DeleteKey_frame [of env b k w] GetKey_frame [of env b k w] store_frame_s3(1)
  by metis+

lemma cacheMiss_frame [frame]: "store_frame w (snd (cacheMiss env c k w))"
  unfolding cacheMiss_def
  by (intro andThen_keeps [where Q = "store_frame w"])
    (auto intro: frame store_frame_trans [OF _ mc_put_frame])

lemma Cache_Get_frame [frame]: "store_frame w (snd (Cache_Get env c k w))"
  using store_frame_trans [OF store_frame_s3(2) cacheMiss_frame, of w]
  by (auto simp: Cache_Get_def Let_def cacheMiss_frame store_frame_s3 split: prod.split sum.split)

lemma Cache_Set_frame [frame]: "store_frame w (snd (Cache_Set env c k b w))"
  unfolding Cache_Set_def Let_def
  by (intro andThen_keeps [where Q = "store_frame w"])
    (auto intro: frame store_frame_trans [OF _ mc_put_frame])

lemma Cache_Delete_frame [frame]: "store_frame w (snd (Cache_Delete env c k w))"
  unfolding Cache_Delete_def Let_def
  by (intro andThen_keeps [where Q = "store_frame w"])
    (auto intro: frame store_frame_trans [OF _ store_frame_s3(2)] split: prod.split option.split)

section \<open>The contract\<close>

locale blob_store =
  fixes ok :: "'w \<Rightarrow> bool" and look :: "'w \<Rightarrow> string \<Rightarrow> bytes option" and valid :: "string \<Rightarrow> bool"
    and set_blob :: "string \<Rightarrow> bytes \<Rightarrow> 'w \<Rightarrow> unit res \<times> 'w"
    and del_blob :: "string \<Rightarrow> 'w \<Rightarrow> unit res \<times> 'w"
    and get_blob :: "string \<Rightarrow> 'w \<Rightarrow> bytes res \<times> 'w"
  assumes set_law: "ok w \<Longrightarrow> valid k \<Longrightarrow> set_blob k b w = (Ok (), w') \<Longrightarrow> ok w' \<and> look w' = (look w)(k \<mapsto> b)"
    and set_any: "valid k \<Longrightarrow> set_blob k b w = (r, w') \<Longrightarrow> look w' = look w \<or> look w' = (look w)(k \<mapsto> b)"
    and del_law: "ok w \<Longrightarrow> valid k \<Longrightarrow> del_blob k w = (Ok (), w') \<Longrightarrow> ok w'"
    and del_any: "valid k \<Longrightarrow> del_blob k w = (r, w') \<Longrightarrow> look w' = look w \<or> look w' = (look w)(k := None)"
    and get_law: "ok w \<Longrightarrow> valid k \<Longrightarrow> get_blob k w = (Ok b, w') \<Longrightarrow> look w k = Some b"
    and get_any: "ok w \<Longrightarrow> valid k \<Longrightarrow> get_blob k w = (x, w') \<Longrightarrow> ok w' \<and> look w' = look w"
begin

text \<open>What was written last is what is read, if anything is read.\<close>

lemma read_back:
  assumes "ok w" "valid k" "set_blob k b w = (Ok (), w1)" "get_blob k w1 = (Ok b', w2)"
  shows "b' = b"
  using set_law [OF assms(1-3)] get_law [OF _ assms(2,4)] by auto

lemma no_phantom:
  assumes "ok w" "valid k" "look w k = None" "get_blob k w = (r, w')"
  shows "r \<noteq> Ok b"
  using get_law [OF assms(1,2)] assms(3,4) by auto

lemma set_dom:
  assumes "valid k" "set_blob k b w = (r, w')" "look w x \<noteq> None"
  shows "look w' x \<noteq> None"
  using set_any [OF assms(1,2)] assms(3) by auto

lemma del_other:
  assumes "valid k" "del_blob k w = (r, w')" "x \<noteq> k"
  shows "look w' x = look w x"
  using del_any [OF assms(1,2)] assms(3) by auto

text \<open>A loop that stores \<open>d n\<close> under \<open>h n\<close> for every \<open>n\<close>, where equal keys carry equal data.\<close>

lemma loop_set:
  assumes "for_each body ns w = (Ok u, w')" and "ok w"
    and "\<And>n v v'. n \<in> set ns \<Longrightarrow> ok v \<Longrightarrow> body n v = (Ok (), v') \<Longrightarrow> ok v' \<and> look v' = (look v)(h n \<mapsto> d n)"
    and "\<And>n m. n \<in> set ns \<Longrightarrow> m \<in> set ns \<Longrightarrow> h n = h m \<Longrightarrow> d n = d m"
  shows "ok w' \<and> (\<forall>n \<in> set ns. look w' (h n) = Some (d n)) \<and> (\<forall>k. k \<notin> h ` set ns \<longrightarrow> look w' k = look w k)"
proof -
  have "ok w' \<and> look w' = upd_all h d ns (look w)"
    unfolding upd_all_def
    by (rule for_each_fold [where I = ok and obs = look, OF assms(1,2)]) (use assms(3) in blast)
  moreover have "upd_all h d ns (look w) (h n) = Some (d n)" if n: "n \<in> set ns" for n
  proof -
    obtain m where "m \<in> set ns" "h m = h n" "upd_all h d ns (look w) (h n) = Some (d m)"
      using upd_all_hit [OF imageI [OF n], of h d "look w"] by blast
    then show ?thesis using assms(4) [of n m] n by simp
  qed
  ultimately show ?thesis by (simp add: upd_all_miss)
qed

end

section \<open>The two services behind it\<close>

definition blob :: "('s \<Rightarrow> string \<Rightarrow> bytes option) \<Rightarrow> Cache \<Rightarrow> ('s, 'm) world \<Rightarrow> string \<Rightarrow> bytes option" where
  "blob view c w k = view (w_s3 w) (object_url (c_s3 c) (prefixed c k))"

definition coherent ::
  "('s \<Rightarrow> string \<Rightarrow> bytes option) \<Rightarrow> ('m \<Rightarrow> string \<Rightarrow> bytes option) \<Rightarrow> Cache \<Rightarrow> ('s, 'm) world \<Rightarrow> bool" where
  "coherent view mv c w \<longleftrightarrow>
     (c_mc c \<longrightarrow> (\<forall>k v. mv (w_mc w) k = Some v \<longrightarrow> view (w_s3 w) (object_url (c_s3 c) k) = Some v))"

definition key_ok :: "('s, 'm) env \<Rightarrow> Cache \<Rightarrow> string \<Rightarrow> bool" where
  "key_ok env c k \<longleftrightarrow> S3Wrapper_Open env = Inr (c_s3 c) \<and> plain_key (prefixed c k)"

lemma prefixed_eq [simp]: "prefixed c k = prefixed c l \<longleftrightarrow> k = l"
  by (simp add: prefixed_def)

locale cache_backend = s3_service env view plain_url
  for env :: "('s, 'm) env" and view :: "'s \<Rightarrow> string \<Rightarrow> bytes option" +
  fixes mv :: "'m \<Rightarrow> string \<Rightarrow> bytes option"
  assumes memcached: "memcached_law env mv"
begin

lemma mc_put_view:
  assumes "mc_put env c k b w = (r, w')" and "coherent view mv c w"
    and "view (w_s3 w) (object_url (c_s3 c) k) = Some b"
  shows "w_s3 w' = w_s3 w \<and> coherent view mv c w'"
proof (cases "c_mc c")
  case True
  obtain x m where s: "mc_set env k b (w_mc w) = (x, m)" by (cases "mc_set env k b (w_mc w)")
  have w': "w' = w\<lparr>w_mc := m\<rparr>" using assms(1) True s by (auto simp: mc_put_def split: option.splits)
  have "mv m x = Some v \<Longrightarrow> (x = k \<and> v = b) \<or> mv (w_mc w) x = Some v" for x v
    using memcached_setD [OF memcached s, of x v] by (auto split: if_splits)
  then show ?thesis using assms(2,3) True w' by (auto simp: coherent_def)
qed (use assms in \<open>auto simp: mc_put_def coherent_def\<close>)

lemma mc_put_s3: "w_s3 (snd (mc_put env c k b w)) = w_s3 w"
  by (auto simp: mc_put_def split: prod.split option.split)

lemma GetKey_coherent:
  assumes "plain_url (object_url (c_s3 c) k)" and "GetKey env (c_s3 c) k w = (r, w')" and "coherent view mv c w"
  shows "coherent view mv c w' \<and> view (w_s3 w') = view (w_s3 w)"
  using GetKey_view [OF assms(1,2)] GetKey_frame [of env "c_s3 c" k w] assms(2,3)
  by (auto simp: coherent_def)

lemma cacheMiss_view:
  assumes "plain_url (object_url (c_s3 c) k)" and "cacheMiss env c k w = (r, w')" and "coherent view mv c w"
  shows "coherent view mv c w' \<and> view (w_s3 w') = view (w_s3 w) \<and>
    (\<forall>b. r = Ok b \<longrightarrow> view (w_s3 w) (object_url (c_s3 c) k) = Some b)"
proof -
  obtain x v where g: "GetKey env (c_s3 c) k w = (x, v)" by (cases "GetKey env (c_s3 c) k w")
  note gv = GetKey_view [OF assms(1) g] and gc = GetKey_coherent [OF assms(1) g assms(3)]
  show ?thesis
  proof (cases x)
    case (Ok b)
    obtain y v' where p: "mc_put env c k b v = (y, v')" by (cases "mc_put env c k b v")
    have "w_s3 v' = w_s3 v \<and> coherent view mv c v'"
      by (rule mc_put_view [OF p]) (use gv gc Ok in auto)
    then show ?thesis
      using assms(2) g p Ok gv by (cases y) (auto simp: cacheMiss_def)
  qed (use assms(2) g gc gv in \<open>auto simp: cacheMiss_def\<close>)
qed

lemma coherent_get:
  assumes "mc_get env k (w_mc w) = (r, m)" and "coherent view mv c w"
  shows "coherent view mv c (w\<lparr>w_mc := m\<rparr>)" and "r = Inr b \<Longrightarrow> mv (w_mc w) k = Some b"
proof -
  note law = memcached_getD [OF memcached assms(1)]
  show "r = Inr b \<Longrightarrow> mv (w_mc w) k = Some b" by (rule law(2))
  show "coherent view mv c (w\<lparr>w_mc := m\<rparr>)"
    using law(1) assms(2) by (auto simp: coherent_def)
qed

lemma Cache_Get_view:
  assumes "key_ok env c k" and "Cache_Get env c k w = (r, w')" and "coherent view mv c w"
  shows "coherent view mv c w' \<and> view (w_s3 w') = view (w_s3 w) \<and> (\<forall>b. r = Ok b \<longrightarrow> blob view c w k = Some b)"
proof -
  have u: "plain_url (object_url (c_s3 c) (prefixed c k))"
    using assms(1) by (auto simp: key_ok_def intro: plain_object_url)
  show ?thesis
  proof (cases "c_mc c")
    case True
    obtain x m where g: "mc_get env (prefixed c k) (w_mc w) = (x, m)" by (cases "mc_get env (prefixed c k) (w_mc w)")
    note cg = coherent_get [OF g assms(3)]
    show ?thesis
    proof (cases x)
      case (Inl e)
      show ?thesis
        using assms(2) True g Inl cg(1) cacheMiss_view [OF u _ cg(1), of r w']
        by (auto simp: Cache_Get_def Let_def blob_def split: if_splits)
    next
      case (Inr v)
      then show ?thesis
        using assms(2,3) True g cg by (auto simp: Cache_Get_def Let_def blob_def coherent_def)
    qed
  next
    case False
    then show ?thesis
      using assms(2) cacheMiss_view [OF u _ assms(3), of r w'] by (auto simp: Cache_Get_def blob_def)
  qed
qed

lemma Cache_Set_view:
  assumes "key_ok env c k" and "Cache_Set env c k b w = (r, w')"
  shows "view (w_s3 w') = (view (w_s3 w))(object_url (c_s3 c) (prefixed c k) \<mapsto> b) \<or>
      r \<noteq> Ok () \<and> view (w_s3 w') = view (w_s3 w)"
    and "coherent view mv c w \<Longrightarrow> r = Ok () \<Longrightarrow> coherent view mv c w'"
proof -
  let ?k = "prefixed c k"
  have u: "plain_url (object_url (c_s3 c) ?k)"
    using assms(1) by (auto simp: key_ok_def intro: plain_object_url)
  obtain x v where g: "WriteKey env (c_s3 c) ?k b w = (x, v)" by (cases "WriteKey env (c_s3 c) ?k b w")
  note wv = WriteKey_view [OF u g]
  obtain y v' where p: "mc_put env c ?k b v = (y, v')" by (cases "mc_put env c ?k b v")
  have s3: "w_s3 v' = w_s3 v" using mc_put_s3 [of c ?k b v] p by simp
  have run: "(r, w') = (case x of Ok _ \<Rightarrow> (y, v') | Fail e \<Rightarrow> (Fail e, v) | Panic s \<Rightarrow> (Panic s, v))"
    using assms(2) g p by (cases x) (auto simp: Cache_Set_def)
  show "view (w_s3 w') = (view (w_s3 w))(object_url (c_s3 c) ?k \<mapsto> b) \<or> r \<noteq> Ok () \<and> view (w_s3 w') = view (w_s3 w)"
    using run wv s3 by (cases x) auto
  assume co: "coherent view mv c w" and "r = Ok ()"
  then have x: "x = Ok ()" and y: "y = Ok ()" and w': "w' = v'" using run by (auto split: res.splits)
  have vv: "view (w_s3 v) = (view (w_s3 w))(object_url (c_s3 c) ?k \<mapsto> b)" using wv x by auto
  have mc: "w_mc v = w_mc w" using WriteKey_frame [of env "c_s3 c" ?k b w] g by auto
  show "coherent view mv c w'"
  proof (cases "c_mc c")
    case True
    obtain z m where s: "mc_set env ?k b (w_mc v) = (z, m)" by (cases "mc_set env ?k b (w_mc v)")
    have z: "z = None" "w_mc w' = m" "w_s3 w' = w_s3 v"
      using p True s y w' by (auto simp: mc_put_def split: option.splits)
    have "mv m x = Some v \<Longrightarrow> (x = ?k \<and> v = b) \<or> x \<noteq> ?k \<and> mv (w_mc w) x = Some v" for x v
      using memcached_setD [OF memcached s, of x v] z(1) mc by (auto split: if_splits)
    then show ?thesis
      using co z vv by (auto simp: coherent_def object_url_inj)
  qed (simp add: coherent_def)
qed

lemma Cache_Delete_view:
  assumes "key_ok env c k" and "Cache_Delete env c k w = (r, w')"
  shows "view (w_s3 w') = view (w_s3 w) \<or>
      view (w_s3 w') = (view (w_s3 w))(object_url (c_s3 c) (prefixed c k) := None)"
    and "coherent view mv c w \<Longrightarrow> r = Ok () \<Longrightarrow> coherent view mv c w'"
proof -
  let ?k = "prefixed c k"
  have u: "plain_url (object_url (c_s3 c) ?k)"
    using assms(1) by (auto simp: key_ok_def intro: plain_object_url)
  obtain x v where g: "DeleteKey env (c_s3 c) ?k w = (x, v)" by (cases "DeleteKey env (c_s3 c) ?k w")
  note dv = DeleteKey_view [OF u g]
  obtain z m where s: "mc_delete env ?k (w_mc v) = (z, m)" by (cases "mc_delete env ?k (w_mc v)")
  have s3: "w_s3 w' = w_s3 v"
    using assms(2) g s by (cases x; cases z) (auto simp: Cache_Delete_def Let_def split: if_splits)
  then show "view (w_s3 w') = view (w_s3 w) \<or> view (w_s3 w') = (view (w_s3 w))(object_url (c_s3 c) ?k := None)"
    using dv by simp
  assume co: "coherent view mv c w" and "r = Ok ()"
  have mc: "w_mc v = w_mc w" using DeleteKey_frame [of env "c_s3 c" ?k w] g by auto
  show "coherent view mv c w'"
  proof (cases "c_mc c")
    case True
    have z: "z = None \<or> z = Some ErrCacheMiss" and w': "w_mc w' = m"
      using assms(2) g s True \<open>r = Ok ()\<close>
      by (cases x; cases z; auto simp: Cache_Delete_def Let_def split: if_splits)+
    then have "mv m x = Some v \<Longrightarrow> x \<noteq> ?k \<and> mv (w_mc w) x = Some v" for x v
      using memcached_deleteD [OF memcached s, of x v] mc by (auto split: if_splits)
    then show ?thesis
      using co s3 dv w' by (auto simp: coherent_def object_url_inj)
  qed (simp add: coherent_def)
qed

end

sublocale cache_backend \<subseteq> blobs: blob_store "coherent view mv c" "blob view c" "key_ok env c"
  "Cache_Set env c" "Cache_Delete env c" "Cache_Get env c" for c
proof
  fix w w' :: "('s, 'm) world" and k b r
  have upd: "blob view c w' = (blob view c w)(k := x)"
    if "view (w_s3 w') = (view (w_s3 w))(object_url (c_s3 c) (prefixed c k) := x)" for x
    using that by (auto simp: blob_def object_url_inj)
  have same: "blob view c w' = blob view c w" if "view (w_s3 w') = view (w_s3 w)"
    using that by (auto simp: blob_def)
  show "coherent view mv c w' \<and> blob view c w' = (blob view c w)(k \<mapsto> b)"
    if "coherent view mv c w" "key_ok env c k" "Cache_Set env c k b w = (Ok (), w')"
    using Cache_Set_view [OF that(2,3)] that(1) upd by auto
  show "blob view c w' = blob view c w \<or> blob view c w' = (blob view c w)(k \<mapsto> b)"
    if "key_ok env c k" "Cache_Set env c k b w = (r, w')"
    using Cache_Set_view(1) [OF that] upd same by auto
  show "coherent view mv c w'" if "coherent view mv c w" "key_ok env c k" "Cache_Delete env c k w = (Ok (), w')"
    using Cache_Delete_view(2) [OF that(2,3)] that(1) by simp
  show "blob view c w' = blob view c w \<or> blob view c w' = (blob view c w)(k := None)"
    if "key_ok env c k" "Cache_Delete env c k w = (r, w')"
    using Cache_Delete_view(1) [OF that] upd same by auto
  show "blob view c w k = Some b" if "coherent view mv c w" "key_ok env c k" "Cache_Get env c k w = (Ok b, w')"
    using Cache_Get_view [OF that(2,3,1)] by simp
  show "coherent view mv c w' \<and> blob view c w' = blob view c w"
    if "coherent view mv c w" "key_ok env c k" "Cache_Get env c k w = (x, w')" for x
    using Cache_Get_view [OF that(2,3,1)] same by simp
qed

end
