(* ===== verification/Files_Db.thy ===== *)
theory Files_Db
  imports World
begin

text \<open>
  The \<^verbatim>\<open>files\<close> table and the queries of \<^verbatim>\<open>siphon/bundler/db.go\<close>. A row belongs to an app and either to
  the app's development files (\<^verbatim>\<open>submission_id\<close> null or empty) or to a submission. The SQL text is
  built with \<^verbatim>\<open>subClause\<close>, which splices the submission ID into the statement, so the model keeps the
  text and gives a meaning to exactly the two shapes the code intends; any other text goes to the
  parameter \<open>sql_other\<close>.

  The lemmas: what a lookup returns after each operation, that no operation touches the rows of
  another app or submission, that the unique index is kept, and that LIKE patterns of the shapes the
  code uses mean what the code intends. The locale \<open>file_index\<close> is the contract the handlers use.
\<close>

section \<open>SQL conditions\<close>

definition quote :: char where "quote = CHR 0x27"

definition dev_clause :: string where
  "dev_clause = ''(submission_id is null or submission_id='' @ [quote, quote] @ '')''"

definition subClause :: "string \<Rightarrow> string" where
  "subClause submissionID =
     (if submissionID \<noteq> [] then ''submission_id = '' @ [quote] @ submissionID @ [quote] else dev_clause)"

text \<open>The meaning of a condition on \<^verbatim>\<open>submission_id\<close>: the development condition, or a comparison with
  one string literal. A text that is neither is left to the server.\<close>

definition sql_literal :: "string \<Rightarrow> string option" where
  "sql_literal t =
     (if prefix ''submission_id = '' t \<and> length t \<ge> 18 \<and> t ! 16 = quote \<and> last t = quote \<and>
         quote \<notin> set (butlast (drop 17 t))
      then Some (butlast (drop 17 t)) else None)"

definition sql_clause :: "('s, 'm) env \<Rightarrow> string \<Rightarrow> (row \<Rightarrow> bool) option" where
  "sql_clause env t =
     (if t = dev_clause then Some (\<lambda>r. r_sub r = None \<or> r_sub r = Some [])
      else case sql_literal t of
        Some lit \<Rightarrow> Some (\<lambda>r. r_sub r = Some lit)
      | None \<Rightarrow> sql_other env t)"

text \<open>\<^verbatim>\<open>LIKE\<close>: \<^verbatim>\<open>%\<close> matches any text, \<^verbatim>\<open>_\<close> one character (a byte and its UTF-8 continuation bytes), and
  a backslash takes the next character literally.\<close>

definition utf8_cont :: "char \<Rightarrow> bool" where
  "utf8_cont c \<longleftrightarrow> 128 \<le> (of_char c :: nat) \<and> (of_char c :: nat) < 192"

function sql_like :: "string \<Rightarrow> string \<Rightarrow> bool" where
  "sql_like [] s = (s = [])"
| "sql_like (p # ps) s =
     (if p = CHR ''%'' then sql_like ps s \<or> (case s of [] \<Rightarrow> False | _ # s' \<Rightarrow> sql_like (p # ps) s')
      else if p = CHR ''_'' then (case s of [] \<Rightarrow> False | _ # s' \<Rightarrow> sql_like ps (dropWhile utf8_cont s'))
      else if p = CHR 0x5C then
        (case ps of [] \<Rightarrow> False
         | q # qs \<Rightarrow> (case s of [] \<Rightarrow> False | c # s' \<Rightarrow> c = q \<and> sql_like qs s'))
      else (case s of [] \<Rightarrow> False | c # s' \<Rightarrow> c = p \<and> sql_like ps s'))"
  by pat_completeness auto
termination
  by (relation "measures [\<lambda>(p, s). length p, \<lambda>(p, s). length s]") auto

definition like_plain :: "string \<Rightarrow> bool" where
  "like_plain p \<longleftrightarrow> CHR ''%'' \<notin> set p \<and> CHR ''_'' \<notin> set p \<and> CHR 0x5C \<notin> set p"

declare sql_like.simps(2) [simp del]

lemma sql_like_plain: "like_plain p \<Longrightarrow> sql_like p s \<longleftrightarrow> s = p"
proof (induction p arbitrary: s)
  case (Cons c p)
  then have "sql_like p t \<longleftrightarrow> t = p" for t by (simp add: like_plain_def)
  then show ?case
    using Cons.prems by (subst sql_like.simps(2)) (auto simp: like_plain_def split: list.splits)
qed simp

lemma sql_like_percent: "sql_like (CHR ''%'' # p) s \<longleftrightarrow> (\<exists>a b. s = a @ b \<and> sql_like p b)"
proof (induction s)
  case Nil
  then show ?case by (subst sql_like.simps(2)) simp
next
  case (Cons c s)
  have "(\<exists>a b. c # s = a @ b \<and> sql_like p b) \<longleftrightarrow> sql_like p (c # s) \<or> (\<exists>a b. s = a @ b \<and> sql_like p b)"
    by (metis Cons_eq_append_conv append_Cons append_Nil)
  then show ?case using Cons by (subst sql_like.simps(2)) simp
qed

lemma sql_like_any: "sql_like ''%'' s"
  using sql_like_percent [of "[]" s] by simp

lemma sql_like_suffix: "like_plain p \<Longrightarrow> sql_like (CHR ''%'' # p) s \<longleftrightarrow> suffix p s"
  by (simp add: sql_like_percent sql_like_plain suffix_def)

section \<open>Queries\<close>

definition nil_rows :: string where
  "nil_rows = ''invalid memory address or nil pointer dereference''"

text \<open>The unique index \<^verbatim>\<open>files_unique_name_1\<close>: the one an INSERT with a submission ID can violate.\<close>

definition index_taken :: "string \<Rightarrow> string \<Rightarrow> string \<Rightarrow> row list \<Rightarrow> bool" where
  "index_taken app sub name rows \<longleftrightarrow>
     (\<exists>r \<in> set rows. r_app r = app \<and> r_sub r = Some sub \<and> r_name r = name)"

text \<open>\<^verbatim>\<open>rows.Close()\<close> comes before the check of \<^verbatim>\<open>err\<close>, and \<^verbatim>\<open>rows\<close> is nil when the query failed.\<close>

definition AddFile ::
  "string \<Rightarrow> string \<Rightarrow> string \<Rightarrow> string \<Rightarrow> ('s, 'm) world \<Rightarrow> unit res \<times> ('s, 'm) world" where
  "AddFile appID submissionID name hash w =
     (let (q, w) = db_next w;
          new = \<lparr>r_app = appID, r_sub = Some submissionID, r_name = name, r_hash = hash\<rparr>;
          w1 = w\<lparr>w_rows := w_rows w @ [new]\<rparr> in
      if index_taken appID submissionID name (w_rows w) then (Panic nil_rows, w)
      else case q of
        Q_fail e \<Rightarrow> (Panic nil_rows, w)
      | Q_lost e \<Rightarrow> (Panic nil_rows, w1)
      | _ \<Rightarrow> (Ok (), w1))"

definition file_match :: "(row \<Rightarrow> bool) \<Rightarrow> string \<Rightarrow> string \<Rightarrow> row \<Rightarrow> bool" where
  "file_match cl appID name r \<longleftrightarrow> r_app r = appID \<and> cl r \<and> r_name r = name"

text \<open>A statement that changes the rows \<open>f\<close>, with the condition on the submission in its text.\<close>

definition exec_where ::
  "('s, 'm) env \<Rightarrow> string \<Rightarrow> ((row \<Rightarrow> bool) \<Rightarrow> row list \<Rightarrow> row list) \<Rightarrow> ('s, 'm) world \<Rightarrow>
   unit res \<times> ('s, 'm) world" where
  "exec_where env submissionID f w =
     (let (q, w) = db_next w in
      case sql_clause env (subClause submissionID) of
        None \<Rightarrow> (Panic nil_rows, w)
      | Some cl \<Rightarrow>
          let w1 = w\<lparr>w_rows := f cl (w_rows w)\<rparr> in
          (case q of
             Q_fail e \<Rightarrow> (Panic nil_rows, w)
           | Q_lost e \<Rightarrow> (Panic nil_rows, w1)
           | _ \<Rightarrow> (Ok (), w1)))"

definition UpdateFile ::
  "('s, 'm) env \<Rightarrow> string \<Rightarrow> string \<Rightarrow> string \<Rightarrow> string \<Rightarrow> ('s, 'm) world \<Rightarrow> unit res \<times> ('s, 'm) world" where
  "UpdateFile env appID submissionID name hash w =
     exec_where env submissionID
       (\<lambda>cl. map (\<lambda>r. if file_match cl appID name r then r\<lparr>r_hash := hash\<rparr> else r)) w"

definition DeleteFile ::
  "('s, 'm) env \<Rightarrow> string \<Rightarrow> string \<Rightarrow> string \<Rightarrow> ('s, 'm) world \<Rightarrow> unit res \<times> ('s, 'm) world" where
  "DeleteFile env appID submissionID name w =
     exec_where env submissionID (\<lambda>cl. filter (\<lambda>r. \<not> file_match cl appID name r)) w"

text \<open>The row loop of the SELECTs: each row is assigned into the map, later rows over earlier ones.\<close>

definition scan_rows :: "row list \<Rightarrow> gomap" where
  "scan_rows rs = gm_of (map (\<lambda>r. (r_name r, r_hash r)) rs)"

definition select_error :: error where
  "select_error = Errorf ''Failed to retrieve current app files.''"

definition select_files ::
  "('s, 'm) env \<Rightarrow> string \<Rightarrow> string \<Rightarrow> (string \<Rightarrow> bool) \<Rightarrow> ('s, 'm) world \<Rightarrow> gomap res \<times> ('s, 'm) world" where
  "select_files env appID submissionID ok w =
     (let (q, w) = db_next w in
      case sql_clause env (subClause submissionID) of
        None \<Rightarrow> (Fail select_error, w)
      | Some cl \<Rightarrow>
          let rs = filter (\<lambda>r. r_app r = appID \<and> cl r \<and> ok (r_name r)) (w_rows w) in
          (case q of
             Q_fail e \<Rightarrow> (Fail select_error, w)
           | Q_lost e \<Rightarrow> (Fail select_error, w)
           | Q_cut n \<Rightarrow> (Ok (scan_rows (take n rs)), w)
           | Q_ok \<Rightarrow> (Ok (scan_rows rs), w)))"

definition GetFilteredFiles ::
  "('s, 'm) env \<Rightarrow> string \<Rightarrow> string \<Rightarrow> string \<Rightarrow> ('s, 'm) world \<Rightarrow> gomap res \<times> ('s, 'm) world" where
  "GetFilteredFiles env appID submissionID like w =
     (let like = (if like = [] then ''%'' else like) in
      select_files env appID submissionID (sql_like like) w)"

definition GetFiles ::
  "('s, 'm) env \<Rightarrow> string \<Rightarrow> string \<Rightarrow> ('s, 'm) world \<Rightarrow> gomap res \<times> ('s, 'm) world" where
  "GetFiles env appID submissionID w = GetFilteredFiles env appID submissionID [] w"

definition GetFile ::
  "('s, 'm) env \<Rightarrow> string \<Rightarrow> string \<Rightarrow> string \<Rightarrow> ('s, 'm) world \<Rightarrow> string res \<times> ('s, 'm) world" where
  "GetFile env appID submissionID name w =
     andThen (GetFilteredFiles env appID submissionID name w) (\<lambda>files w.
       case map_of files name of
         None \<Rightarrow> (Fail (Errorf (''[GetFile] not found: '' @ name)), w)
       | Some hash \<Rightarrow> (Ok hash, w))"

text \<open>With no patterns the statement ends in \<^verbatim>\<open>name LIKE\<close> and nothing after it: a syntax error.\<close>

definition GetSliceFilteredFiles ::
  "('s, 'm) env \<Rightarrow> string \<Rightarrow> string \<Rightarrow> string list \<Rightarrow> ('s, 'm) world \<Rightarrow> gomap res \<times> ('s, 'm) world" where
  "GetSliceFilteredFiles env appID submissionID like w =
     (if like = [] then (Fail select_error, snd (db_next w))
      else select_files env appID submissionID (\<lambda>n. \<exists>l \<in> set like. sql_like l n) w)"

text \<open>\<^verbatim>\<open>resourceExists\<close>: a row count; the column is \<^verbatim>\<open>app_id\<close> or \<^verbatim>\<open>submission_id\<close>.\<close>

datatype column = App_id | Submission_id

fun column_is :: "column \<Rightarrow> string \<Rightarrow> row \<Rightarrow> bool" where
  "column_is App_id v r = (r_app r = v)"
| "column_is Submission_id v r = (r_sub r = Some v)"

fun column_name :: "column \<Rightarrow> string" where
  "column_name App_id = ''app_id''"
| "column_name Submission_id = ''submission_id''"

definition exists_error :: "column \<Rightarrow> string \<Rightarrow> error" where
  "exists_error col v =
     Errorf (''Failed to check for '' @ [quote] @ column_name col @ [quote] @ '' existence: '' @ v)"

text \<open>A cut-off result has no row to scan, which is the scan error of the source.\<close>

definition resourceExists ::
  "column \<Rightarrow> string \<Rightarrow> ('s, 'm) world \<Rightarrow> bool res \<times> ('s, 'm) world" where
  "resourceExists col resourceID w =
     (let (q, w) = db_next w in
      case q of
        Q_fail e \<Rightarrow> (Fail (exists_error col resourceID), w)
      | Q_lost e \<Rightarrow> (Fail (exists_error col resourceID), w)
      | Q_cut 0 \<Rightarrow> (Fail (exists_error col resourceID), w)
      | _ \<Rightarrow> (Ok (length (filter (column_is col resourceID) (w_rows w)) > 0), w))"

definition AppExists :: "string \<Rightarrow> ('s, 'm) world \<Rightarrow> bool res \<times> ('s, 'm) world" where
  "AppExists appID w = resourceExists App_id appID w"

definition SubmissionExists :: "string \<Rightarrow> ('s, 'm) world \<Rightarrow> bool res \<times> ('s, 'm) world" where
  "SubmissionExists submissionID w = resourceExists Submission_id submissionID w"

definition snapshot_error :: error where
  "snapshot_error = Errorf ''Problem retrieving files for the snapshot''"

definition MakeSnapshot ::
  "('s, 'm) env \<Rightarrow> string \<Rightarrow> string \<Rightarrow> ('s, 'm) world \<Rightarrow> unit res \<times> ('s, 'm) world" where
  "MakeSnapshot env appID submissionID w =
     on (GetFiles env appID [] w) (\<lambda>e w. (Fail snapshot_error, w)) (\<lambda>files w.
       for_each (\<lambda>(name, hash) w.
           on (AddFile appID submissionID name hash w) (\<lambda>e w. (Fail snapshot_error, w)) (\<lambda>_ w. (Ok (), w)))
         (map_range env files) w)"

section \<open>Namespaces\<close>

text \<open>The rows the code means by (app, submission), with the empty submission for development files.\<close>

definition sub_is :: "string \<Rightarrow> row \<Rightarrow> bool" where
  "sub_is sub r \<longleftrightarrow> (if sub = [] then r_sub r = None \<or> r_sub r = Some [] else r_sub r = Some sub)"

definition in_ns :: "string \<Rightarrow> string \<Rightarrow> row \<Rightarrow> bool" where
  "in_ns app sub r \<longleftrightarrow> r_app r = app \<and> sub_is sub r"

definition ns_map :: "string \<Rightarrow> string \<Rightarrow> row list \<Rightarrow> string \<Rightarrow> string option" where
  "ns_map app sub rows = map_of (scan_rows (filter (in_ns app sub) rows))"

text \<open>The table as the bundler itself fills it: every row names its submission (the empty one for
  development files) and the unique index holds.\<close>

definition row_key :: "row \<Rightarrow> string \<times> string option \<times> string" where
  "row_key r = (r_app r, r_sub r, r_name r)"

definition rows_ok :: "row list \<Rightarrow> bool" where
  "rows_ok rows \<longleftrightarrow> (\<forall>r \<in> set rows. r_sub r \<noteq> None) \<and> distinct (map row_key rows)"

text \<open>No coming SELECT is cut off.\<close>

definition reads_complete :: "('s, 'm) world \<Rightarrow> bool" where
  "reads_complete w \<longleftrightarrow> (\<forall>n. Q_cut n \<notin> set (w_dbq w))"

lemma sql_literal_subClause: "quote \<notin> set s \<Longrightarrow> s \<noteq> [] \<Longrightarrow> sql_literal (subClause s) = Some s"
  by (simp add: sql_literal_def subClause_def butlast_append)

lemma sql_clause_subClause:
  assumes "quote \<notin> set s"
  shows "sql_clause env (subClause s) = Some (sub_is s)"
proof (cases "s = []")
  case True
  then show ?thesis by (simp add: sql_clause_def subClause_def sub_is_def fun_eq_iff)
next
  case False
  then have "subClause s \<noteq> dev_clause" by (simp add: subClause_def dev_clause_def)
  then show ?thesis using False assms by (simp add: sql_clause_def sql_literal_subClause sub_is_def fun_eq_iff)
qed

lemma scan_rows_cong:
  "map (\<lambda>r. (r_name r, r_hash r)) rs = map (\<lambda>r. (r_name r, r_hash r)) rs' \<Longrightarrow> scan_rows rs = scan_rows rs'"
  by (simp add: scan_rows_def)

lemma gm_ok_scan [simp]: "gm_ok (scan_rows rs)"
  by (simp add: scan_rows_def)

lemma ns_names_distinct:
  assumes "rows_ok rows"
  shows "distinct (map r_name (filter (in_ns app sub) rows))"
proof -
  have d: "distinct (map row_key (filter (in_ns app sub) rows))"
    using assms by (simp add: rows_ok_def distinct_map_filter)
  have "inj_on r_name (set (filter (in_ns app sub) rows))"
  proof (rule inj_onI)
    fix x y assume xy: "x \<in> set (filter (in_ns app sub) rows)" "y \<in> set (filter (in_ns app sub) rows)"
      and n: "r_name x = r_name y"
    then have "row_key x = row_key y"
      using assms by (auto simp: row_key_def in_ns_def sub_is_def rows_ok_def split: if_splits)
    then show "x = y" using d xy by (metis distinct_map inj_onD)
  qed
  then show ?thesis using d by (simp add: distinct_map)
qed

lemma in_ns_hash [simp]: "in_ns app sub (r\<lparr>r_hash := h\<rparr>) = in_ns app sub r"
  by (simp add: in_ns_def sub_is_def)

text \<open>In a table that satisfies the index, a lookup is membership.\<close>

lemma ns_map_Some:
  assumes "rows_ok rows"
  shows "ns_map app sub rows n = Some h \<longleftrightarrow> (\<exists>r \<in> set rows. in_ns app sub r \<and> r_name r = n \<and> r_hash r = h)"
proof -
  let ?ps = "map (\<lambda>r. (r_name r, r_hash r)) (filter (in_ns app sub) rows)"
  have d: "gm_ok ?ps" using ns_names_distinct [OF assms] by (simp add: comp_def)
  then have "map_of (rev ?ps) n = Some h \<longleftrightarrow> (n, h) \<in> set ?ps"
    by (simp add: map_of_rev_distinct)
  then show ?thesis by (auto simp: ns_map_def scan_rows_def map_of_gm_of rev_map)
qed

lemma ns_map_None:
  assumes "rows_ok rows"
  shows "ns_map app sub rows n = None \<longleftrightarrow> (\<forall>r \<in> set rows. in_ns app sub r \<longrightarrow> r_name r \<noteq> n)"
  using ns_map_Some [OF assms, of app sub n] by (metis not_None_eq)

lemma ns_map_eqI:
  assumes "rows_ok rows" and "rows_ok rows'"
    and "\<And>h. (\<exists>r \<in> set rows. in_ns app sub r \<and> r_name r = n \<and> r_hash r = h) \<longleftrightarrow>
             (\<exists>r \<in> set rows'. in_ns app sub r \<and> r_name r = n \<and> r_hash r = h)"
  shows "ns_map app sub rows n = ns_map app sub rows' n"
  using assms by (metis ns_map_Some not_None_eq)

section \<open>What the operations do\<close>

text \<open>A database call touches the table and the script of outcomes only, and uses up at most one
  outcome.\<close>

definition db_frame :: "('s, 'm) world \<Rightarrow> ('s, 'm) world \<Rightarrow> bool" where
  "db_frame w w' \<longleftrightarrow> w' = w\<lparr>w_rows := w_rows w', w_dbq := w_dbq w'\<rparr> \<and> set (w_dbq w') \<subseteq> set (w_dbq w)"

lemma db_frameD:
  assumes "db_frame w w'"
  shows "w_s3 w' = w_s3 w" "w_mc w' = w_mc w" "w_fs w' = w_fs w" "w_rsp w' = w_rsp w" "w_ctx w' = w_ctx w"
    "w_web w' = w_web w" "w_puts w' = w_puts w" "w_amqp w' = w_amqp w" "w_msgs w' = w_msgs w"
    "reads_complete w \<Longrightarrow> reads_complete w'"
proof -
  obtain rs qs where w': "w' = w\<lparr>w_rows := rs, w_dbq := qs\<rparr>" and "set (w_dbq w') \<subseteq> set (w_dbq w)"
    using assms by (auto simp: db_frame_def)
  then show "reads_complete w \<Longrightarrow> reads_complete w'" by (auto simp: reads_complete_def)
  show "w_s3 w' = w_s3 w" "w_mc w' = w_mc w" "w_fs w' = w_fs w" "w_rsp w' = w_rsp w" "w_ctx w' = w_ctx w"
    "w_web w' = w_web w" "w_puts w' = w_puts w" "w_amqp w' = w_amqp w" "w_msgs w' = w_msgs w"
    by (simp_all add: w')
qed

lemma db_frame_upd:
  "db_next w = (q, v) \<Longrightarrow> db_frame w v" "db_next w = (q, v) \<Longrightarrow> db_frame w (v\<lparr>w_rows := rs\<rparr>)"
  by (auto simp: db_frame_def db_next_def dest: list.set_sel(2) split: list.splits)

lemma db_next_rows [simp]: "db_next w = (q, v) \<Longrightarrow> w_rows v = w_rows w"
  by (auto simp: db_next_def split: list.splits)

lemma AddFile_frame [frame]: "db_frame w (snd (AddFile app sub n h w))"
  by (auto simp: AddFile_def Let_def intro: db_frame_upd split: prod.split db_outcome.split)

lemma exec_where_frame [frame]: "db_frame w (snd (exec_where env sub f w))"
  by (auto simp: exec_where_def Let_def intro: db_frame_upd split: prod.split db_outcome.split option.split)

lemma UpdateFile_frame [frame]: "db_frame w (snd (UpdateFile env app sub n h w))"
  unfolding UpdateFile_def by (rule exec_where_frame)

lemma DeleteFile_frame [frame]: "db_frame w (snd (DeleteFile env app sub n w))"
  unfolding DeleteFile_def by (rule exec_where_frame)

lemma select_files_frame [frame]:
  "db_frame w (snd (select_files env app sub ok w)) \<and> w_rows (snd (select_files env app sub ok w)) = w_rows w"
  by (auto simp: select_files_def Let_def intro: db_frame_upd split: prod.split db_outcome.split option.split)

lemma GetFiles_frame [frame]:
  "db_frame w (snd (GetFiles env app sub w)) \<and> w_rows (snd (GetFiles env app sub w)) = w_rows w"
  by (simp add: GetFiles_def GetFilteredFiles_def select_files_frame)

lemma GetFile_frame [frame]:
  "db_frame w (snd (GetFile env app sub n w)) \<and> w_rows (snd (GetFile env app sub n w)) = w_rows w"
  unfolding GetFile_def GetFilteredFiles_def Let_def
  by (rule andThen_keeps) (auto simp: select_files_frame split: option.split)

lemma select_files_no_panic: "select_files env app sub ok w \<noteq> (Panic p, w')"
  by (auto simp: select_files_def Let_def split: prod.split db_outcome.split option.split)

text \<open>The outcome of each operation on the rows, whatever the script says: nothing, or its effect.\<close>

lemma AddFile_cases:
  assumes "AddFile app sub n h w = (r, w')"
  obtains "w_rows w' = w_rows w" "\<exists>p. r = Panic p"
  | "w_rows w' = w_rows w @ [\<lparr>r_app = app, r_sub = Some sub, r_name = n, r_hash = h\<rparr>]"
    "\<not> index_taken app sub n (w_rows w)" "r = Ok () \<or> r = Panic nil_rows"
  using assms by (cases "db_next w"; cases "fst (db_next w)")
    (auto simp: AddFile_def Let_def split: if_splits)

lemma exec_where_cases:
  assumes "exec_where env sub f w = (r, w')" and "quote \<notin> set sub"
  obtains "w_rows w' = w_rows w" "\<exists>p. r = Panic p"
  | "w_rows w' = f (sub_is sub) (w_rows w)"
    "r = Ok () \<or> r = Panic nil_rows"
  using assms by (cases "db_next w"; cases "fst (db_next w)")
    (auto simp: exec_where_def Let_def sql_clause_subClause split: if_splits)

lemma file_match_in_ns:
  "file_match (sub_is sub) app n r \<longleftrightarrow> in_ns app sub r \<and> r_name r = n"
  by (auto simp: file_match_def in_ns_def)

lemma map_update_hash_keys: "map row_key (map (\<lambda>r. if P r then r\<lparr>r_hash := h\<rparr> else r) rs) = map row_key rs"
  by (simp add: row_key_def)

text \<open>The index invariant is kept by every operation on every outcome.\<close>

lemma AddFile_rows_ok:
  assumes "AddFile app sub n h w = (r, w')" and "rows_ok (w_rows w)"
  shows "rows_ok (w_rows w')"
  using assms by (elim AddFile_cases) (auto simp: rows_ok_def row_key_def index_taken_def)

lemma UpdateFile_rows_ok:
  assumes "UpdateFile env app sub n h w = (r, w')" and "quote \<notin> set sub" and "rows_ok (w_rows w)"
  shows "rows_ok (w_rows w')"
  using assms(1) unfolding UpdateFile_def
  by (rule exec_where_cases [OF _ assms(2)])
    (use assms(3) in \<open>auto simp: rows_ok_def map_update_hash_keys simp del: map_map\<close>)

lemma DeleteFile_rows_ok:
  assumes "DeleteFile env app sub n w = (r, w')" and "quote \<notin> set sub" and "rows_ok (w_rows w)"
  shows "rows_ok (w_rows w')"
  using assms(1) unfolding DeleteFile_def
  by (rule exec_where_cases [OF _ assms(2)])
    (use assms(3) in \<open>auto simp: rows_ok_def distinct_map_filter\<close>)

text \<open>What a lookup in the same namespace returns afterwards.\<close>

lemma ns_map_append:
  "ns_map app sub (rows @ [r]) =
     (if in_ns app sub r then (ns_map app sub rows)(r_name r \<mapsto> r_hash r) else ns_map app sub rows)"
  by (simp add: ns_map_def scan_rows_def map_of_gm_of)

lemma AddFile_lookup:
  assumes "AddFile app sub n h w = (Ok (), w')" and "rows_ok (w_rows w)"
  shows "ns_map app sub (w_rows w) n = None"
    and "ns_map app sub (w_rows w') = (ns_map app sub (w_rows w))(n \<mapsto> h)"
  using assms
  by (auto elim!: AddFile_cases simp: ns_map_None index_taken_def in_ns_def sub_is_def rows_ok_def ns_map_append
      split: if_splits)

lemma UpdateFile_lookup:
  assumes "UpdateFile env app sub n h w = (Ok (), w')" and "quote \<notin> set sub" and "rows_ok (w_rows w)"
  shows "ns_map app sub (w_rows w') =
    (if ns_map app sub (w_rows w) n = None then ns_map app sub (w_rows w)
     else (ns_map app sub (w_rows w))(n \<mapsto> h))"
proof -
  define u where "u r = (if in_ns app sub r \<and> r_name r = n then r\<lparr>r_hash := h\<rparr> else r)" for r :: row
  have w': "w_rows w' = map u (w_rows w)"
    using assms(1) unfolding UpdateFile_def
    by (rule exec_where_cases [OF _ assms(2)]) (simp_all add: file_match_in_ns u_def [abs_def])
  have ok': "rows_ok (w_rows w')" by (rule UpdateFile_rows_ok [OF assms])
  have in_u: "in_ns app sub (u r) = in_ns app sub r" for r by (simp add: u_def in_ns_def sub_is_def)
  show ?thesis
  proof
    fix m
    show "ns_map app sub (w_rows w') m = (if ns_map app sub (w_rows w) n = None then ns_map app sub (w_rows w)
        else (ns_map app sub (w_rows w))(n \<mapsto> h)) m"
    proof (cases "m = n \<and> ns_map app sub (w_rows w) n \<noteq> None")
      case True
      then obtain r where "r \<in> set (w_rows w)" "in_ns app sub r" "r_name r = n"
        using ns_map_None [OF assms(3), of app sub n] by auto
      then have "u r \<in> set (w_rows w') \<and> in_ns app sub (u r) \<and> r_name (u r) = n \<and> r_hash (u r) = h"
        using in_u [of r] by (auto simp: w' u_def)
      then have "ns_map app sub (w_rows w') n = Some h"
        unfolding ns_map_Some [OF ok'] by blast
      then show ?thesis using True by auto
    next
      case False
      have keep: "u r = r" if "r \<in> set (w_rows w)" "in_ns app sub r" "r_name r = m" for r
        using False ns_map_None [OF assms(3), of app sub n] that by (auto simp: u_def)
      have nm: "r_name (u r) = r_name r" for r by (simp add: u_def)
      have "ns_map app sub (w_rows w') m = ns_map app sub (w_rows w) m"
      proof (rule ns_map_eqI [OF ok' assms(3)])
        fix k
        have "(\<exists>r\<in>set (w_rows w'). in_ns app sub r \<and> r_name r = m \<and> r_hash r = k) \<longleftrightarrow>
            (\<exists>r\<in>set (w_rows w). in_ns app sub r \<and> r_name r = m \<and> r_hash (u r) = k)"
          unfolding w' set_map bex_simps in_u nm ..
        also have "\<dots> \<longleftrightarrow> (\<exists>r\<in>set (w_rows w). in_ns app sub r \<and> r_name r = m \<and> r_hash r = k)"
          using keep by metis
        finally show "(\<exists>r\<in>set (w_rows w'). in_ns app sub r \<and> r_name r = m \<and> r_hash r = k) \<longleftrightarrow>
            (\<exists>r\<in>set (w_rows w). in_ns app sub r \<and> r_name r = m \<and> r_hash r = k)" .
      qed
      then show ?thesis using False by auto
    qed
  qed
qed

lemma DeleteFile_lookup:
  assumes "DeleteFile env app sub n w = (Ok (), w')" and "quote \<notin> set sub" and "rows_ok (w_rows w)"
  shows "ns_map app sub (w_rows w') = (ns_map app sub (w_rows w))(n := None)"
proof -
  have w': "w_rows w' = filter (\<lambda>r. \<not> (in_ns app sub r \<and> r_name r = n)) (w_rows w)"
    using assms(1) unfolding DeleteFile_def
    by (rule exec_where_cases [OF _ assms(2)]) (simp_all add: file_match_in_ns)
  have ok': "rows_ok (w_rows w')" by (rule DeleteFile_rows_ok [OF assms])
  show ?thesis
  proof
    fix m
    show "ns_map app sub (w_rows w') m = ((ns_map app sub (w_rows w))(n := None)) m"
    proof (cases "m = n")
      case True
      have "ns_map app sub (w_rows w') n = None" unfolding ns_map_None [OF ok'] by (simp add: w')
      then show ?thesis using True by simp
    next
      case False
      have "ns_map app sub (w_rows w') m = ns_map app sub (w_rows w) m"
        by (rule ns_map_eqI [OF ok' assms(3)]) (use False in \<open>auto simp: w'\<close>)
      then show ?thesis using False by simp
    qed
  qed
qed

text \<open>Rows outside the namespace are left alone on every outcome.\<close>

definition other_rows :: "string \<Rightarrow> string \<Rightarrow> row list \<Rightarrow> row list" where
  "other_rows app sub rows = filter (\<lambda>r. \<not> in_ns app sub r) rows"

lemma ns_map_other_rows:
  assumes "(app', sub') \<noteq> (app, sub)" and "other_rows app sub rows = other_rows app sub rows'"
  shows "ns_map app' sub' rows = ns_map app' sub' rows'"
proof -
  have "in_ns app' sub' r \<Longrightarrow> \<not> in_ns app sub r" for r
    using assms(1) by (auto simp: in_ns_def sub_is_def split: if_splits)
  then have "filter (in_ns app' sub') rs = filter (in_ns app' sub') (other_rows app sub rs)" for rs
    by (auto simp: other_rows_def intro!: filter_cong)
  then show ?thesis using assms(2) by (metis ns_map_def)
qed

lemma AddFile_other:
  assumes "AddFile app sub n h w = (r, w')"
  shows "other_rows app sub (w_rows w') = other_rows app sub (w_rows w)"
  using assms by (elim AddFile_cases) (auto simp: other_rows_def in_ns_def sub_is_def)

lemma UpdateFile_other:
  assumes "UpdateFile env app sub n h w = (r, w')" and "quote \<notin> set sub"
  shows "other_rows app sub (w_rows w') = other_rows app sub (w_rows w)"
proof -
  have "other_rows app sub (map (\<lambda>r. if file_match (sub_is sub) app n r then r\<lparr>r_hash := h\<rparr> else r) rs) =
      other_rows app sub rs" for rs
    by (induction rs) (simp_all add: other_rows_def file_match_in_ns)
  then show ?thesis
    using assms(1) unfolding UpdateFile_def
    by (elim exec_where_cases [OF _ assms(2)]) simp_all
qed

lemma DeleteFile_other:
  assumes "DeleteFile env app sub n w = (r, w')" and "quote \<notin> set sub"
  shows "other_rows app sub (w_rows w') = other_rows app sub (w_rows w)"
  using assms(1) unfolding DeleteFile_def other_rows_def
  by (elim exec_where_cases [OF _ assms(2)]) (auto simp: file_match_in_ns intro: filter_cong)

text \<open>Reading.\<close>

lemma db_next_outcome: "db_next w = (q, v) \<Longrightarrow> q = Q_ok \<or> q \<in> set (w_dbq w)"
  by (cases "w_dbq w") (auto simp: db_next_def)

lemma select_files_Ok:
  assumes "select_files env app sub p w = (Ok m, w')" and "quote \<notin> set sub" and "reads_complete w"
  shows "m = scan_rows (filter (\<lambda>r. in_ns app sub r \<and> p (r_name r)) (w_rows w))"
proof -
  obtain q v where qv: "db_next w = (q, v)" by (cases "db_next w")
  have "q \<noteq> Q_cut k" for k
    using db_next_outcome [OF qv] assms(3) by (auto simp: reads_complete_def)
  then have "m = scan_rows (filter (\<lambda>r. r_app r = app \<and> sub_is sub r \<and> p (r_name r)) (w_rows w))"
    using assms(1) qv by (cases q) (auto simp add: select_files_def sql_clause_subClause [OF assms(2)])
  then show ?thesis by (simp add: in_ns_def conj_assoc)
qed

lemma GetFiles_Ok:
  assumes "GetFiles env app sub w = (Ok m, w')" and "quote \<notin> set sub" and "reads_complete w"
  shows "map_of m = ns_map app sub (w_rows w)" and "gm_ok m"
  using select_files_Ok [OF assms(1) [unfolded GetFiles_def GetFilteredFiles_def Let_def] assms(2,3)]
  by (simp_all add: sql_like_any ns_map_def)

lemma GetFile_Ok:
  assumes "GetFile env app sub n w = (Ok h, w')" and "quote \<notin> set sub" and "reads_complete w"
    and "like_plain n" and "n \<noteq> []"
  shows "ns_map app sub (w_rows w) n = Some h"
proof -
  obtain m v where sel: "select_files env app sub (sql_like n) w = (Ok m, v)" and "map_of m n = Some h"
    using assms(1,5) by (auto simp: GetFile_def GetFilteredFiles_def andThen_eq_Ok split: option.splits)
  moreover have "map (\<lambda>r. (r_name r, r_hash r)) (filter (\<lambda>r. in_ns app sub r \<and> r_name r = n) rs) =
      filter (\<lambda>(k, _). k = n) (map (\<lambda>r. (r_name r, r_hash r)) (filter (in_ns app sub) rs))" for rs
    by (induction rs) auto
  moreover have "map_of (rev (filter (\<lambda>(k, _). k = n) ps)) n = map_of (rev ps) n" for ps :: gomap
    by (induction ps rule: rev_induct) auto
  ultimately show ?thesis
    using select_files_Ok [OF sel assms(2,3)] sql_like_plain [OF assms(4)]
    by (simp add: ns_map_def scan_rows_def map_of_gm_of)
qed

section \<open>The contract\<close>

text \<open>
  What a handler relies on: \<open>look\<close> is the file listing of one namespace, and an operation that returns
  without error has had its effect. Inside the locale: a loop whose body ends in such an operation
  has applied it to every name, and additions, updates and removals together produce the listing
  they were computed for.
\<close>

locale file_index =
  fixes ok :: "'w \<Rightarrow> bool" and look :: "'w \<Rightarrow> string \<Rightarrow> string option"
    and add upd :: "string \<Rightarrow> string \<Rightarrow> 'w \<Rightarrow> unit res \<times> 'w"
    and del :: "string \<Rightarrow> 'w \<Rightarrow> unit res \<times> 'w"
    and getall :: "'w \<Rightarrow> gomap res \<times> 'w"
  assumes add_law: "ok w \<Longrightarrow> add n h w = (Ok (), w') \<Longrightarrow>
      ok w' \<and> look w n = None \<and> look w' = (look w)(n \<mapsto> h)"
    and upd_law: "ok w \<Longrightarrow> upd n h w = (Ok (), w') \<Longrightarrow>
      ok w' \<and> look w' = (if look w n = None then look w else (look w)(n \<mapsto> h))"
    and del_law: "ok w \<Longrightarrow> del n w = (Ok (), w') \<Longrightarrow> ok w' \<and> look w' = (look w)(n := None)"
    and get_law: "ok w \<Longrightarrow> getall w = (Ok m, w') \<Longrightarrow>
      ok w' \<and> look w' = look w \<and> map_of m = look w \<and> gm_ok m"
begin

lemma loop_add:
  assumes "for_each body ns w = (Ok u, w')" and "ok w"
    and "\<And>n v v'. n \<in> set ns \<Longrightarrow> ok v \<Longrightarrow> body n v = (Ok (), v') \<Longrightarrow>
           \<exists>x. ok x \<and> look x = look v \<and> add n (h n) x = (Ok (), v')"
  shows "ok w' \<and> look w' = (\<lambda>n. if n \<in> set ns then Some (h n) else look w n)"
proof -
  have "ok w' \<and> look w' = fold (\<lambda>n m. m(n \<mapsto> h n)) ns (look w)"
    by (rule for_each_fold [where I = ok and obs = look, OF assms(1,2)]) (metis assms(3) add_law)
  then show ?thesis by (simp add: fold_map_upd_key)
qed

lemma loop_upd:
  assumes "for_each body ns w = (Ok u, w')" and "ok w" and "\<And>n. n \<in> set ns \<Longrightarrow> look w n \<noteq> None"
    and "\<And>n v v'. n \<in> set ns \<Longrightarrow> ok v \<Longrightarrow> body n v = (Ok (), v') \<Longrightarrow>
           \<exists>x. ok x \<and> look x = look v \<and> upd n (h n) x = (Ok (), v')"
  shows "ok w' \<and> look w' = (\<lambda>n. if n \<in> set ns then Some (h n) else look w n)"
proof -
  have "(ok w' \<and> (\<forall>n \<in> set ns. look w' n \<noteq> None)) \<and> look w' = fold (\<lambda>n m. m(n \<mapsto> h n)) ns (look w)"
  proof (rule for_each_fold [OF assms(1)])
    fix n v v' assume n: "n \<in> set ns" and v: "ok v \<and> (\<forall>n \<in> set ns. look v n \<noteq> None)"
      and b: "body n v = (Ok (), v')"
    then obtain x where "ok x" "look x = look v" "upd n (h n) x = (Ok (), v')"
      using assms(4) by blast
    then show "(ok v' \<and> (\<forall>n \<in> set ns. look v' n \<noteq> None)) \<and> look v' = (look v)(n \<mapsto> h n)"
      using upd_law [of x n "h n" v'] n v by auto
  qed (use assms(2,3) in auto)
  then show ?thesis by (simp add: fold_map_upd_key)
qed

lemma loop_del:
  assumes "for_each body ns w = (Ok u, w')" and "ok w"
    and "\<And>n v v'. n \<in> set ns \<Longrightarrow> ok v \<Longrightarrow> body n v = (Ok (), v') \<Longrightarrow>
           \<exists>x. ok x \<and> look x = look v \<and> del n x = (Ok (), v')"
  shows "ok w' \<and> look w' = (\<lambda>n. if n \<in> set ns then None else look w n)"
proof -
  have "ok w' \<and> look w' = fold (\<lambda>n m. m(n := None)) ns (look w)"
    by (rule for_each_fold [where I = ok and obs = look, OF assms(1,2)]) (metis assms(3) del_law)
  then show ?thesis by (simp add: fold_map_del)
qed

end

definition db_ok :: "('s, 'm) world \<Rightarrow> bool" where
  "db_ok w \<longleftrightarrow> rows_ok (w_rows w) \<and> reads_complete w"

text \<open>The queries of \<^verbatim>\<open>db.go\<close> provide it for every namespace whose submission ID has no quote.\<close>

definition sub_id_ok :: "string \<Rightarrow> bool" where
  "sub_id_ok sub \<longleftrightarrow> quote \<notin> set sub"

lemma sub_id_ok_dev [simp]: "sub_id_ok []"
  by (simp add: sub_id_ok_def)

lemma db_frame_reads: "op = (r, w') \<Longrightarrow> db_frame w (snd op) \<Longrightarrow> reads_complete w \<Longrightarrow> reads_complete w'"
  by (auto dest: db_frameD)

lemma file_index_db:
  assumes "sub_id_ok sub"
  shows "file_index db_ok (\<lambda>w. ns_map app sub (w_rows w)) (AddFile app sub) (UpdateFile env app sub)
    (DeleteFile env app sub) (GetFiles env app sub)"
proof
  note s = assms [unfolded sub_id_ok_def]
  fix w w' :: "('a, 'b) world" and n h m
  assume "db_ok w"
  then have w: "rows_ok (w_rows w)" "reads_complete w" by (auto simp: db_ok_def)
  show "db_ok w' \<and> ns_map app sub (w_rows w) n = None \<and>
      ns_map app sub (w_rows w') = (ns_map app sub (w_rows w))(n \<mapsto> h)"
    if op: "AddFile app sub n h w = (Ok (), w')"
    using AddFile_lookup [OF op w(1)] AddFile_rows_ok [OF op w(1)]
      db_frame_reads [OF op AddFile_frame w(2)] by (simp add: db_ok_def)
  show "db_ok w' \<and> ns_map app sub (w_rows w') =
      (if ns_map app sub (w_rows w) n = None then ns_map app sub (w_rows w)
       else (ns_map app sub (w_rows w))(n \<mapsto> h))"
    if op: "UpdateFile env app sub n h w = (Ok (), w')"
    using UpdateFile_lookup [OF op s w(1)] UpdateFile_rows_ok [OF op s w(1)]
      db_frame_reads [OF op UpdateFile_frame w(2)] by (simp add: db_ok_def)
  show "db_ok w' \<and> ns_map app sub (w_rows w') = (ns_map app sub (w_rows w))(n := None)"
    if op: "DeleteFile env app sub n w = (Ok (), w')"
    using DeleteFile_lookup [OF op s w(1)] DeleteFile_rows_ok [OF op s w(1)]
      db_frame_reads [OF op DeleteFile_frame w(2)] by (simp add: db_ok_def)
  show "db_ok w' \<and> ns_map app sub (w_rows w') = ns_map app sub (w_rows w) \<and>
      map_of m = ns_map app sub (w_rows w) \<and> gm_ok m"
    if op: "GetFiles env app sub w = (Ok m, w')"
    using GetFiles_Ok [OF op s w(2)] GetFiles_frame [of w env app sub] w(1)
      db_frame_reads [OF op _ w(2)] by (simp add: db_ok_def op)
qed

interpretation dev_files: file_index db_ok "\<lambda>w. ns_map app [] (w_rows w)" "AddFile app []"
  "UpdateFile env app []" "DeleteFile env app []" "GetFiles env app []" for app env
  by (rule file_index_db) simp

end
