(* ===== verification/Packager.thy ===== *)
theory Packager
  imports Metadata Cache Files_Db
begin

text \<open>
  From the stored files to a bundle footer: \<^verbatim>\<open>FilesToTemp\<close> of \<^verbatim>\<open>siphon/bundler/utils.go\<close> and
  \<^verbatim>\<open>siphon/bundler/packager.go\<close>. The packager is a Python program run through \<^verbatim>\<open>bash -c\<close>; the parameter
  \<open>run_shell\<close> stands for what the command line does. The lemmas: the files are written inside the
  temporary directory only; the command line has nothing a shell would interpret beyond its words;
  what the cleanup can delete.
\<close>

section \<open>Files in a temporary directory\<close>

definition BufferLine :: "string \<Rightarrow> ('s, 'm) world \<Rightarrow> ('s, 'm) world" where
  "BufferLine msg w = http_write (''siphon: '' @ msg @ [CHR 0x0A]) w"

primrec FilterStringSlice :: "string list \<Rightarrow> (string \<Rightarrow> bool) \<Rightarrow> string list" where
  "FilterStringSlice [] f = []"
| "FilterStringSlice (s # slc) f = (if f s then s # FilterStringSlice slc f else FilterStringSlice slc f)"

definition Cleanup :: "string \<Rightarrow> ('s, 'm) world \<Rightarrow> ('s, 'm) world" where
  "Cleanup d w = fs_remove d w"

text \<open>Directories are made and the file is written without looking at the outcome: the condition after
  \<^verbatim>\<open>ioutil.WriteFile\<close> tests an \<^verbatim>\<open>err\<close> that is nil at that point.\<close>

definition put_file :: "string \<Rightarrow> bytes \<Rightarrow> ('s, 'm) world \<Rightarrow> ('s, 'm) world" where
  "put_file p b w =
     (let fs = snd (os_MkdirAll (w_fs w) (path_Dir p)) in
      w\<lparr>w_fs := (case os_WriteFile fs p b of Inl _ \<Rightarrow> fs | Inr fs \<Rightarrow> fs)\<rparr>)"

definition archive_content :: "Archive option \<Rightarrow> string \<Rightarrow> fsys \<Rightarrow> bytes option" where
  "archive_content archive name fs =
     (case archive of None \<Rightarrow> None | Some a \<Rightarrow> (case GetContent a name fs of Inl _ \<Rightarrow> None | Inr b \<Rightarrow> Some b))"

definition file_to_temp ::
  "('s, 'm) env \<Rightarrow> Archive option \<Rightarrow> Cache \<Rightarrow> string \<Rightarrow> string \<times> string \<Rightarrow> ('s, 'm) world \<Rightarrow> unit res \<times> ('s, 'm) world" where
  "file_to_temp env archive cache d e w =
     (let (name, hash) = e in
      on (case archive_content archive name (w_fs w) of Some fb \<Rightarrow> (Ok fb, w) | None \<Rightarrow> Cache_Get env cache hash w)
        (\<lambda>e w. (Fail e, Cleanup d w))
        (\<lambda>fb w. (Ok (), put_file (path_Join [d, name]) fb w)))"

definition FilesToTemp ::
  "('s, 'm) env \<Rightarrow> gomap \<Rightarrow> Archive option \<Rightarrow> Cache \<Rightarrow> ('s, 'm) world \<Rightarrow> string res \<times> ('s, 'm) world" where
  "FilesToTemp env files archive cache w =
     or_default [] (TempDir env ''project-path'' w) (\<lambda>d w.
       andThen (for_each (file_to_temp env archive cache d) (map_range env files) w) (\<lambda>_ w. (Ok d, w)))"

section \<open>The packager\<close>

record FooterPath =
  fp_IOS :: string
  fp_Android :: string

definition tmp_marker :: string where "tmp_marker = ''siphon-packager-tmp-''"

definition CleanupFooters :: "FooterPath \<Rightarrow> ('s, 'm) world \<Rightarrow> ('s, 'm) world" where
  "CleanupFooters f w =
     (if fp_IOS f \<noteq> [] \<and> sublist tmp_marker (fp_IOS f) then
        let d = path_Dir (fp_IOS f) in
        if \<not> sublist tmp_marker d then w else fs_remove d w
      else if fp_Android f \<noteq> [] then
        let d = path_Dir (fp_Android f) in
        if \<not> sublist tmp_marker (fp_Android f) then w else fs_remove d w
      else w)"

definition packager_command :: "string \<Rightarrow> string \<Rightarrow> string" where
  "packager_command projectPath baseVersion =
     ''source $NVM_DIR/nvm.sh && '' @ ''siphon-packager.py --footer --project-path '' @ projectPath @
     '' --base-version '' @ baseVersion @ '' --minify''"

definition packager ::
  "('s, 'm) env \<Rightarrow> string \<Rightarrow> string \<Rightarrow> ('s, 'm) world \<Rightarrow> bytes res \<times> ('s, 'm) world" where
  "packager env projectPath baseVersion w =
     (case run_shell env (packager_command projectPath baseVersion) (w_fs w) of
        ((Some e, out, err), fs) \<Rightarrow> (Fail (Errorf err), w\<lparr>w_fs := fs\<rparr>)
      | ((None, out, err), fs) \<Rightarrow> (Ok out, w\<lparr>w_fs := fs\<rparr>))"

definition dec_FooterPath :: "FooterPath decoder" where
  "dec_FooterPath = dec_struct (\<lambda>k.
     if field_is ''ios'' k then
       Some (\<lambda>j f. let (v, e) = dec_string j (fp_IOS f) in (f\<lparr>fp_IOS := v\<rparr>, e))
     else if field_is ''android'' k then
       Some (\<lambda>j f. let (v, e) = dec_string j (fp_Android f) in (f\<lparr>fp_Android := v\<rparr>, e))
     else None)"

definition dummy_footer :: bytes where "dummy_footer = ''Dummy bundle footer for testing.''"

text \<open>The result is a pointer, nil when the packager prints \<^verbatim>\<open>null\<close>. In the test branch the two writes are
  not checked either; what is checked after the first is whether the directory could be made.\<close>

definition MakeBundleFooters ::
  "('s, 'm) env \<Rightarrow> string \<Rightarrow> string \<Rightarrow> ('s, 'm) world \<Rightarrow> FooterPath option res \<times> ('s, 'm) world" where
  "MakeBundleFooters env d baseVersion w =
     (if getenv env ''SIPHON_ENV'' = ''testing'' then
        on (TempDir env ''siphon-packager-tmp-'' w)
          (\<lambda>e w. (Fail e, Cleanup [] (put_file (path_Join [[], ''bundle-footer-ios'']) dummy_footer w)))
          (\<lambda>tmpDir w.
             let iosFooter = path_Join [tmpDir, ''bundle-footer-ios''];
                 androidFooter = path_Join [tmpDir, ''bundle-footer-android''];
                 w = put_file iosFooter dummy_footer w;
                 w = (case os_WriteFile (w_fs w) androidFooter dummy_footer of
                        Inl _ \<Rightarrow> w | Inr fs \<Rightarrow> w\<lparr>w_fs := fs\<rparr>) in
             (Ok (Some \<lparr>fp_IOS = iosFooter, fp_Android = androidFooter\<rparr>), w))
      else
        andThen (packager env d baseVersion w) (\<lambda>b w.
          case Unmarshal (dec_ptr \<lparr>fp_IOS = [], fp_Android = []\<rparr> dec_FooterPath) b None of
            Inl e \<Rightarrow> (Fail e, w)
          | Inr f \<Rightarrow> (Ok f, w)))"

definition MakeBundleFootersTmp ::
  "('s, 'm) env \<Rightarrow> string \<Rightarrow> string \<Rightarrow> Archive option \<Rightarrow> string \<Rightarrow> ('s, 'm) world \<Rightarrow>
   FooterPath option res \<times> ('s, 'm) world" where
  "MakeBundleFootersTmp env appID submissionID archive baseVersion w =
     andThen (NewCache env appID submissionID w) (\<lambda>cache w.
     andThen (GetFiles env appID submissionID w) (\<lambda>files w.
     andThen (FilesToTemp env files archive cache w) (\<lambda>d w.
     on (MakeBundleFooters env d baseVersion w)
       (\<lambda>e w. (Fail e, Cleanup d w))
       (\<lambda>f w. (Ok f, Cleanup d w)))))"

section \<open>Frames\<close>

text \<open>Nothing here touches the database rows, the response or the request contexts.\<close>

definition work_frame :: "('s, 'm) world \<Rightarrow> ('s, 'm) world \<Rightarrow> bool" where
  "work_frame w w' \<longleftrightarrow> w' = w\<lparr>w_s3 := w_s3 w', w_mc := w_mc w', w_fs := w_fs w'\<rparr>"

lemma work_frame_refl [simp]: "work_frame w w" "work_frame w (w\<lparr>w_fs := fs\<rparr>)"
  by (simp_all add: work_frame_def)

lemma work_frame_trans: "work_frame u v \<Longrightarrow> work_frame v w \<Longrightarrow> work_frame u w"
  by (cases u; cases v; cases w) (simp add: work_frame_def)

lemma store_work_frame: "store_frame w w' \<Longrightarrow> work_frame w w'"
  by (cases w; cases w') (simp add: work_frame_def store_frame_def)

lemma fs_work_frame: "fs_frame w w' \<Longrightarrow> work_frame w w'"
  by (cases w; cases w') (simp add: work_frame_def fs_frame_def)

lemma work_frameD:
  assumes "work_frame w w'"
  shows "w_rows w' = w_rows w" "w_dbq w' = w_dbq w" "w_rsp w' = w_rsp w" "w_ctx w' = w_ctx w"
    "w_web w' = w_web w" "w_puts w' = w_puts w" "w_amqp w' = w_amqp w" "w_msgs w' = w_msgs w"
  using assms unfolding work_frame_def by (cases w; cases w'; simp)+

lemma put_file_frame [frame]: "fs_frame w (put_file p b w)"
  by (simp add: put_file_def Let_def)

lemma fs_remove_frame [frame]: "fs_frame w (fs_remove p w)" "fs_frame w (Cleanup p w)"
  by (simp_all add: fs_remove_def Cleanup_def)

lemma TempDir_frame [frame]: "fs_frame w (snd (TempDir env pre w))"
  by (auto simp: TempDir_def split: sum.split)

lemma CleanupFooters_frame [frame]: "fs_frame w (CleanupFooters f w)"
  by (auto simp: CleanupFooters_def Let_def fs_remove_def)

lemma file_to_temp_frame [frame]: "work_frame w (snd (file_to_temp env archive cache d e w))"
proof -
  have "work_frame w (snd (case archive_content archive n (w_fs w) of Some fb \<Rightarrow> (Ok fb, w) | None \<Rightarrow> Cache_Get env cache h w))"
    for n h by (auto split: option.split intro: store_work_frame frame)
  then show ?thesis
    unfolding file_to_temp_def Let_def
    by (auto split: prod.split intro!: on_keeps [where Q = "work_frame w"]
        intro: work_frame_trans [OF _ fs_work_frame [OF put_file_frame]]
          work_frame_trans [OF _ fs_work_frame [OF fs_remove_frame(2)]])
qed

lemma FilesToTemp_frame [frame]: "work_frame w (snd (FilesToTemp env files archive cache w))"
  unfolding FilesToTemp_def
  by (intro or_default_keeps [where Q = "work_frame w"] andThen_keeps [where Q = "work_frame w"]
      for_each_keeps [where Q = "work_frame w"])
    (auto intro: work_frame_trans frame fs_work_frame)

lemma packager_frame [frame]: "fs_frame w (snd (packager env d v w))"
  by (auto simp: packager_def split: prod.split option.split)

lemma MakeBundleFooters_frame [frame]: "fs_frame w (snd (MakeBundleFooters env d v w))"
proof (cases "getenv env ''SIPHON_ENV'' = ''testing''")
  case True
  then show ?thesis
    unfolding MakeBundleFooters_def if_P [OF True] Let_def
    by (intro on_keeps [where Q = "fs_frame w"])
      (auto intro: frame fs_frame_trans [OF _ put_file_frame] fs_frame_trans [OF _ fs_remove_frame(2)]
         fs_frame_trans [OF _ fs_frame_refl(2)] split: sum.split)
next
  case False
  then show ?thesis
    unfolding MakeBundleFooters_def if_not_P [OF False]
    by (intro andThen_keeps [where Q = "fs_frame w"]) (auto intro: frame split: sum.split)
qed

section \<open>Confinement of the temporary files\<close>

lemma put_file_confined:
  assumes "clear_below (w_fs w) d" and "''..'' \<notin> set d" and "''..'' \<notin> set (comps p)"
    and "prefix d (comps p) \<or> prefix (comps p) d"
  shows "confined d (w_fs w) (w_fs (put_file p b w))"
proof -
  let ?fs = "snd (os_MkdirAll (w_fs w) (path_Dir p))"
  have pd: "prefix (comps (path_Dir p)) (comps p)" by (rule path_Dir_prefix(1) [OF assms(3)])
  have nd: "''..'' \<notin> set (comps (path_Dir p))" using pd assms(3) by (meson set_mono_prefix subsetD)
  have "prefix (comps (path_Dir p)) d \<or> prefix d (comps (path_Dir p))"
    using assms(4) pd by (meson prefix_order.trans prefix_same_cases)
  then have mk: "confined d (w_fs w) ?fs"
    using os_MkdirAll_confined [OF assms(1) _ nd assms(2)] by (metis prod.collapse)
  have cl: "clear_below ?fs d" by (rule confined_clear [OF mk assms(1)])
  show ?thesis
  proof (cases "os_WriteFile ?fs p b")
    case (Inr fs')
    have "confined d ?fs fs'"
    proof (cases "prefix d (comps p)")
      case True
      then obtain cs where "comps p = d @ cs" by (auto simp: prefix_def)
      then show ?thesis using os_WriteFile_confined [OF cl _ assms(3) Inr] by blast
    next
      case False
      then have up: "prefix (comps p) d" using assms(4) by blast
      have ch: "?fs ([] @ q) = Some NDir" if "prefix q (comps p)" "q \<noteq> []" for q
        using cl up that prefix_order.trans by (auto simp: clear_below_def dir_chain_def)
      have "walk max_links ?fs [] (comps p @ []) = walk max_links ?fs ([] @ comps p) []"
        by (rule walk_dirs) (use ch assms(3) in auto)
      then have "p = [] \<or> resolve ?fs p = Inr (comps p)" by (auto simp: resolve_def)
      moreover have "node_at ?fs (comps p) = Some NDir" using ch by (auto simp: node_at_def)
      ultimately show ?thesis using Inr by (auto simp: os_WriteFile_def resolve_def split: if_splits)
    qed
    then show ?thesis using Inr confined_trans [OF mk] by (simp add: put_file_def Let_def)
  qed (use mk in \<open>simp add: put_file_def Let_def\<close>)
qed

text \<open>A name without \<^verbatim>\<open>../\<close> cannot leave the directory: at worst it names the directory itself or the one
  above it, and those cannot be overwritten.\<close>

lemma put_name_confined:
  assumes "plain_dir d" and "clear_below (w_fs w) (comps d)" and "\<not> sublist ''../'' n"
  shows "confined (comps d) (w_fs w) (w_fs (put_file (path_Join [d, n]) b w))"
proof (rule put_file_confined [OF assms(2)])
  have r: "rooted d" using assms(1) by (simp add: plain_dir_def)
  show nd: "''..'' \<notin> set (comps d)" using assms(1) by (simp add: plain_dir_def)
  have c: "comps (path_Join [d, n]) =
    (if comps n \<noteq> [] \<and> last (comps n) = ''..'' then butlast (comps d @ butlast (comps n)) else comps d @ comps n)"
    using join_updir [OF assms(1,3), of "[]"] by (simp add: comps_path_Join2 [OF r])
  show "''..'' \<notin> set (comps (path_Join [d, n]))"
    using elim_dotdot_rooted [of "[]"] by (simp add: comps_path_Join2 [OF r])
  show "prefix (comps d) (comps (path_Join [d, n])) \<or> prefix (comps (path_Join [d, n])) (comps d)"
    unfolding c by (cases "butlast (comps n) = []") (auto simp: butlast_append prefixeq_butlast)
qed

lemma FilesToTemp_confined:
  assumes "temp_law env" and "range_law env" and "\<And>n h. (n, h) \<in> set files \<Longrightarrow> \<not> sublist ''../'' n"
    and "FilesToTemp env files archive cache w = (Ok d, w')" and "temp_name env ''project-path'' (w_fs w) = Inr d'"
  shows "d = d'" and "plain_dir d" and "\<forall>q. \<not> prefix (comps d) q \<longrightarrow> w_fs w' q = w_fs w q"
    and "clear_below (w_fs w') (comps d)"
proof -
  let ?w = "w\<lparr>w_fs := (w_fs w)(comps d' \<mapsto> NDir)\<rparr>"
  have t: "TempDir env ''project-path'' w = (Ok d', ?w)" using assms(5) by (simp add: TempDir_def)
  note cl = TempDir_clear [OF assms(1) t]
  from assms(4) t have d: "d = d'" and run: "for_each (file_to_temp env archive cache d') (map_range env files) ?w = (Ok (), w')"
    by (auto simp: FilesToTemp_def andThen_eq_Ok)
  show "d = d'" by fact
  show "plain_dir d" using cl d by simp
  have c: "confined (comps d') (w_fs ?w) (w_fs w')"
  proof (rule for_each_inv [where I = "\<lambda>v. confined (comps d') (w_fs ?w) (w_fs v)", OF run])
    fix e and v v' :: "('a, 'b) world"
    assume in_f: "e \<in> set (map_range env files)" and v: "confined (comps d') (w_fs ?w) (w_fs v)"
      and run: "file_to_temp env archive cache d' e v = (Ok (), v')"
    obtain n h where nh: "e = (n, h)" by (cases e)
    note e = in_f [unfolded nh] and b = run [unfolded nh]
    have n: "\<not> sublist ''../'' n" using e assms(3) range_set [OF assms(2)] by blast
    obtain fb u where u: "w_fs u = w_fs v" and v': "v' = put_file (path_Join [d', n]) fb u"
    proof -
      obtain fb u where "(case archive_content archive n (w_fs v) of Some fb \<Rightarrow> (Ok fb, v) | None \<Rightarrow> Cache_Get env cache h v) = (Ok fb, u)"
        and "v' = put_file (path_Join [d', n]) fb u"
        using b by (auto simp: file_to_temp_def on_eq_Ok)
      moreover have "w_fs u = w_fs v" using calculation(1) store_frameD(3) [OF Cache_Get_frame [of v env cache h]]
        by (auto split: option.splits)
      ultimately show ?thesis using that by blast
    qed
    have "clear_below (w_fs u) (comps d')" using confined_clear [OF v] cl(1) u by simp
    from put_name_confined [OF cl(2) this n, of fb]
    show "confined (comps d') (w_fs ?w) (w_fs v')"
      using confined_trans [OF v] u v' by simp
  qed simp
  show "\<forall>q. \<not> prefix (comps d) q \<longrightarrow> w_fs w' q = w_fs w q"
    using confined_outside [OF c] d by (auto simp: strict_prefix_def)
  show "clear_below (w_fs w') (comps d)" using confined_clear [OF c] cl(1) d by simp
qed

section \<open>The command line\<close>

text \<open>The characters that a shell reads as part of a plain word.\<close>

definition shell_plain :: "char \<Rightarrow> bool" where
  "shell_plain c \<longleftrightarrow> plain_char c \<or> c = CHR ''+''"

lemma float_char_plain: "float_char c \<Longrightarrow> shell_plain c"
proof -
  have "set ''0123456789+-.eEinfatyINFATY'' \<subseteq>
      insert CHR ''+'' (set ''0123456789-_./ABCDEFGHIJKLMNOPQRSTUVWXYZabcdefghijklmnopqrstuvwxyz'')" by simp
  then show "float_char c \<Longrightarrow> shell_plain c"
    unfolding float_char_def shell_plain_def plain_char_def by blast
qed

lemma version_shell_plain: "ParseMetadata b = Inr m \<Longrightarrow> list_all shell_plain (md_BaseVersion m) \<and> md_BaseVersion m \<noteq> []"
  using ParseFloat_chars [of "md_BaseVersion m"] float_char_plain
  by (auto simp: ParseMetadata_accepts metadata_ok_def list_all_iff)

text \<open>What cleaning up removes for a footer of iOS: a directory whose path has the marker.\<close>

lemma CleanupFooters_ios:
  assumes "fp_IOS f \<noteq> []" and "sublist tmp_marker (fp_IOS f)"
  shows "CleanupFooters f w = w \<or> (\<exists>d. sublist tmp_marker d \<and> d = path_Dir (fp_IOS f) \<and> CleanupFooters f w = fs_remove d w)"
  using assms by (auto simp: CleanupFooters_def Let_def)

end
