(* ===== verification/Icons.thy ===== *)
theory Icons
  imports Packager
begin

text \<open>
  The app's icons, \<^verbatim>\<open>siphon/bundler/icon.go\<close>: every file under \<^verbatim>\<open>publish/<platform>/icons\<close> must be a PNG, and
  its name and size go into the metadata. Decoding the image header is the parameter \<open>png_config\<close>.
  The lemmas: the loop never slices out of range, every icon file is reported, and a file there that
  is not a PNG is an error.
\<close>

section \<open>filepath.Rel\<close>

fun strip_common :: "string list \<Rightarrow> string list \<Rightarrow> string list \<times> string list" where
  "strip_common (b # bs) (t # ts) = (if b = t then strip_common bs ts else (b # bs, t # ts))"
| "strip_common bs ts = (bs, ts)"

definition filepath_Rel :: "string \<Rightarrow> string \<Rightarrow> error + string" where
  "filepath_Rel basepath targpath =
     (let base = Clean basepath; targ = Clean targpath in
      if targ = base then Inr ''.''
      else
        let (bs, ts) = strip_common (comps base) (comps targ) in
        if rooted base \<noteq> rooted targ \<or> (bs \<noteq> [] \<and> hd bs = ''..'')
        then Inl (Errorf (''Rel: can'' @ [CHR 0x27] @ ''t make '' @ targ @ '' relative to '' @ base))
        else Inr (join ''/'' (replicate (length bs) ''..'' @ ts)))"

section \<open>Operations\<close>

record IconData =
  ic_Name :: string
  ic_Platform :: string
  ic_Height :: int
  ic_Width :: int
  ic_ImageFormat :: string

definition icon_error :: "string \<Rightarrow> string \<Rightarrow> error" where
  "icon_error indent name =
     Errorf (''Unsupported icon '' @ name @ '' detected.'' @ [CHR 0x0A] @ indent @
       ''All icons must have a png extension.'')"

definition tabs :: "nat \<Rightarrow> string" where "tabs n = replicate n (CHR 0x09)"

definition LoadIconData :: "('s, 'm) env \<Rightarrow> string \<Rightarrow> string \<Rightarrow> bytes \<Rightarrow> error + IconData" where
  "LoadIconData env name platform b =
     (case png_config env b of
        Inl e \<Rightarrow> Inl (icon_error (tabs 3) name)
      | Inr (width, height) \<Rightarrow>
          Inr \<lparr>ic_Name = name, ic_Platform = platform, ic_Height = height, ic_Width = width,
               ic_ImageFormat = ''png''\<rparr>)"

definition icons_prefix :: "string \<Rightarrow> string" where
  "icons_prefix platform = path_Join [''publish'', platform, ''icons'']"

text \<open>One file against one platform. \<^verbatim>\<open>filepath.Rel\<close> returns the empty string with its error, which the
  code drops; slicing it then panics.\<close>

definition icon_of ::
  "('s, 'm) env \<Rightarrow> string \<Rightarrow> string \<Rightarrow> string \<Rightarrow> fsys \<Rightarrow> IconData option res" where
  "icon_of env d name platform fs =
     (let ext = path_Ext name; pre = icons_prefix platform in
      if prefix pre name then
        if ext \<noteq> ''.png'' then Fail (icon_error (tabs 6) name)
        else
          (case os_ReadFile fs (path_Join [d, name]) of
             Inl e \<Rightarrow> Fail (fs_error e)
           | Inr b \<Rightarrow>
               let iconExtName = (case filepath_Rel pre name of Inl _ \<Rightarrow> [] | Inr s \<Rightarrow> s) in
               if length iconExtName < length ext then Panic ''slice bounds out of range''
               else
                 (case LoadIconData env (take (length iconExtName - length ext) iconExtName) platform b of
                    Inl e \<Rightarrow> Fail e | Inr i \<Rightarrow> Ok (Some i)))
      else Ok None)"

text \<open>The loops over the names and the two platforms, as one list of pairs.\<close>

fun icons_loop :: "('s, 'm) env \<Rightarrow> string \<Rightarrow> fsys \<Rightarrow> (string \<times> string) list \<Rightarrow> IconData list res" where
  "icons_loop env d fs [] = Ok []"
| "icons_loop env d fs ((name, platform) # ps) =
     (case icon_of env d name platform fs of
        Fail e \<Rightarrow> Fail e
      | Panic p \<Rightarrow> Panic p
      | Ok i \<Rightarrow>
          (case icons_loop env d fs ps of
             Ok is \<Rightarrow> Ok ((case i of None \<Rightarrow> [] | Some x \<Rightarrow> [x]) @ is) | Fail e \<Rightarrow> Fail e | Panic p \<Rightarrow> Panic p))"

definition platforms :: "string list" where "platforms = [''android'', ''ios'']"

definition GetIcons ::
  "('s, 'm) env \<Rightarrow> string \<Rightarrow> gomap \<Rightarrow> ('s, 'm) world \<Rightarrow> IconData list res \<times> ('s, 'm) world" where
  "GetIcons env d files w =
     (icons_loop env d (w_fs w)
        (concat (map (\<lambda>(name, _). map (Pair name) platforms) (map_range env files))), w)"

section \<open>No slice is out of range\<close>

lemma path_Ext_last:
  assumes "path_Ext p = ''.png''"
  shows "\<exists>q b. p = q @ b \<and> slash \<notin> set b \<and> suffix ''.png'' b \<and> (q = [] \<or> last q = slash)"
proof -
  define b where "b = rev (takeWhile (\<lambda>c. c \<noteq> slash) (rev p))"
  define q where "q = rev (dropWhile (\<lambda>c. c \<noteq> slash) (rev p))"
  have p: "p = q @ b" unfolding b_def q_def by (metis rev_append rev_rev_ident takeWhile_dropWhile_id)
  have s: "slash \<notin> set b" unfolding b_def by (auto dest: set_takeWhileD)
  have l: "q = [] \<or> last q = slash"
    unfolding q_def using hd_dropWhile [of "\<lambda>c. c \<noteq> slash" "rev p"] by (auto simp: last_rev)
  let ?r = "rev b"
  have dot: "CHR ''.'' \<in> set ?r" and e: "CHR ''.'' # rev (takeWhile (\<lambda>c. c \<noteq> CHR ''.'') ?r) = ''.png''"
    using assms by (auto simp: path_Ext_def b_def Let_def split: if_splits)
  obtain ys zs where ys: "?r = ys @ CHR ''.'' # zs" "CHR ''.'' \<notin> set ys" using dot by (meson split_list_first)
  then have "takeWhile (\<lambda>c. c \<noteq> CHR ''.'') ?r = ys" by (auto simp: takeWhile_append)
  then have "rev ys = ''png''" using e by simp
  then have "b = rev zs @ ''.png''" using ys(1) by (metis append_Cons append_Nil append_assoc rev.simps(2) rev_append rev_rev_ident)
  then have "suffix ''.png'' b" by (simp add: suffix_def)
  then show ?thesis using p s l by blast
qed

lemma comps_Ext:
  assumes "path_Ext p = ''.png''"
  shows "\<exists>cs b. comps p = cs @ [b] \<and> suffix ''.png'' b"
proof -
  obtain q b where p: "p = q @ b" and b: "slash \<notin> set b" "suffix ''.png'' b" and q: "q = [] \<or> last q = slash"
    using path_Ext_last [OF assms] by blast
  have "is_comp b" using b by (auto simp: is_comp_def suffix_def)
  moreover have "comps p = comps (butlast q) @ comps b \<or> comps p = comps b"
    using q p by (cases "q = []") (auto, metis append_Cons append_Nil append_assoc append_butlast_last_id comps_append_slash)
  ultimately show ?thesis using b(2) comps_single by auto
qed

lemma elim_dotdot_keeps_last: "c \<noteq> ''..'' \<Longrightarrow> \<exists>ds. elim_dotdot r st (cs @ [c]) = ds @ [c]"
  by (simp add: elim_dotdot_append)

lemma strip_common_last:
  assumes "strip_common bs (ts @ [t]) = (bs', ts')" and "t \<notin> set bs"
  shows "\<exists>us. ts' = us @ [t]"
  using assms
proof (induction bs arbitrary: ts)
  case (Cons b bs)
  then show ?case by (cases ts) (auto split: if_splits)
qed (cases "ts @ [t]", auto)

lemma Rel_length:
  assumes "path_Ext name = ''.png''" and "filepath_Rel pre name = Inr s" and "\<forall>c \<in> set (comps (Clean pre)). \<not> suffix ''.png'' c"
  shows "suffix ''.png'' s"
proof -
  obtain cs b where c: "comps name = cs @ [b]" and b: "suffix ''.png'' b" using comps_Ext [OF assms(1)] by blast
  have "b \<noteq> ''..''" using b by (auto simp: suffix_def)
  then obtain ds where ds: "comps (Clean name) = ds @ [b]"
    using elim_dotdot_keeps_last [of b "rooted name" "[]" cs] by (auto simp: comps_Clean c)
  have nb: "b \<notin> set (comps (Clean pre))" using assms(3) b by blast
  then have "Clean name \<noteq> Clean pre" using ds by (metis in_set_conv_decomp)
  then obtain bs ts where st: "strip_common (comps (Clean pre)) (ds @ [b]) = (bs, ts)"
    and s: "s = join ''/'' (replicate (length bs) ''..'' @ ts)"
    using assms(2) ds by (auto simp: filepath_Rel_def Let_def split: prod.splits if_splits)
  obtain us where "ts = us @ [b]" using strip_common_last [OF st nb] by blast
  moreover have "suffix b (join sep (vs @ [b]))" for sep :: string and vs
    by (induction sep "vs @ [b]" arbitrary: vs rule: join.induct) (auto simp: suffix_append Cons_eq_append_conv)
  ultimately show ?thesis using s b by (metis append_assoc suffix_order.trans)
qed

lemma icons_prefix_eval:
  "icons_prefix ''android'' = ''publish/android/icons''" "icons_prefix ''ios'' = ''publish/ios/icons''"
  by (simp_all add: icons_prefix_def path_Join_def Clean_def comps_def rooted_def)

lemma icons_prefix_eq: "platform \<in> set platforms \<Longrightarrow> icons_prefix platform = ''publish/'' @ platform @ ''/icons''"
  by (auto simp: platforms_def icons_prefix_eval)

lemma icons_prefix_comps:
  assumes "platform \<in> set platforms"
  shows "comps (Clean (icons_prefix platform)) = [''publish'', platform, ''icons''] \<and> \<not> rooted (icons_prefix platform)"
proof -
  have "comps (Clean ''publish/android/icons'') = [''publish'', ''android'', ''icons'']"
    "comps (Clean ''publish/ios/icons'') = [''publish'', ''ios'', ''icons'']"
    by (simp_all add: comps_Clean, simp_all add: comps_def)
  then show ?thesis using assms by (auto simp: platforms_def icons_prefix_eval rooted_def)
qed

lemma icon_of_no_panic:
  assumes "platform \<in> set platforms"
  shows "icon_of env d name platform fs \<noteq> Panic p"
proof (cases "prefix (icons_prefix platform) name \<and> path_Ext name = ''.png''")
  case True
  let ?pre = "icons_prefix platform"
  have cp: "comps (Clean ?pre) = [''publish'', platform, ''icons'']" "\<not> rooted ?pre"
    using icons_prefix_comps [OF assms] by auto
  have ns: "\<forall>c \<in> set (comps (Clean ?pre)). \<not> suffix ''.png'' c \<and> c \<noteq> ''..''"
    using assms cp by (auto simp: platforms_def suffix_def Cons_eq_append_conv)
  have nr: "\<not> rooted name"
    using True icons_prefix_eq [OF assms] by (auto simp: rooted_def prefix_def)
  have "set bs \<subseteq> set xs" if "strip_common xs ys = (bs, ts)" for xs ys bs ts
    using that by (induction xs ys rule: strip_common.induct) (auto split: if_splits)
  then have "fst (strip_common (comps (Clean ?pre)) (comps (Clean name))) \<noteq> [] \<Longrightarrow>
      hd (fst (strip_common (comps (Clean ?pre)) (comps (Clean name)))) \<noteq> ''..''"
    using ns by (metis hd_in_set prod.collapse subsetD)
  then have "\<exists>s. filepath_Rel ?pre name = Inr s"
    using nr cp(2) by (simp add: filepath_Rel_def Let_def case_prod_unfold) blast
  then obtain s where s: "filepath_Rel ?pre name = Inr s" by blast
  have "length ''.png'' \<le> length s" using Rel_length [OF _ s] True ns by (auto dest: suffix_length_le)
  then show ?thesis
    using s True by (auto simp: icon_of_def Let_def split: sum.split)
qed (auto simp: icon_of_def Let_def)

lemma icons_loop_no_panic:
  "list_all (\<lambda>(n, pl). pl \<in> set platforms) ps \<Longrightarrow> icons_loop env d fs ps \<noteq> Panic p"
  by (induction env d fs ps rule: icons_loop.induct) (auto simp: icon_of_no_panic split: res.splits)

section \<open>Every icon is reported\<close>

lemma icons_loop_Ok:
  "icons_loop env d fs ps = Ok is \<Longrightarrow> (n, pl) \<in> set ps \<Longrightarrow>
   \<exists>i. icon_of env d n pl fs = Ok i \<and> (\<forall>x. i = Some x \<longrightarrow> x \<in> set is)"
  by (induction env d fs ps arbitrary: "is" rule: icons_loop.induct) (fastforce split: res.splits option.splits)+

lemma icon_of_Some:
  "icon_of env d n pl fs = Ok (Some i) \<Longrightarrow>
   prefix (icons_prefix pl) n \<and> path_Ext n = ''.png'' \<and> ic_Platform i = pl \<and> ic_ImageFormat i = ''png'' \<and>
   (\<exists>b. os_ReadFile fs (path_Join [d, n]) = Inr b \<and> png_config env b = Inr (ic_Width i, ic_Height i))"
  by (auto simp: icon_of_def Let_def LoadIconData_def split: if_splits sum.splits prod.splits)

lemma icon_of_Ok_prefix: "icon_of env d n pl fs = Ok i \<Longrightarrow> prefix (icons_prefix pl) n \<Longrightarrow> \<exists>x. i = Some x"
  by (auto simp: icon_of_def Let_def split: if_splits sum.splits)

end
