(* ===== verification/Auth.thy ===== *)
theory Auth
  imports World Go_Json
begin

text \<open>
  The handshake check in front of every handler, \<^verbatim>\<open>siphon/bundler/auth.go\<close>. The token is base64 JSON
  signed by the web application; reading the key and checking the signature are the parameters
  \<open>parse_pubkey\<close>, \<open>sha256_sum\<close> and \<open>rsa_verify\<close>.

  \<open>authorized\<close> is the specification of a request that may go through. The main lemma says that the
  middleware runs the handler exactly for those, after recording the request's identity, and otherwise
  answers 401 and changes nothing but the request's own context (or panics, in the cases the code does
  not guard).
\<close>

section \<open>Operations\<close>

definition AppIDKey :: int where "AppIDKey = 1000"
definition UserIDKey :: int where "UserIDKey = 1001"
definition SubmissionIDKey :: int where "SubmissionIDKey = 1002"
definition HandshakeTokenKey :: int where "HandshakeTokenKey = 1003"
definition HandshakeSignatureKey :: int where "HandshakeSignatureKey = 1004"

lemmas ctx_keys = AppIDKey_def UserIDKey_def SubmissionIDKey_def HandshakeTokenKey_def HandshakeSignatureKey_def

record handshake =
  hs_Action :: string
  hs_AppID :: string
  hs_UserID :: string
  hs_SubmissionID :: string

definition handshake_zero :: handshake where
  "handshake_zero = \<lparr>hs_Action = [], hs_AppID = [], hs_UserID = [], hs_SubmissionID = []\<rparr>"

definition dec_handshake :: "handshake decoder" where
  "dec_handshake = dec_struct (\<lambda>k.
     if field_is ''action'' k then
       Some (\<lambda>j h. let (v, e) = dec_string j (hs_Action h) in (h\<lparr>hs_Action := v\<rparr>, e))
     else if field_is ''app_id'' k then
       Some (\<lambda>j h. let (v, e) = dec_string j (hs_AppID h) in (h\<lparr>hs_AppID := v\<rparr>, e))
     else if field_is ''user_id'' k then
       Some (\<lambda>j h. let (v, e) = dec_string j (hs_UserID h) in (h\<lparr>hs_UserID := v\<rparr>, e))
     else if field_is ''submission_id'' k then
       Some (\<lambda>j h. let (v, e) = dec_string j (hs_SubmissionID h) in (h\<lparr>hs_SubmissionID := v\<rparr>, e))
     else None)"

text \<open>The result is a pointer, nil when the token is the JSON \<^verbatim>\<open>null\<close>.\<close>

definition decryptToken :: "('s, 'm) env \<Rightarrow> string \<Rightarrow> error + handshake option" where
  "decryptToken env token =
     (case base64_decode env token of
        (_, Some e) \<Rightarrow> Inl e
      | (decodedBytes, None) \<Rightarrow> Unmarshal (dec_ptr handshake_zero dec_handshake) decodedBytes None)"

definition key_file :: string where "key_file = ''/code/.keys/handshake/handshake.pub''"

definition verifyToken :: "('s, 'm) env \<Rightarrow> string \<Rightarrow> string \<Rightarrow> fsys \<Rightarrow> bool res" where
  "verifyToken env token signature fs =
     (if getenv env ''SIPHON_ENV'' = ''testing'' then Ok True
      else case os_ReadFile fs key_file of
        Inl e \<Rightarrow> Ok False
      | Inr b \<Rightarrow>
          (case parse_pubkey env b of
             Pem_none \<Rightarrow> Panic ''invalid memory address or nil pointer dereference''
           | Pkix_error e \<Rightarrow> Ok False
           | Pkix_other \<Rightarrow> Panic ''interface conversion''
           | Pkix_rsa key \<Rightarrow>
               Ok (rsa_verify env key (sha256_sum env (fst (base64_decode env token))) signature = None)))"

definition unauthorized :: "string \<Rightarrow> ('s, 'm) world \<Rightarrow> unit res \<times> ('s, 'm) world" where
  "unauthorized msg w = (Ok (), http_Error msg 401 w)"

definition validActions :: "string list" where "validActions = [''push'', ''pull'', ''submit'']"

definition action_path :: "string \<Rightarrow> string" where "action_path action = ''/v1/'' @ action @ ''/''"

definition check_handshake ::
  "('s, 'm) env \<Rightarrow> ('s, 'm) handler \<Rightarrow> string \<Rightarrow> handshake \<Rightarrow> request \<Rightarrow> ('s, 'm) world \<Rightarrow> unit res \<times> ('s, 'm) world" where
  "check_handshake env h appID obj r w =
     (if hs_Action obj \<in> set validActions \<and> \<not> prefix (action_path (hs_Action obj)) (rq_path r) then
        unauthorized ''Unauthorized action for this endpoint.'' w
      else if hs_Action obj \<notin> set validActions then unauthorized ''Missing action.'' w
      else if hs_SubmissionID obj \<noteq> [] \<and> hs_UserID obj \<noteq> [] then unauthorized ''Malformed handshake_token.'' w
      else if hs_SubmissionID obj = [] \<and> hs_UserID obj = [] then unauthorized ''Malformed handshake_token.'' w
      else
        let w = (if hs_SubmissionID obj \<noteq> [] then ctx_set env r SubmissionIDKey (hs_SubmissionID obj) w
                 else ctx_set env r UserIDKey (hs_UserID obj) w) in
        if hs_AppID obj \<noteq> appID then unauthorized ''The handshake_token does not match.'' w
        else h r w)"

definition AuthMiddleware :: "('s, 'm) env \<Rightarrow> ('s, 'm) handler \<Rightarrow> ('s, 'm) handler" where
  "AuthMiddleware env h r w =
     (let appID = lookup_str ''app_id'' (rq_vars r);
          w = ctx_set env r AppIDKey appID w;
          token = FormValue r ''handshake_token'';
          signature = FormValue r ''handshake_signature'';
          w = ctx_set env r HandshakeTokenKey token w;
          w = ctx_set env r HandshakeSignatureKey signature w in
      case decryptToken env token of
        Inl e \<Rightarrow> unauthorized ''Missing or invalid handshake_token.'' w
      | Inr obj \<Rightarrow>
          (case verifyToken env token signature (w_fs w) of
             Panic p \<Rightarrow> (Panic p, w)
           | Fail e \<Rightarrow> (Fail e, w)
           | Ok False \<Rightarrow> unauthorized ''Missing or invalid handshake_token.'' w
           | Ok True \<Rightarrow>
               (case obj of
                  None \<Rightarrow> (Panic ''invalid memory address or nil pointer dereference'', w)
                | Some obj \<Rightarrow> check_handshake env h appID obj r w)))"

section \<open>Specification\<close>

definition authentic :: "('s, 'm) env \<Rightarrow> request \<Rightarrow> fsys \<Rightarrow> handshake \<Rightarrow> bool" where
  "authentic env r fs obj \<longleftrightarrow>
     decryptToken env (FormValue r ''handshake_token'') = Inr (Some obj) \<and>
     verifyToken env (FormValue r ''handshake_token'') (FormValue r ''handshake_signature'') fs = Ok True"

definition authorized :: "request \<Rightarrow> handshake \<Rightarrow> bool" where
  "authorized r obj \<longleftrightarrow>
     hs_Action obj \<in> set validActions \<and> prefix (action_path (hs_Action obj)) (rq_path r) \<and>
     (hs_SubmissionID obj \<noteq> []) \<noteq> (hs_UserID obj \<noteq> []) \<and>
     hs_AppID obj = lookup_str ''app_id'' (rq_vars r)"

text \<open>The identity the handler then sees.\<close>

definition identify :: "('s, 'm) env \<Rightarrow> request \<Rightarrow> handshake \<Rightarrow> ('s, 'm) world \<Rightarrow> ('s, 'm) world" where
  "identify env r obj w =
     (let w = ctx_set env r AppIDKey (lookup_str ''app_id'' (rq_vars r)) w;
          w = ctx_set env r HandshakeTokenKey (FormValue r ''handshake_token'') w;
          w = ctx_set env r HandshakeSignatureKey (FormValue r ''handshake_signature'') w in
      if hs_SubmissionID obj \<noteq> [] then ctx_set env r SubmissionIDKey (hs_SubmissionID obj) w
      else ctx_set env r UserIDKey (hs_UserID obj) w)"

text \<open>A rejected request: at most the response and the request's own context differ.\<close>

definition rejected :: "request \<Rightarrow> ('s, 'm) world \<Rightarrow> ('s, 'm) world \<Rightarrow> bool" where
  "rejected r w w' \<longleftrightarrow>
     w' = w\<lparr>w_ctx := w_ctx w', w_rsp := w_rsp w'\<rparr> \<and> (\<forall>r' k. rq_id r' \<noteq> rq_id r \<longrightarrow> ctx_get r' k w' = ctx_get r' k w)"

lemma rejected_refl: "rejected r w w"
  by (simp add: rejected_def)

lemma rejected_ctx_set: "rejected r w v \<Longrightarrow> rejected r w (ctx_set env r k x v)"
  by (cases w; cases v) (auto simp: rejected_def ctx_set_def ctx_get_def)

lemma rejected_rsp: "rejected r w v \<Longrightarrow> rejected r w (v\<lparr>w_rsp := x\<rparr>)"
  by (cases w; cases v) (auto simp: rejected_def ctx_get_def)

lemma http_Error_rsp: "http_Error m c v = v\<lparr>w_rsp := w_rsp (http_Error m c v)\<rparr>"
  by (simp add: http_Error_def http_write_def set_ctype_def Let_def)

lemma rejected_http_Error: "rejected r w v \<Longrightarrow> rejected r w (http_Error m c v)"
  by (subst http_Error_rsp) (rule rejected_rsp)

lemma AuthMiddleware_runs:
  assumes "authentic env r (w_fs w) obj" and "authorized r obj"
  shows "AuthMiddleware env h r w = h r (identify env r obj w)"
  using assms
  by (auto simp: AuthMiddleware_def authentic_def authorized_def identify_def check_handshake_def Let_def)

lemma AuthMiddleware_refuses:
  assumes "\<not> (\<exists>obj. authentic env r (w_fs w) obj \<and> authorized r obj)" and "AuthMiddleware env h r w = (x, w')"
  shows "rejected r w w' \<and> (x = Ok () \<and> (rs_status (w_rsp w) = None \<longrightarrow> rs_status (w_rsp w') = Some 401) \<or> (\<exists>p. x = Panic p))"
proof -
  let ?token = "FormValue r ''handshake_token''" and ?sig = "FormValue r ''handshake_signature''"
  define v where "v = ctx_set env r HandshakeSignatureKey ?sig (ctx_set env r HandshakeTokenKey ?token
    (ctx_set env r AppIDKey (lookup_str ''app_id'' (rq_vars r)) w))"
  have v: "rejected r w v" "w_rsp v = w_rsp w" "w_fs v = w_fs w"
    by (auto simp: v_def intro: rejected_ctx_set rejected_refl)
  have un: "rejected r w u' \<and> (y = Ok () \<and> (rs_status (w_rsp w) = None \<longrightarrow> rs_status (w_rsp u') = Some 401) \<or> (\<exists>p. y = Panic p))"
    if "unauthorized m u = (y, u')" "rejected r w u" "w_rsp u = w_rsp w" for m u y u'
    using that rejected_http_Error by (auto simp: unauthorized_def)
  have run: "AuthMiddleware env h r w = (case decryptToken env ?token of
        Inl e \<Rightarrow> unauthorized ''Missing or invalid handshake_token.'' v
      | Inr obj \<Rightarrow>
          (case verifyToken env ?token ?sig (w_fs v) of
             Panic p \<Rightarrow> (Panic p, v)
           | Fail e \<Rightarrow> (Fail e, v)
           | Ok False \<Rightarrow> unauthorized ''Missing or invalid handshake_token.'' v
           | Ok True \<Rightarrow>
               (case obj of
                  None \<Rightarrow> (Panic ''invalid memory address or nil pointer dereference'', v)
                | Some obj \<Rightarrow> check_handshake env h (lookup_str ''app_id'' (rq_vars r)) obj r v)))"
    unfolding AuthMiddleware_def Let_def v_def by (rule refl)
  have nf: "verifyToken env ?token ?sig (w_fs v) \<noteq> Fail e" for e
    by (auto simp: verifyToken_def split: sum.splits pubkey.splits)
  show ?thesis
  proof (cases "\<exists>obj. authentic env r (w_fs w) obj")
    case True
    then obtain obj where a: "authentic env r (w_fs w) obj" and z: "\<not> authorized r obj" using assms(1) by blast
    have "(x, w') = check_handshake env h (lookup_str ''app_id'' (rq_vars r)) obj r v"
      using assms(2) a v(3) by (simp add: run authentic_def)
    then show ?thesis
      using z un v(1,2) rejected_ctx_set [OF v(1)] unfolding check_handshake_def authorized_def Let_def
      by (auto split: if_splits dest!: sym [of "(x, w')"])
  next
    case False
    then show ?thesis
      using assms(2) nf un [OF _ v(1,2)] v unfolding run authentic_def
      by (auto split: sum.splits res.splits bool.splits option.splits)
  qed
qed

text \<open>The identity is consistent: exactly one of the user and the submission is recorded, if the
  request's context was empty before.\<close>

lemma identify_ctx:
  assumes "authorized r obj" and "\<And>k. ctx_get r k w = None"
  shows "ctx_get r AppIDKey (identify env r obj w) = Some (hs_AppID obj)"
    and "ctx_get r SubmissionIDKey (identify env r obj w) = (if hs_SubmissionID obj = [] then None else Some (hs_SubmissionID obj))"
    and "ctx_get r UserIDKey (identify env r obj w) = (if hs_SubmissionID obj = [] then Some (hs_UserID obj) else None)"
  using assms by (auto simp: identify_def Let_def authorized_def ctx_keys)

end
