(* ===== verification/Go_Encode.thy ===== *)
theory Go_Encode
  imports Go_Json "HOL-Library.Char_ord" "HOL-Library.List_Lexorder"
begin

text \<open>
  The encoders the bundler uses: \<^verbatim>\<open>json.Marshal\<close> for strings, integers and string maps (keys in byte order,
  HTML characters escaped), and \<^verbatim>\<open>url.QueryEscape\<close> / \<^verbatim>\<open>url.Values.Encode\<close>. The lemma group at the end: what
  the JSON encoder writes for a printable ASCII string is read back by the scanner as that string, so a
  client that parses the hashes response gets the map the server holds.
\<close>

section \<open>Numbers\<close>

definition digit_char :: "nat \<Rightarrow> char" where
  "digit_char n = ''0123456789abcdef'' ! (n mod 16)"

fun dec_nat :: "nat \<Rightarrow> string" where
  "dec_nat n = (if n < 10 then [digit_char n] else dec_nat (n div 10) @ [digit_char (n mod 10)])"

declare dec_nat.simps [simp del]

definition dec_int :: "int \<Rightarrow> string" where
  "dec_int i = (if i < 0 then CHR ''-'' # dec_nat (nat (- i)) else dec_nat (nat i))"

section \<open>JSON\<close>

definition u_escape :: "nat \<Rightarrow> string" where
  "u_escape n = backslash # ''u'' @ [digit_char (n div 4096), digit_char (n div 256), digit_char (n div 16), digit_char n]"

definition json_char :: "char \<Rightarrow> string" where
  "json_char c =
     (if c = dquote \<or> c = backslash then [backslash, c]
      else if c = CHR 0x0A then [backslash, CHR ''n'']
      else if c = CHR 0x0D then [backslash, CHR ''r'']
      else if c = CHR 0x09 then [backslash, CHR ''t'']
      else if is_control c \<or> c \<in> set ''<>&'' then u_escape (code c)
      else [c])"

definition line_separator :: "string \<Rightarrow> bool" where
  "line_separator s \<longleftrightarrow> s = [CHR 0xE2, CHR 0x80, CHR 0xA8] \<or> s = [CHR 0xE2, CHR 0x80, CHR 0xA9]"

function json_chars :: "string \<Rightarrow> string" where
  "json_chars s =
     (if s = [] then []
      else if code (hd s) < 128 then json_char (hd s) @ json_chars (tl s)
      else
        let n = utf8_width s in
        if n = 0 then (backslash # ''ufffd'') @ json_chars (tl s)
        else if line_separator (take n s) then
          u_escape (if take n s = [CHR 0xE2, CHR 0x80, CHR 0xA8] then 0x2028 else 0x2029) @ json_chars (drop n s)
        else take n s @ json_chars (drop n s))"
  by pat_completeness auto
termination
  by (relation "measure length") auto

declare json_chars.simps [simp del]

definition json_string :: "string \<Rightarrow> string" where
  "json_string s = dquote # json_chars s @ [dquote]"

definition json_map :: "gomap \<Rightarrow> string" where
  "json_map m =
     ''{'' @ join '','' (map (\<lambda>(k, v). json_string k @ '':'' @ json_string v) (sort_key fst m)) @ ''}''"

section \<open>URL encoding\<close>

definition hex_upper :: "nat \<Rightarrow> char" where
  "hex_upper n = ''0123456789ABCDEF'' ! (n mod 16)"

definition query_char :: "char \<Rightarrow> string" where
  "query_char c =
     (if c \<in> set ''0123456789-_.~ABCDEFGHIJKLMNOPQRSTUVWXYZabcdefghijklmnopqrstuvwxyz'' then [c]
      else if c = CHR '' '' then ''+''
      else [CHR ''%'', hex_upper (code c div 16), hex_upper (code c)])"

definition QueryEscape :: "string \<Rightarrow> string" where
  "QueryEscape s = concat (map query_char s)"

definition Values_Encode :: "gomap \<Rightarrow> string" where
  "Values_Encode v =
     join ''&'' (map (\<lambda>(k, x). QueryEscape k @ ''='' @ QueryEscape x) (sort_key fst v))"

section \<open>Reading back\<close>

text \<open>Printable ASCII without the characters that are escaped.\<close>

definition json_plain :: "char \<Rightarrow> bool" where
  "json_plain c \<longleftrightarrow> code c < 128 \<and> \<not> is_control c \<and> c \<notin> set [dquote, backslash, CHR ''<'', CHR ''>'', CHR ''&'']"

lemma cons_toks [simp]: "(@) [t] = (#) t" "(@) [] = (\<lambda>x. x)" by (simp_all add: fun_eq_iff)

lemma map_option_ident [simp]: "map_option (\<lambda>x. x) y = y" by (cases y) auto

declare json_lex.simps(2) [simp del]

lemma json_char_plain: "json_plain c \<Longrightarrow> json_char c = [c]"
proof -
  assume c: "json_plain c"
  have "is_control CHR 0x0A" "is_control CHR 0x0D" "is_control CHR 0x09" by (simp_all add: is_control_def code_def)
  then have "c \<noteq> CHR 0x0A" "c \<noteq> CHR 0x0D" "c \<noteq> CHR 0x09" using c by (auto simp: json_plain_def)
  then show ?thesis using c by (simp add: json_char_def json_plain_def)
qed

lemma json_chars_plain: "list_all json_plain s \<Longrightarrow> json_chars s = s"
proof (induction s)
  case (Cons c s)
  then show ?case by (subst json_chars.simps) (simp add: json_char_plain, simp add: json_plain_def)
qed (simp add: json_chars.simps)

lemma lex_plain_string:
  "list_all json_plain s \<Longrightarrow> json_lex (L_str acc) (s @ dquote # rest) = map_option (\<lambda>us. T_str (rev acc @ s) # us) (json_lex L_idle rest)"
  by (induction s arbitrary: acc) (simp_all add: json_lex.simps(2) lex_step_def json_plain_def)

lemma unquote_plain: "list_all json_plain s \<Longrightarrow> unquote s = s"
proof (induction s)
  case (Cons c s)
  then have "c \<noteq> backslash" "utf8_width (c # s) = 1"
    by (auto simp: json_plain_def utf8_width_def Let_def)
  then have "unquote1 (c # s) = ([c], 1)" by (simp add: unquote1_def)
  then show ?case using Cons by (subst unquote.simps) simp
qed (simp add: unquote.simps)

lemma lex_json_string:
  assumes "list_all json_plain s"
  shows "json_lex L_idle (json_string s @ rest) = map_option (\<lambda>us. T_str s # us) (json_lex L_idle rest)"
  using lex_plain_string [OF assms, of "[]" rest] json_chars_plain [OF assms]
  by (simp add: json_string_def json_lex.simps(2) lex_step_def lex_idle_def is_space_def)

lemma lex_punct:
  "json_lex L_idle (CHR '':'' # rest) = map_option (\<lambda>us. T_colon # us) (json_lex L_idle rest)"
  "json_lex L_idle (CHR '','' # rest) = map_option (\<lambda>us. T_comma # us) (json_lex L_idle rest)"
  "json_lex L_idle (CHR ''{'' # rest) = map_option (\<lambda>us. T_lbrace # us) (json_lex L_idle rest)"
  "json_lex L_idle (CHR ''}'' # rest) = map_option (\<lambda>us. T_rbrace # us) (json_lex L_idle rest)"
  by (simp_all add: json_lex.simps(2) lex_step_def lex_idle_def is_space_def)

abbreviation entry_toks :: "string \<times> string \<Rightarrow> tok list" where
  "entry_toks e \<equiv> [T_str (fst e), T_colon, T_str (snd e)]"

definition plain_entry :: "string \<times> string \<Rightarrow> bool" where
  "plain_entry e \<longleftrightarrow> list_all json_plain (fst e) \<and> list_all json_plain (snd e)"

lemma lex_entries:
  assumes "list_all plain_entry es" and "es \<noteq> []"
  shows "json_lex L_idle (join '','' (map (\<lambda>(k, v). json_string k @ '':'' @ json_string v) es) @ rest) =
    map_option (\<lambda>us. join [T_comma] (map entry_toks es) @ us) (json_lex L_idle rest)"
  using assms
proof (induction es)
  case (Cons e es)
  obtain k v where e: "e = (k, v)" by (cases e)
  have kv: "list_all json_plain k" "list_all json_plain v" using Cons.prems e by (auto simp: plain_entry_def)
  have one: "json_lex L_idle (json_string k @ CHR '':'' # json_string v @ r) =
      map_option (\<lambda>us. entry_toks e @ us) (json_lex L_idle r)" for r
    by (simp add: lex_json_string [OF kv(1)] lex_json_string [OF kv(2)] lex_punct option.map_comp comp_def e)
  show ?case
  proof (cases es)
    case Nil
    then show ?thesis using one [of rest] e by simp
  next
    case (Cons f fs)
    then have "es \<noteq> []" "list_all plain_entry es" using \<open>list_all plain_entry (e # es)\<close> by auto
    then show ?thesis
      using Cons.IH one [of "CHR '','' # join '','' (map (\<lambda>(k, v). json_string k @ '':'' @ json_string v) es) @ rest"] e Cons
      by (simp add: lex_punct option.map_comp comp_def)
  qed
qed simp

definition json_entry :: "string \<times> string \<Rightarrow> string \<times> json" where
  "json_entry e = (fst e, JStr (snd e))"

lemma p_entry:
  assumes "plain_entry e" and "st = P_name \<or> st = P_first"
  shows "p_run (entry_toks e @ ts) (F_obj acc # fs, st) = p_run ts (F_key acc (fst e) # fs, P_done (JStr (snd e)))"
  using assms by (auto simp: plain_entry_def p_name_def p_value_def p_scalar_def unquote_plain)

lemma p_entries:
  assumes "list_all plain_entry es" and "es \<noteq> []" and "st = P_name \<or> st = P_first"
  shows "p_run (join [T_comma] (map entry_toks es) @ T_rbrace # ts) (F_obj acc # fs, st) =
    p_run ts (fs, P_done (JObj (rev acc @ map json_entry es)))"
  using assms
proof (induction es arbitrary: acc st)
  case (Cons e es)
  have e: "plain_entry e" using Cons.prems by simp
  show ?case
  proof (cases es)
    case Nil
    then show ?thesis using p_entry [OF e Cons.prems(3), of "T_rbrace # ts" acc fs] by (simp add: json_entry_def)
  next
    case (Cons f gs)
    have "p_run (join [T_comma] (map entry_toks es) @ T_rbrace # ts) (F_obj ((fst e, JStr (snd e)) # acc) # fs, P_name) =
        p_run ts (fs, P_done (JObj (rev ((fst e, JStr (snd e)) # acc) @ map json_entry es)))"
      by (rule Cons.IH) (use Cons.prems Cons in auto)
    then show ?thesis
      using p_entry [OF e Cons.prems(3), of "T_comma # join [T_comma] (map entry_toks es) @ T_rbrace # ts" acc fs] Cons
      by (simp add: json_entry_def [abs_def])
  qed
qed simp

text \<open>The tokens and the value of an encoded map, followed by anything.\<close>

definition map_toks :: "gomap \<Rightarrow> tok list" where
  "map_toks m = T_lbrace # join [T_comma] (map entry_toks (sort_key fst m)) @ [T_rbrace]"

lemma lex_json_map:
  assumes "list_all plain_entry m"
  shows "json_lex L_idle (json_map m @ rest) = map_option (\<lambda>us. map_toks m @ us) (json_lex L_idle rest)"
proof (cases "m = []")
  case True
  then show ?thesis by (simp add: json_map_def map_toks_def lex_punct option.map_comp comp_def)
next
  case False
  have "list_all plain_entry (sort_key fst m)" "sort_key fst m \<noteq> []"
    using assms False by (simp_all add: list_all_iff) (metis length_0_conv length_sort)
  then show ?thesis
    using lex_entries [of "sort_key fst m" "''}'' @ rest"]
    by (simp add: json_map_def map_toks_def lex_punct option.map_comp comp_def)
qed

lemma p_json_map:
  assumes "list_all plain_entry m"
  shows "p_run (map_toks m @ ts) (fs, P_value) = p_run ts (fs, P_done (JObj (map json_entry (sort_key fst m))))"
proof (cases "m = []")
  case True
  then show ?thesis by (simp add: map_toks_def p_value_def)
next
  case False
  have "list_all plain_entry (sort_key fst m)" "sort_key fst m \<noteq> []"
    using assms False by (simp_all add: list_all_iff) (metis length_0_conv length_sort)
  then show ?thesis
    using p_entries [of "sort_key fst m" P_first ts "[]" fs] by (simp add: map_toks_def p_value_def)
qed

lemma dec_json_entries: "dec_entries (map json_entry es) m = (fold (\<lambda>(k, v). gm_set k v) es m, False)"
  by (induction es arbitrary: m) (auto simp: json_entry_def dec_string_def Let_def)

lemma dec_json_map:
  assumes "gm_ok m"
  shows "\<exists>m'. dec_map (JObj (map json_entry (sort_key fst m))) v0 = (Some m', False) \<and>
    (v0 = None \<or> v0 = Some [] \<longrightarrow> map_of m' = map_of m \<and> gm_ok m')"
proof -
  have s: "mset (sort_key fst m) = mset m" by simp
  have ok: "gm_ok (sort_key fst m)" using assms gm_ok_perm [OF s] by simp
  have "map_of (gm_of (sort_key fst m)) = map_of m"
    using map_of_rev_distinct [OF ok] map_of_perm [OF s assms] by (simp add: map_of_gm_of)
  then show ?thesis
    by (auto simp: dec_map_def dec_json_entries gm_of_def split: option.split)
      (metis gm_of_def gm_ok_gm_of)+
qed

end
