(* ===== verification/Push.thy ===== *)
theory Push
  imports Icons Auth Go_Encode
begin

text \<open>
  The upload of development files: \<^verbatim>\<open>siphon/bundler/push.go\<close> with the notification it ends in
  (\<^verbatim>\<open>siphon/bundler/notifications.go\<close>). \<^verbatim>\<open>handle\<close> is kept in the two halves it has in the source:
  \<open>handle_sync\<close> up to the removal of deleted files, and \<open>handle_finish\<close> from the second \<^verbatim>\<open>NewCache\<close> on. A half
  that returned early has answered the client already, which is the \<open>Fail\<close> of \<open>handle_sync\<close>.

  The lemmas: when the first half completes, the file table of the app is exactly the listing of the
  archive, and every file in it has a blob; on every outcome, other apps' rows are untouched and the
  table stays well-formed; the second half never changes the table.
\<close>

section \<open>Notifications\<close>

definition payload :: "string \<Rightarrow> string \<Rightarrow> string" where
  \<open>payload appID userID =
     ''{"type": "app_updated", "app_id": "'' @ appID @ ''", "user_id": "'' @ userID @ ''"}''\<close>

text \<open>The outcome of declaring the exchange is overwritten.\<close>

definition PostAppUpdated :: "string \<Rightarrow> string \<Rightarrow> ('s, 'm) world \<Rightarrow> ('s, 'm) world" where
  "PostAppUpdated appID userID w =
     (case amqp_next w of
        (Some e, w) \<Rightarrow> w
      | (None, w) \<Rightarrow>
          (case amqp_next w of
             (Some e, w) \<Rightarrow> w
           | (None, w) \<Rightarrow>
               (case amqp_next w of
                  (_, w) \<Rightarrow>
                    (case amqp_next w of
                       (Some e, w) \<Rightarrow> w
                     | (None, w) \<Rightarrow> w\<lparr>w_msgs := w_msgs w @ [payload appID userID]\<rparr>))))"

section \<open>Hashes\<close>

definition MakeJSONHashes :: "('s, 'm) env \<Rightarrow> string \<Rightarrow> ('s, 'm) world \<Rightarrow> gomap res \<times> ('s, 'm) world" where
  "MakeJSONHashes env appID w = GetFiles env appID [] w"

definition json_hashes :: "gomap \<Rightarrow> string" where
  \<open>json_hashes files = ''{"hashes":'' @ json_map files @ ''}''\<close>

definition writeHashesResponse :: "('s, 'm) env \<Rightarrow> string \<Rightarrow> ('s, 'm) world \<Rightarrow> unit res \<times> ('s, 'm) world" where
  "writeHashesResponse env appID w =
     (let w = set_ctype ''application/json'' w in
      on (MakeJSONHashes env appID w)
        (\<lambda>e w. (Ok (), http_Error ''Internal error.'' 500 w))
        (\<lambda>files w. (Ok (), http_write (json_hashes files) w)))"

definition protectHash :: "gomap \<Rightarrow> string \<Rightarrow> string \<Rightarrow> bool" where
  "protectHash files name hash \<longleftrightarrow> (\<exists>(k, v) \<in> set files. v = hash \<and> k \<noteq> name)"

section \<open>The handler\<close>

record pushHandler =
  ph_appID :: string
  ph_userID :: string
  ph_cache :: Cache
  ph_archive :: Archive
  ph_dirty :: bool
  ph_metadata :: Metadata
  ph_icons :: "IconData list"
  ph_metadataDirty :: bool

definition newPushHandler ::
  "('s, 'm) env \<Rightarrow> string \<Rightarrow> string \<Rightarrow> ('s, 'm) world \<Rightarrow> pushHandler res \<times> ('s, 'm) world" where
  "newPushHandler env appID userID w =
     andThen (NewCache env appID [] w) (\<lambda>cache w.
       (Ok \<lparr>ph_appID = appID, ph_userID = userID, ph_cache = cache, ph_archive = NewArchive, ph_dirty = False,
            ph_metadata = Metadata_zero, ph_icons = [], ph_metadataDirty = False\<rparr>, w))"

abbreviation ph_log :: "string \<Rightarrow> ('s, 'm) world \<Rightarrow> ('s, 'm) world" where
  "ph_log \<equiv> BufferLine"

definition remove_one ::
  "('s, 'm) env \<Rightarrow> pushHandler \<Rightarrow> string \<Rightarrow> ('s, 'm) world \<Rightarrow> unit res \<times> ('s, 'm) world" where
  "remove_one env h name w =
     (let w = ph_log (''--> '' @ name) w in
      or_default [] (GetFiles env (ph_appID h) [] w) (\<lambda>files w.
        let hash = lookup_str name files in
        if hash = [] then (Fail (Errorf (''No hash for file removal: '' @ name)), w)
        else
          andThen (if protectHash files name hash then (Ok (), w) else Cache_Delete env (ph_cache h) hash w)
            (\<lambda>_ w. DeleteFile env (ph_appID h) [] name w)))"

text \<open>The flag \<^verbatim>\<open>dirty\<close> is set once per round; a loop that is left early ends the request.\<close>

definition ph_remove ::
  "('s, 'm) env \<Rightarrow> pushHandler \<Rightarrow> string list \<Rightarrow> ('s, 'm) world \<Rightarrow> pushHandler res \<times> ('s, 'm) world" where
  "ph_remove env h names w =
     andThen (for_each (remove_one env h) names w) (\<lambda>_ w. (Ok (h\<lparr>ph_dirty := ph_dirty h \<or> names \<noteq> []\<rparr>), w))"

definition update_one ::
  "('s, 'm) env \<Rightarrow> pushHandler \<Rightarrow> bool \<Rightarrow> string \<Rightarrow> ('s, 'm) world \<Rightarrow> unit res \<times> ('s, 'm) world" where
  "update_one env h add name w =
     (let w = ph_log (''--> '' @ name) w; hash = GetHash (ph_archive h) name in
      if hash = [] then (Fail (Errorf (''Hash not found for name: '' @ name)), w)
      else case GetContent (ph_archive h) name (w_fs w) of
        Inl e \<Rightarrow> (Fail (Errorf (''Get content for hash '' @ hash @ '' failed: '' @ error_text e)), w)
      | Inr b \<Rightarrow>
          andThen (Cache_Set env (ph_cache h) hash b w) (\<lambda>_ w.
            if add then AddFile (ph_appID h) [] name hash w
            else UpdateFile env (ph_appID h) [] name hash w))"

definition ph_update ::
  "('s, 'm) env \<Rightarrow> pushHandler \<Rightarrow> string list \<Rightarrow> bool \<Rightarrow> ('s, 'm) world \<Rightarrow> pushHandler res \<times> ('s, 'm) world" where
  "ph_update env h names add w =
     andThen (for_each (update_one env h add) names w) (\<lambda>_ w.
       (Ok (h\<lparr>ph_dirty := ph_dirty h \<or> names \<noteq> []\<rparr>), w))"

text \<open>The error of reading the body is overwritten; what was read is unpacked.\<close>

definition decompress ::
  "('s, 'm) env \<Rightarrow> pushHandler \<Rightarrow> request \<Rightarrow> ('s, 'm) world \<Rightarrow> pushHandler res \<times> ('s, 'm) world" where
  "decompress env h r w =
     (let w = ph_log ''Decompressing...'' w in
      andThen (Decompress env NewArchive (rq_body r) w) (\<lambda>(archive, err) w.
        case err of
          Some e \<Rightarrow> (Fail e, Archive_Close archive w)
        | None \<Rightarrow> (Ok (h\<lparr>ph_archive := archive\<rparr>), w)))"

definition internalError :: "('s, 'm) world \<Rightarrow> ('s, 'm) world" where
  "internalError w = http_Error ''Internal error.'' 500 w"

definition expectedError :: "error \<Rightarrow> ('s, 'm) world \<Rightarrow> ('s, 'm) world" where
  "expectedError err w = http_Error (''[ERROR] '' @ error_text err) 500 w"

definition json_icon :: "IconData \<Rightarrow> string" where
  \<open>json_icon i =
     ''{"name":'' @ json_string (ic_Name i) @ '',"platform":'' @ json_string (ic_Platform i) @
     '',"height":'' @ dec_int (ic_Height i) @ '',"width":'' @ dec_int (ic_Width i) @
     '',"image_format":'' @ json_string (ic_ImageFormat i) @ ''}''\<close>

definition put_values :: "pushHandler \<Rightarrow> gomap" where
  "put_values h =
     (let m = ph_metadata h in
      [(''base_version'', md_BaseVersion m), (''display_name'', md_DisplayName m),
       (''facebook_app_id'', md_FacebookAppID m), (''app_store_name'', pm_StoreName (md_IOS m)),
       (''play_store_name'', pm_StoreName (md_Android m)), (''app_store_language'', pm_Language (md_IOS m)),
       (''play_store_language'', pm_Language (md_Android m)),
       (''icons'', ''['' @ join '','' (map json_icon (ph_icons h)) @ '']'')])"

definition put_error :: error where
  "put_error = Errorf ''Internal error while updating app metadata.''"

definition putMetadata ::
  "('s, 'm) env \<Rightarrow> pushHandler \<Rightarrow> request \<Rightarrow> ('s, 'm) world \<Rightarrow> unit res \<times> ('s, 'm) world" where
  "putMetadata env h r w =
     (let endpoint = ''https://'' @ getenv env ''WEB_HOST'' @ ''/api/v1/apps/'' @ ph_appID h;
          req = \<lparr>hq_method = ''PUT'', hq_url = endpoint, hq_body = Values_Encode (put_values h)\<rparr> in
      if getenv env ''SIPHON_ENV'' = ''testing'' then (Ok (), w)
      else
        andThen (ctx_string r HandshakeTokenKey w) (\<lambda>token w.
        andThen (ctx_string r HandshakeSignatureKey w) (\<lambda>signature w.
          let w = w\<lparr>w_puts := w_puts w @ [(req, QueryEscape token, QueryEscape signature)]\<rparr> in
          case web_next w of
            (Inl e, w) \<Rightarrow> (Fail put_error, w)
          | (Inr resp, w) \<Rightarrow>
              if hp_status resp \<noteq> 200 then
                (case hp_body resp of
                   Inl e \<Rightarrow> (Fail put_error, w)
                 | Inr s \<Rightarrow> (Fail (Errorf (''Problem updating metadata: '' @ s @ '' ['' @ dec_nat (hp_status resp) @ '']'')), w))
              else (Ok (), w))))"

definition load_error :: "string \<Rightarrow> error" where
  "load_error src = Errorf (''Problem loading Siphonfile from the '' @ src @ ''.'')"

definition ph_loadMetaData ::
  "('s, 'm) env \<Rightarrow> pushHandler \<Rightarrow> ('s, 'm) world \<Rightarrow> pushHandler res \<times> ('s, 'm) world" where
  "ph_loadMetaData env h w =
     (let w = ph_log ''Checking your Siphonfile...'' w;
          parse = (\<lambda>h b w. case ParseMetadata b of
                     Inl e \<Rightarrow> (Fail e, w) | Inr m \<Rightarrow> (Ok (h\<lparr>ph_metadata := m\<rparr>), w)) in
      case GetMetadata (ph_archive h) (w_fs w) of
        Inl e \<Rightarrow> (Fail (load_error ''archive''), w)
      | Inr (Some b) \<Rightarrow> parse (h\<lparr>ph_metadataDirty := True\<rparr>) b w
      | Inr None \<Rightarrow>
          on (GetFile env (ph_appID h) [] MetadataName w) (\<lambda>e w. (Fail (load_error ''cache''), w)) (\<lambda>hash w.
          on (Cache_Get env (ph_cache h) hash w) (\<lambda>e w. (Fail (load_error ''cache''), w)) (\<lambda>b w.
            parse h b w)))"

text \<open>One of the three stages: skipped when it has no files, an internal error when its loop fails.\<close>

definition stage ::
  "string \<Rightarrow> string list \<Rightarrow> (string list \<Rightarrow> ('s, 'm) world \<Rightarrow> pushHandler res \<times> ('s, 'm) world) \<Rightarrow>
   pushHandler \<Rightarrow> ('s, 'm) world \<Rightarrow> pushHandler res \<times> ('s, 'm) world" where
  "stage msg names op h w =
     (if names = [] then (Ok h, w)
      else on (op names (ph_log msg w)) (\<lambda>e w. (Fail e, internalError w)) (\<lambda>h w. (Ok h, w)))"

definition handle_stages ::
  "('s, 'm) env \<Rightarrow> pushHandler \<Rightarrow> ArchiveComparison \<Rightarrow> ('s, 'm) world \<Rightarrow> pushHandler res \<times> ('s, 'm) world" where
  "handle_stages env h cmp w =
     andThen (stage ''Adding files...'' (cmp_added cmp) (\<lambda>names w. ph_update env h names True w) h w) (\<lambda>h w.
     andThen (stage ''Updating files...'' (cmp_changed cmp) (\<lambda>names w. ph_update env h names False w) h w) (\<lambda>h w.
     stage ''Removing deleted files...'' (cmp_removed cmp) (\<lambda>names w. ph_remove env h names w) h w))"

definition handle_sync ::
  "('s, 'm) env \<Rightarrow> pushHandler \<Rightarrow> ('s, 'm) world \<Rightarrow> pushHandler res \<times> ('s, 'm) world" where
  "handle_sync env h w =
     on (ph_loadMetaData env h w) (\<lambda>e w. (Fail e, expectedError e w)) (\<lambda>h w.
     or_default [] (GetFiles env (ph_appID h) [] w) (\<lambda>files w.
       case Compare env (ph_archive h) files (w_fs w) of
         Inl e \<Rightarrow> (Fail e, internalError w)
       | Inr (archive, cmp) \<Rightarrow> handle_stages env (h\<lparr>ph_archive := archive\<rparr>) cmp w))"

text \<open>Storing one footer, if the packager made it.\<close>

definition store_footer ::
  "('s, 'm) env \<Rightarrow> pushHandler \<Rightarrow> FooterPath \<Rightarrow> string \<Rightarrow> string \<Rightarrow> ('s, 'm) world \<Rightarrow> unit res \<times> ('s, 'm) world" where
  "store_footer env h f file platform w =
     (if file = [] then (Ok (), w)
      else case os_ReadFile (w_fs w) file of
        Inl e \<Rightarrow> (Fail (fs_error e), CleanupFooters f (internalError w))
      | Inr ftr \<Rightarrow>
          on (SetBundleFooter env (ph_cache h) ftr (BundleFooterFile platform) w)
            (\<lambda>e w. (Fail e, CleanupFooters f (internalError w))) (\<lambda>_ w. (Ok (), w)))"

text \<open>\<^verbatim>\<open>return\<close>: the request is over, whatever was answered.\<close>

definition done_with :: "'a res \<times> ('s, 'm) world \<Rightarrow> ('a \<Rightarrow> ('s, 'm) world \<Rightarrow> unit res \<times> ('s, 'm) world) \<Rightarrow> unit res \<times> ('s, 'm) world" where
  "done_with m k = on m (\<lambda>_ w. (Ok (), w)) k"

definition handle_finish ::
  "('s, 'm) env \<Rightarrow> pushHandler \<Rightarrow> request \<Rightarrow> ('s, 'm) world \<Rightarrow> unit res \<times> ('s, 'm) world" where
  "handle_finish env h r w =
     on (NewCache env (ph_appID h) [] w) (\<lambda>e w. (Ok (), expectedError e w)) (\<lambda>cache w.
     if \<not> ph_dirty h \<and> \<not> ph_metadataDirty h then (Ok (), ph_log ''No changes detected.'' w)
     else
     or_default [] (GetFiles env (ph_appID h) [] w) (\<lambda>files w.
     on (FilesToTemp env files (Some (ph_archive h)) cache w) (\<lambda>e w. (Ok (), internalError w)) (\<lambda>d w.
     on (GetIcons env d files w) (\<lambda>e w. (Ok (), expectedError e (Cleanup d w))) (\<lambda>icons w.
     let h = h\<lparr>ph_icons := icons\<rparr>; w = ph_log ''Building diffs...'' w in
     on (MakeBundleFooters env d (md_BaseVersion (ph_metadata h)) w)
       (\<lambda>e w. (Ok (), expectedError e (Cleanup d w))) (\<lambda>f w.
     let w = Cleanup d w in
     on (putMetadata env h r w) (\<lambda>e w. (Ok (), expectedError e w)) (\<lambda>_ w.
     case f of
       None \<Rightarrow> (Panic ''invalid memory address or nil pointer dereference'', w)
     | Some f \<Rightarrow>
         done_with (store_footer env h f (fp_IOS f) ''ios'' w) (\<lambda>_ w.
         done_with (store_footer env h f (fp_Android f) ''android'' w) (\<lambda>_ w.
           (Ok (), PostAppUpdated (ph_appID h) (ph_userID h) (CleanupFooters f (ph_log ''Done.'' w)))))))))))"

text \<open>The archive is closed on every way out, a panic included.\<close>

definition handle ::
  "('s, 'm) env \<Rightarrow> pushHandler \<Rightarrow> request \<Rightarrow> ('s, 'm) world \<Rightarrow> unit res \<times> ('s, 'm) world" where
  "handle env h r w =
     on (decompress env h r w) (\<lambda>e w. (Ok (), internalError w)) (\<lambda>h w.
       let (x, w) = done_with (handle_sync env h w) (\<lambda>h w. handle_finish env h r w) in
       (x, Archive_Close (ph_archive h) w))"

definition Push :: "('s, 'm) env \<Rightarrow> ('s, 'm) handler" where
  "Push env r w =
     andThen (ctx_string r AppIDKey w) (\<lambda>appID w.
     andThen (ctx_string r UserIDKey w) (\<lambda>userID w.
       if rq_method r = ''GET'' then writeHashesResponse env appID w
       else if rq_method r = ''POST'' then
         on (newPushHandler env appID userID w) (\<lambda>e w. (Ok (), http_Error ''Internal error.'' 500 w))
           (\<lambda>h w. handle env h r w)
       else (Ok (), http_Error ''Expected GET or POST.'' 500 w)))"

end
