(* ===== verification/Push_Correct.thy ===== *)
theory Push_Correct
  imports Push
begin

text \<open>
  What a push does to the file table and to the blobs: the lemmas behind the properties of
  \<^verbatim>\<open>push.go\<close>. First what leaves the table alone, then the invariant of the table on every outcome,
  then the effect of the three stages when they complete, then the blobs.
\<close>

named_theorems rows_same \<open>operations that leave the file table alone\<close>

section \<open>What leaves the table alone\<close>

lemma Cache_rows [rows_same]:
  "w_rows (snd (Cache_Get env c k w)) = w_rows w" "w_rows (snd (Cache_Set env c k b w)) = w_rows w"
  "w_rows (snd (Cache_Delete env c k w)) = w_rows w"
  by (rule store_frameD(1), rule frame)+

lemma NewCache_rows [rows_same]: "w_rows (snd (NewCache env a s w)) = w_rows w"
  by (auto simp: NewCache_def split: sum.split)

lemma query_rows [rows_same]:
  "w_rows (snd (GetFiles env a s w)) = w_rows w" "w_rows (snd (GetFile env a s n w)) = w_rows w"
  using GetFiles_frame [of w env a s] GetFile_frame [of w env a s n] by auto

lemma log_rows [rows_same]:
  "w_rows (BufferLine m w) = w_rows w" "w_rows (internalError w) = w_rows w" "w_rows (expectedError e w) = w_rows w"
  by (simp_all add: BufferLine_def internalError_def expectedError_def)

lemma fs_rows [rows_same]:
  "w_rows (fs_remove p w) = w_rows w" "w_rows (Cleanup p w) = w_rows w" "w_rows (CleanupFooters f w) = w_rows w"
  "w_rows (Archive_Close a w) = w_rows w" "w_rows (snd (TempDir env pre w)) = w_rows w"
  "w_rows (snd (Unzip env s d w)) = w_rows w" "w_rows (snd (MakeBundleFooters env d v w)) = w_rows w"
  using fs_frameD(1) [OF CleanupFooters_frame [of w f]] fs_frameD(1) [OF TempDir_frame [of w env pre]]
    fs_frameD(1) [OF Unzip_frame [of w env s d]] fs_frameD(1) [OF MakeBundleFooters_frame [of w env d v]]
  by (simp_all add: fs_remove_def Cleanup_def Archive_Close_def)

lemma work_rows [rows_same]: "w_rows (snd (FilesToTemp env files a c w)) = w_rows w" "w_rows (snd (GetIcons env d files w)) = w_rows w"
  using work_frameD(1) [OF FilesToTemp_frame [of w env files a c]] by (simp_all add: GetIcons_def)

lemma amqp_rows [rows_same]: "w_rows (PostAppUpdated a u w) = w_rows w"
  by (auto simp: PostAppUpdated_def amqp_next_def split: list.split option.split)

lemma putMetadata_rows [rows_same]: "w_rows (snd (putMetadata env h r w)) = w_rows w"
  by (auto simp: putMetadata_def Let_def ctx_string_def web_next_def split: option.split list.split sum.split)

lemma store_footer_rows [rows_same]: "w_rows (snd (store_footer env h f p pl w)) = w_rows w"
  by (auto simp: store_footer_def SetBundleFooter_def rows_same split: sum.split
      intro!: on_keeps [where Q = "\<lambda>v. w_rows v = w_rows w"])

lemma Decompress_rows [rows_same]: "w_rows (snd (Decompress env a b w)) = w_rows w"
  unfolding Decompress_def Let_def
  by (intro on_keeps [where Q = "\<lambda>v. w_rows v = w_rows w"]) (auto simp: rows_same split: sum.split)

lemma ph_loadMetaData_rows [rows_same]: "w_rows (snd (ph_loadMetaData env h w)) = w_rows w"
  unfolding ph_loadMetaData_def Let_def
  by (auto simp: rows_same split: sum.split option.split intro!: on_keeps [where Q = "\<lambda>v. w_rows v = w_rows w"])

lemma decompress_rows [rows_same]: "w_rows (snd (decompress env h r w)) = w_rows w"
  unfolding decompress_def Let_def
  by (intro andThen_keeps [where Q = "\<lambda>v. w_rows v = w_rows w"]) (auto simp: rows_same split: prod.split option.split)

text \<open>The second half of the handler: building and storing the footers.\<close>

lemma handle_finish_rows [rows_same]: "w_rows (snd (handle_finish env h r w)) = w_rows w"
proof -
  let ?Q = "\<lambda>v :: ('a, 'b) world. w_rows v = w_rows w"
  have tail: "?Q (snd (case f of None \<Rightarrow> (Panic ''invalid memory address or nil pointer dereference'', v)
     | Some f \<Rightarrow> done_with (store_footer env h' f (fp_IOS f) ''ios'' v) (\<lambda>_ w.
         done_with (store_footer env h' f (fp_Android f) ''android'' w) (\<lambda>_ w.
           (Ok (), PostAppUpdated (ph_appID h') (ph_userID h') (CleanupFooters f (ph_log ''Done.'' w)))))))"
    if "?Q v" for f h' v
    using that unfolding done_with_def
    by (auto simp: rows_same split: option.split intro!: on_keeps [where Q = ?Q])
  show ?thesis
    unfolding handle_finish_def Let_def
    by (intro on_keeps [where Q = ?Q] or_default_keeps [where Q = ?Q])
      (auto simp: rows_same tail intro!: on_keeps [where Q = ?Q] or_default_keeps [where Q = ?Q])
qed

section \<open>The table on every outcome\<close>

definition row_safe :: "row \<Rightarrow> bool" where
  "row_safe r \<longleftrightarrow> \<not> sublist ''../'' (r_name r) \<and> r_hash r \<noteq> []"

definition push_inv :: "string \<Rightarrow> row list \<Rightarrow> row list \<Rightarrow> bool" where
  "push_inv app rows0 rows \<longleftrightarrow>
     rows_ok rows \<and> (\<forall>r \<in> set rows. in_ns app [] r \<longrightarrow> row_safe r) \<and> other_rows app [] rows = other_rows app [] rows0"

lemma AddFile_inv:
  assumes "push_inv app rs (w_rows w)" and "\<not> sublist ''../'' n" and "h \<noteq> []"
  shows "push_inv app rs (w_rows (snd (AddFile app [] n h w)))"
proof -
  obtain r w' where op: "AddFile app [] n h w = (r, w')" by (cases "AddFile app [] n h w")
  have "\<forall>r \<in> set (w_rows w'). in_ns app [] r \<longrightarrow> row_safe r"
    using op assms by (elim AddFile_cases) (auto simp: push_inv_def row_safe_def)
  then show ?thesis
    using AddFile_rows_ok [OF op] AddFile_other [OF op] assms(1) op by (auto simp: push_inv_def)
qed

lemma UpdateFile_inv:
  assumes "push_inv app rs (w_rows w)" and "h \<noteq> []"
  shows "push_inv app rs (w_rows (snd (UpdateFile env app [] n h w)))"
proof -
  obtain r w' where op: "UpdateFile env app [] n h w = (r, w')" by (cases "UpdateFile env app [] n h w")
  have "\<forall>r \<in> set (w_rows w'). in_ns app [] r \<longrightarrow> row_safe r"
    using op [unfolded UpdateFile_def] assms
    by (elim exec_where_cases) (auto simp: push_inv_def row_safe_def)
  then show ?thesis
    using UpdateFile_rows_ok [OF op] UpdateFile_other [OF op] assms(1) op by (auto simp: push_inv_def)
qed

lemma DeleteFile_inv:
  assumes "push_inv app rs (w_rows w)"
  shows "push_inv app rs (w_rows (snd (DeleteFile env app [] n w)))"
proof -
  obtain r w' where op: "DeleteFile env app [] n w = (r, w')" by (cases "DeleteFile env app [] n w")
  have "\<forall>r \<in> set (w_rows w'). in_ns app [] r \<longrightarrow> row_safe r"
    using op [unfolded DeleteFile_def] assms
    by (elim exec_where_cases) (auto simp: push_inv_def)
  then show ?thesis
    using DeleteFile_rows_ok [OF op] DeleteFile_other [OF op] assms(1) op by (auto simp: push_inv_def)
qed

lemma update_one_inv:
  assumes "push_inv (ph_appID h) rs (w_rows w)" and "\<not> sublist ''../'' n"
  shows "push_inv (ph_appID h) rs (w_rows (snd (update_one env h add n w)))"
  using assms unfolding update_one_def Let_def
  by (auto simp: rows_same AddFile_inv UpdateFile_inv split: sum.split
      intro!: andThen_keeps [where Q = "\<lambda>v. push_inv (ph_appID h) rs (w_rows v)"])

lemma remove_one_inv:
  assumes "push_inv (ph_appID h) rs (w_rows w)"
  shows "push_inv (ph_appID h) rs (w_rows (snd (remove_one env h n w)))"
  using assms unfolding remove_one_def Let_def
  by (auto simp: rows_same DeleteFile_inv
      intro!: or_default_keeps [where Q = "\<lambda>v. push_inv (ph_appID h) rs (w_rows v)"]
        andThen_keeps [where Q = "\<lambda>v. push_inv (ph_appID h) rs (w_rows v)"])

lemma stage_keeps:
  assumes "Q (w_rows w)" and "Q (w_rows w) \<Longrightarrow> Q (w_rows (snd (op names (ph_log msg w))))"
  shows "Q (w_rows (snd (stage msg names op h w)))"
  using assms unfolding stage_def by (auto simp: rows_same intro!: on_keeps [where Q = "\<lambda>v. Q (w_rows v)"])

lemma ph_update_inv:
  assumes "push_inv (ph_appID h) rs (w_rows w)" and "\<And>n. n \<in> set names \<Longrightarrow> \<not> sublist ''../'' n"
  shows "push_inv (ph_appID h) rs (w_rows (snd (ph_update env h names add w)))"
  unfolding ph_update_def
proof (rule andThen_keeps [where Q = "\<lambda>v. push_inv (ph_appID h) rs (w_rows v)"])
  show "push_inv (ph_appID h) rs (w_rows (snd (for_each (update_one env h add) names w)))"
    by (rule for_each_keeps [where Q = "\<lambda>v. push_inv (ph_appID h) rs (w_rows v)"])
      (simp_all add: assms update_one_inv)
qed simp

lemma ph_remove_inv:
  assumes "push_inv (ph_appID h) rs (w_rows w)"
  shows "push_inv (ph_appID h) rs (w_rows (snd (ph_remove env h names w)))"
  unfolding ph_remove_def
proof (rule andThen_keeps [where Q = "\<lambda>v. push_inv (ph_appID h) rs (w_rows v)"])
  show "push_inv (ph_appID h) rs (w_rows (snd (for_each (remove_one env h) names w)))"
    by (rule for_each_keeps [where Q = "\<lambda>v. push_inv (ph_appID h) rs (w_rows v)"])
      (simp_all add: assms remove_one_inv)
qed simp


text \<open>The stages change nothing in the handler but the flag.\<close>

lemma one_dirty [simp]:
  "update_one env (h\<lparr>ph_dirty := b\<rparr>) = update_one env h" "remove_one env (h\<lparr>ph_dirty := b\<rparr>) = remove_one env h"
  by (simp_all add: update_one_def remove_one_def fun_eq_iff Let_def cong: if_cong sum.case_cong)

definition start_stage :: "string \<Rightarrow> string list \<Rightarrow> ('s, 'm) world \<Rightarrow> ('s, 'm) world" where
  "start_stage msg names w = (if names = [] then w else ph_log msg w)"

lemma log_fields [simp]:
  "w_rows (BufferLine m w) = w_rows w" "w_dbq (BufferLine m w) = w_dbq w" "w_s3 (BufferLine m w) = w_s3 w"
  "w_mc (BufferLine m w) = w_mc w" "w_fs (BufferLine m w) = w_fs w"
  by (simp_all add: BufferLine_def)

lemma start_stage_fields [simp]:
  "w_rows (start_stage m ns w) = w_rows w" "w_dbq (start_stage m ns w) = w_dbq w" "w_s3 (start_stage m ns w) = w_s3 w"
  "w_mc (start_stage m ns w) = w_mc w" "w_fs (start_stage m ns w) = w_fs w"
  by (simp_all add: start_stage_def)

lemma stage_update_Ok:
  assumes "stage msg names (\<lambda>names w. ph_update env h names add w) h w = (Ok h', w')"
  shows "h' = h\<lparr>ph_dirty := ph_dirty h \<or> names \<noteq> []\<rparr>"
    and "for_each (update_one env h add) names (start_stage msg names w) = (Ok (), w')"
  using assms by (auto simp: stage_def ph_update_def andThen_eq_Ok on_eq_Ok start_stage_def split: if_splits)

lemma stage_remove_Ok:
  assumes "stage msg names (\<lambda>names w. ph_remove env h names w) h w = (Ok h', w')"
  shows "h' = h\<lparr>ph_dirty := ph_dirty h \<or> names \<noteq> []\<rparr>"
    and "for_each (remove_one env h) names (start_stage msg names w) = (Ok (), w')"
  using assms by (auto simp: stage_def ph_remove_def andThen_eq_Ok on_eq_Ok start_stage_def split: if_splits)

lemma handle_stages_inv:
  assumes "push_inv (ph_appID h) rs (w_rows w)"
    and "\<And>n. n \<in> set (cmp_added c) \<union> set (cmp_changed c) \<Longrightarrow> \<not> sublist ''../'' n"
  shows "push_inv (ph_appID h) rs (w_rows (snd (handle_stages env h c w)))"
  unfolding handle_stages_def
proof (rule andThen_keeps [where Q = "\<lambda>v. push_inv (ph_appID h) rs (w_rows v)"])
  show "push_inv (ph_appID h) rs (w_rows (snd (stage ''Adding files...'' (cmp_added c)
      (\<lambda>names w. ph_update env h names True w) h w)))"
    by (rule stage_keeps) (use assms in \<open>auto intro!: ph_update_inv simp: rows_same\<close>)
  fix h1 v
  assume "stage ''Adding files...'' (cmp_added c) (\<lambda>names w. ph_update env h names True w) h w = (Ok h1, v)"
    and v: "push_inv (ph_appID h) rs (w_rows v)"
  then have a1: "ph_appID h = ph_appID h1" by (auto dest: stage_update_Ok(1))
  show "push_inv (ph_appID h) rs (w_rows (snd (andThen (stage ''Updating files...'' (cmp_changed c)
      (\<lambda>names w. ph_update env h1 names False w) h1 v)
      (\<lambda>h w. stage ''Removing deleted files...'' (cmp_removed c) (\<lambda>names w. ph_remove env h names w) h w))))"
  proof (rule andThen_keeps [where Q = "\<lambda>v. push_inv (ph_appID h) rs (w_rows v)"])
    show "push_inv (ph_appID h) rs (w_rows (snd (stage ''Updating files...'' (cmp_changed c)
        (\<lambda>names w. ph_update env h1 names False w) h1 v)))"
      by (rule stage_keeps) (use v assms(2) a1 in \<open>auto intro!: ph_update_inv simp: rows_same\<close>)
    fix h2 u
    assume "stage ''Updating files...'' (cmp_changed c) (\<lambda>names w. ph_update env h1 names False w) h1 v = (Ok h2, u)"
      and u: "push_inv (ph_appID h) rs (w_rows u)"
    then have a2: "ph_appID h = ph_appID h2" using a1 by (auto dest: stage_update_Ok(1))
    show "push_inv (ph_appID h) rs (w_rows (snd (stage ''Removing deleted files...'' (cmp_removed c)
        (\<lambda>names w. ph_remove env h2 names w) h2 u)))"
      by (rule stage_keeps) (use u a2 in \<open>auto intro!: ph_remove_inv simp: rows_same\<close>)
  qed
qed

lemma GetFiles_gm_ok: "GetFiles env app sub w = (Ok m, w') \<Longrightarrow> gm_ok m"
  by (auto simp: GetFiles_def GetFilteredFiles_def select_files_def Let_def split: prod.splits option.splits db_outcome.splits)

lemma diff_names:
  assumes "range_law env" and "gm_ok files" and "ar_listing a \<noteq> None \<longrightarrow> listing_ok (listing_of a)"
    and "Compare env a files fs = Inr (a', c)" and "n \<in> set (cmp_added c) \<union> set (cmp_changed c)"
  shows "\<not> sublist ''../'' n"
proof -
  have "n \<in> dom (map_of (listing_of a'))"
    using Compare_diff(3) [OF assms(1-4)] assms(5) by (auto simp: is_diff_def)
  then show ?thesis
    using Compare_diff(2) [OF assms(1-4)] by (auto simp: listing_ok_def dest!: map_of_SomeD)
qed

definition listing_sane :: "pushHandler \<Rightarrow> bool" where
  "listing_sane h \<longleftrightarrow> (ar_listing (ph_archive h) \<noteq> None \<longrightarrow> listing_ok (listing_of (ph_archive h)))"

lemma parse_Ok:
  "(case ParseMetadata b of Inl e \<Rightarrow> (Fail e, w) | Inr m \<Rightarrow> (Ok (h\<lparr>ph_metadata := m\<rparr>), w)) = (Ok h', w') \<longleftrightarrow>
     (\<exists>m. ParseMetadata b = Inr m \<and> h' = h\<lparr>ph_metadata := m\<rparr> \<and> w' = w)"
  by (auto split: sum.splits)

lemma ph_loadMetaData_h:
  assumes "ph_loadMetaData env h w = (Ok h', w')"
  shows "ph_appID h' = ph_appID h \<and> ph_archive h' = ph_archive h \<and> ph_cache h' = ph_cache h
     \<and> ph_dirty h' = ph_dirty h \<and> metadata_ok (ph_metadata h')"
proof -
  have "\<exists>b m h1. ParseMetadata b = Inr m \<and> h' = h1\<lparr>ph_metadata := m\<rparr> \<and> (h1 = h \<or> h1 = h\<lparr>ph_metadataDirty := True\<rparr>)"
  proof (cases "GetMetadata (ph_archive h) (w_fs (ph_log ''Checking your Siphonfile...'' w))")
    case (Inr x)
    then show ?thesis
      using assms by (cases x) (auto simp: ph_loadMetaData_def Let_def on_eq_Ok parse_Ok)
  qed (use assms in \<open>auto simp: ph_loadMetaData_def\<close>)
  then show ?thesis by (auto simp: ParseMetadata_accepts)
qed

lemma handle_sync_inv:
  assumes "range_law env" and "listing_sane h" and "push_inv (ph_appID h) rs (w_rows w)"
  shows "push_inv (ph_appID h) rs (w_rows (snd (handle_sync env h w)))"
  unfolding handle_sync_def
proof (rule on_keeps [where Q = "\<lambda>v. push_inv (ph_appID h) rs (w_rows v)"])
  fix h1 v assume "ph_loadMetaData env h w = (Ok h1, v)" and v: "push_inv (ph_appID h) rs (w_rows v)"
  then have h1: "ph_appID h1 = ph_appID h" "ph_archive h1 = ph_archive h" using ph_loadMetaData_h by blast+
  have body: "push_inv (ph_appID h) rs (w_rows (snd (case Compare env (ph_archive h1) files (w_fs u) of
      Inl e \<Rightarrow> (Fail e, internalError u) | Inr (a, c) \<Rightarrow> handle_stages env (h1\<lparr>ph_archive := a\<rparr>) c u)))"
    if "gm_ok files" "push_inv (ph_appID h) rs (w_rows u)" for files u
    using that diff_names [OF assms(1) that(1) assms(2) [unfolded listing_sane_def]]
      handle_stages_inv [of "h1\<lparr>ph_archive := _\<rparr>" rs u] h1
    by (auto simp: rows_same split: sum.split)
  obtain x u where g: "GetFiles env (ph_appID h1) [] v = (x, u)" by (cases "GetFiles env (ph_appID h1) [] v")
  have u: "push_inv (ph_appID h) rs (w_rows u)" using query_rows(1) [of env "ph_appID h1" "[]" v] g v by simp
  show "push_inv (ph_appID h) rs (w_rows (snd (or_default [] (GetFiles env (ph_appID h1) [] v)
      (\<lambda>files w. case Compare env (ph_archive h1) files (w_fs w) of
         Inl e \<Rightarrow> (Fail e, internalError w) | Inr (a, c) \<Rightarrow> handle_stages env (h1\<lparr>ph_archive := a\<rparr>) c w))))"
    using body [OF _ u] u g GetFiles_gm_ok [of env "ph_appID h1" "[]" v] by (cases x) auto
qed (use assms(3) in \<open>auto simp: rows_same\<close>)

lemma decompress_h:
  "decompress env h r w = (Ok h', w') \<Longrightarrow> listing_sane h \<Longrightarrow> ph_appID h' = ph_appID h \<and> listing_sane h'"
  by (auto simp: decompress_def Let_def andThen_eq_Ok Decompress_def on_eq_Ok NewArchive_def listing_sane_def
      split: prod.splits option.splits)

lemma handle_inv:
  assumes "range_law env" and "listing_sane h" and "push_inv (ph_appID h) rs (w_rows w)"
  shows "push_inv (ph_appID h) rs (w_rows (snd (handle env h r w)))"
  unfolding handle_def
proof (rule on_keeps [where Q = "\<lambda>v. push_inv (ph_appID h) rs (w_rows v)"])
  fix h1 v assume d: "decompress env h r w = (Ok h1, v)" and v: "push_inv (ph_appID h) rs (w_rows v)"
  have h1: "ph_appID h = ph_appID h1" "listing_sane h1" using decompress_h [OF d assms(2)] by auto
  have "push_inv (ph_appID h) rs (w_rows (snd (done_with (handle_sync env h1 v) (\<lambda>h w. handle_finish env h r w))))"
    unfolding done_with_def
    by (rule on_keeps [where Q = "\<lambda>v. push_inv (ph_appID h) rs (w_rows v)"])
      (use handle_sync_inv [OF assms(1) h1(2), of rs v] v h1(1) in \<open>auto simp: rows_same\<close>)
  then show "push_inv (ph_appID h) rs (w_rows (snd (let (x, w) = done_with (handle_sync env h1 v) (\<lambda>h w. handle_finish env h r w) in
       (x, Archive_Close (ph_archive h1) w))))"
    by (simp add: Let_def case_prod_unfold rows_same)
qed (use assms(3) in \<open>auto simp: rows_same\<close>)

lemma Push_inv:
  assumes "range_law env" and "ctx_get r AppIDKey w = Some app" and "push_inv app rs (w_rows w)"
  shows "push_inv app rs (w_rows (snd (Push env r w)))"
proof -
  have hashes: "w_rows (snd (writeHashesResponse env app w)) = w_rows w"
    unfolding writeHashesResponse_def Let_def MakeJSONHashes_def
    by (rule on_keeps [where Q = "\<lambda>v. w_rows v = w_rows w"]) (auto simp: rows_same)
  show ?thesis
  proof (cases "ctx_get r UserIDKey w")
    case (Some u)
    have post: "push_inv app rs (w_rows (snd (on (newPushHandler env app u w) (\<lambda>e w. (Ok (), http_Error ''Internal error.'' 500 w))
           (\<lambda>h w. handle env h r w))))"
    proof (rule on_keeps [where Q = "\<lambda>v. push_inv app rs (w_rows v)"])
      fix h v assume n: "newPushHandler env app u w = (Ok h, v)" and v: "push_inv app rs (w_rows v)"
      have "ph_appID h = app" "listing_sane h"
        using n by (auto simp: newPushHandler_def andThen_eq_Ok NewArchive_def listing_sane_def)
      then show "push_inv app rs (w_rows (snd (handle env h r v)))" using handle_inv [OF assms(1), of h rs v] v by simp
    next
      show "push_inv app rs (w_rows (snd (newPushHandler env app u w)))"
        unfolding newPushHandler_def
        by (rule andThen_keeps [where Q = "\<lambda>v. push_inv app rs (w_rows v)"]) (use assms(3) in \<open>auto simp: rows_same\<close>)
    qed simp
    then show ?thesis using assms Some hashes by (simp add: Push_def ctx_string_def)
  qed (use assms in \<open>simp add: Push_def ctx_string_def\<close>)
qed

section \<open>A completed push\<close>

abbreviation app_files :: "string \<Rightarrow> ('s, 'm) world \<Rightarrow> string \<rightharpoonup> string" where
  "app_files app w \<equiv> ns_map app [] (w_rows w)"

lemma db_ok_cong: "w_rows x = w_rows v \<Longrightarrow> w_dbq x = w_dbq v \<Longrightarrow> db_ok x = db_ok v"
  by (simp add: db_ok_def reads_complete_def)

lemma Cache_dbq:
  "w_dbq (snd (Cache_Get env c k w)) = w_dbq w" "w_dbq (snd (Cache_Set env c k b w)) = w_dbq w"
  "w_dbq (snd (Cache_Delete env c k w)) = w_dbq w"
  by (rule store_frameD(2), rule frame)+

lemma update_one_Ok:
  assumes "update_one env h add n v = (Ok (), v')"
  shows "\<exists>x b. GetHash (ph_archive h) n \<noteq> [] \<and> GetContent (ph_archive h) n (w_fs v) = Inr b \<and>
    Cache_Set env (ph_cache h) (GetHash (ph_archive h) n) b (ph_log (''--> '' @ n) v) = (Ok (), x) \<and>
    w_rows x = w_rows v \<and> w_dbq x = w_dbq v \<and>
    (if add then AddFile (ph_appID h) [] n (GetHash (ph_archive h) n) x
     else UpdateFile env (ph_appID h) [] n (GetHash (ph_archive h) n) x) = (Ok (), v')"
proof -
  let ?hash = "GetHash (ph_archive h) n" and ?l = "ph_log (''--> '' @ n) v"
  obtain b x where h: "?hash \<noteq> []" "GetContent (ph_archive h) n (w_fs v) = Inr b"
    and s: "Cache_Set env (ph_cache h) ?hash b ?l = (Ok (), x)"
    and r: "(if add then AddFile (ph_appID h) [] n ?hash x else UpdateFile env (ph_appID h) [] n ?hash x) = (Ok (), v')"
    using assms by (auto simp: update_one_def Let_def andThen_eq_Ok split: if_splits sum.splits)
  have "w_rows x = w_rows v" "w_dbq x = w_dbq v"
    using Cache_rows(2) [of env "ph_cache h" ?hash b ?l] Cache_dbq(2) [of env "ph_cache h" ?hash b ?l] s by auto
  then show ?thesis using h s r by blast
qed

lemma remove_one_Ok:
  assumes "remove_one env h n v = (Ok (), v')"
  obtains files u x where "GetFiles env (ph_appID h) [] (ph_log (''--> '' @ n) v) = (Ok files, u)"
    and "w_rows u = w_rows v" and "set (w_dbq u) \<subseteq> set (w_dbq v)" and "w_rows x = w_rows v" and "w_dbq x = w_dbq u"
    and "lookup_str n files \<noteq> []"
    and "if protectHash files n (lookup_str n files) then x = u
         else Cache_Delete env (ph_cache h) (lookup_str n files) u = (Ok (), x)"
    and "DeleteFile env (ph_appID h) [] n x = (Ok (), v')"
proof -
  let ?l = "ph_log (''--> '' @ n) v"
  obtain files u where g: "GetFiles env (ph_appID h) [] ?l = (Ok files, u)"
  proof -
    obtain y u where g: "GetFiles env (ph_appID h) [] ?l = (y, u)" by (cases "GetFiles env (ph_appID h) [] ?l")
    show ?thesis using assms g that by (cases y) (auto simp: remove_one_def lookup_str_def)
  qed
  have u: "w_rows u = w_rows v" "set (w_dbq u) \<subseteq> set (w_dbq v)"
    using GetFiles_frame [of ?l env "ph_appID h" "[]"] g by (auto simp: db_frame_def)
  obtain x where x: "lookup_str n files \<noteq> []"
    "if protectHash files n (lookup_str n files) then x = u else Cache_Delete env (ph_cache h) (lookup_str n files) u = (Ok (), x)"
    "DeleteFile env (ph_appID h) [] n x = (Ok (), v')"
    using assms g by (auto simp: remove_one_def Let_def andThen_eq_Ok split: if_splits)
  have "w_rows x = w_rows u" "w_dbq x = w_dbq u"
    using x(2) Cache_rows(3) [of env "ph_cache h" "lookup_str n files" u] Cache_dbq(3) [of env "ph_cache h" "lookup_str n files" u]
    by (auto split: if_splits)
  then show ?thesis using that [OF g u] x u by simp
qed

lemma update_loop_table:
  assumes "for_each (update_one env h add) ns w = (Ok (), w')" and "db_ok w"
    and "\<not> add \<Longrightarrow> \<forall>n \<in> set ns. app_files (ph_appID h) w n \<noteq> None"
  shows "db_ok w' \<and> app_files (ph_appID h) w' =
    (\<lambda>n. if n \<in> set ns then Some (GetHash (ph_archive h) n) else app_files (ph_appID h) w n)"
proof (cases add)
  case True
  show ?thesis
  proof (rule dev_files.loop_add [OF assms(1,2)])
    fix n v v' assume "db_ok v" and "update_one env h add n v = (Ok (), v')"
    then show "\<exists>x. db_ok x \<and> app_files (ph_appID h) x = app_files (ph_appID h) v \<and>
        AddFile (ph_appID h) [] n (GetHash (ph_archive h) n) x = (Ok (), v')"
      using update_one_Ok [of env h add n v v'] True db_ok_cong by metis
  qed
next
  case False
  show ?thesis
  proof (rule dev_files.loop_upd [OF assms(1,2)])
    fix n v v' assume "db_ok v" and "update_one env h add n v = (Ok (), v')"
    then show "\<exists>x. db_ok x \<and> app_files (ph_appID h) x = app_files (ph_appID h) v \<and>
        UpdateFile env (ph_appID h) [] n (GetHash (ph_archive h) n) x = (Ok (), v')"
      using update_one_Ok [of env h add n v v'] False db_ok_cong by metis
  qed (use assms(3) False in auto)
qed

lemma db_ok_sub: "db_ok v \<Longrightarrow> w_rows x = w_rows v \<Longrightarrow> set (w_dbq x) \<subseteq> set (w_dbq v) \<Longrightarrow> db_ok x"
  by (auto simp: db_ok_def reads_complete_def)

lemma remove_loop_table:
  assumes "for_each (remove_one env h) ns w = (Ok (), w')" and "db_ok w"
  shows "db_ok w' \<and> app_files (ph_appID h) w' = (\<lambda>n. if n \<in> set ns then None else app_files (ph_appID h) w n)"
proof (rule dev_files.loop_del [OF assms])
  fix n v v' assume v: "db_ok v" and r: "remove_one env h n v = (Ok (), v')"
  from r obtain x where x: "w_rows x = w_rows v" "set (w_dbq x) \<subseteq> set (w_dbq v)"
    and d: "DeleteFile env (ph_appID h) [] n x = (Ok (), v')"
    by (rule remove_one_Ok) auto
  have "db_ok x" by (rule db_ok_sub [OF v x])
  then show "\<exists>x. db_ok x \<and> app_files (ph_appID h) x = app_files (ph_appID h) v \<and> DeleteFile env (ph_appID h) [] n x = (Ok (), v')"
    using d x(1) by metis
qed

text \<open>The three stages apply the comparison, so the table becomes the listing.\<close>

lemma handle_stages_split:
  assumes "handle_stages env h c w = (Ok h', w')"
  shows "\<exists>w1 w2 b. for_each (update_one env h True) (cmp_added c) (start_stage ''Adding files...'' (cmp_added c) w) = (Ok (), w1) \<and>
    for_each (update_one env h False) (cmp_changed c) (start_stage ''Updating files...'' (cmp_changed c) w1) = (Ok (), w2) \<and>
    for_each (remove_one env h) (cmp_removed c) (start_stage ''Removing deleted files...'' (cmp_removed c) w2) = (Ok (), w') \<and>
    h' = h\<lparr>ph_dirty := b\<rparr> \<and>
    b = (ph_dirty h \<or> cmp_added c \<noteq> [] \<or> cmp_changed c \<noteq> [] \<or> cmp_removed c \<noteq> [])"
proof -
  obtain h1 w1 h2 w2 where
    1: "stage ''Adding files...'' (cmp_added c) (\<lambda>names w. ph_update env h names True w) h w = (Ok h1, w1)" and
    2: "stage ''Updating files...'' (cmp_changed c) (\<lambda>names w. ph_update env h1 names False w) h1 w1 = (Ok h2, w2)" and
    3: "stage ''Removing deleted files...'' (cmp_removed c) (\<lambda>names w. ph_remove env h2 names w) h2 w2 = (Ok h', w')"
    using assms unfolding handle_stages_def andThen_eq_Ok by blast
  note a = stage_update_Ok [OF 1] and u = stage_update_Ok [OF 2] and r = stage_remove_Ok [OF 3]
  have "update_one env h1 = update_one env h" "remove_one env h2 = remove_one env h" by (simp_all add: a(1) u(1))
  moreover have "h' = h\<lparr>ph_dirty := ph_dirty h \<or> cmp_added c \<noteq> [] \<or> cmp_changed c \<noteq> [] \<or> cmp_removed c \<noteq> []\<rparr>"
    by (cases "cmp_added c = []"; cases "cmp_changed c = []") (simp_all add: r(1) u(1) a(1))
  ultimately show ?thesis using a(2) u(2) r(2) by auto
qed

lemma handle_stages_table:
  assumes "handle_stages env h c w = (Ok h', w')" and "db_ok w"
    and d: "is_diff (map_of (listing_of (ph_archive h))) (app_files (ph_appID h) w) c"
  shows "db_ok w' \<and> app_files (ph_appID h) w' = map_of (listing_of (ph_archive h))"
proof -
  let ?new = "map_of (listing_of (ph_archive h))" and ?F = "app_files (ph_appID h)"
  obtain w1 w2 where a: "for_each (update_one env h True) (cmp_added c) (start_stage ''Adding files...'' (cmp_added c) w) = (Ok (), w1)"
    and u: "for_each (update_one env h False) (cmp_changed c) (start_stage ''Updating files...'' (cmp_changed c) w1) = (Ok (), w2)"
    and r: "for_each (remove_one env h) (cmp_removed c) (start_stage ''Removing deleted files...'' (cmp_removed c) w2) = (Ok (), w')"
    using handle_stages_split [OF assms(1)] by blast
  have st: "db_ok (start_stage m ns v) = db_ok v" for m ns and v :: "('a, 'b) world" by (rule db_ok_cong) simp_all
  have 1: "db_ok w1 \<and> ?F w1 = (\<lambda>n. if n \<in> set (cmp_added c) then Some (GetHash (ph_archive h) n) else ?F w n)"
    using update_loop_table [OF a] assms(2) st by (simp cong: if_cong)
  have 2: "db_ok w2 \<and> ?F w2 = (\<lambda>n. if n \<in> set (cmp_changed c) then Some (GetHash (ph_archive h) n) else ?F w1 n)"
    using update_loop_table [OF u] 1 st d by (auto simp: is_diff_def cong: if_cong)
  have 3: "db_ok w' \<and> ?F w' = (\<lambda>n. if n \<in> set (cmp_removed c) then None else ?F w2 n)"
    using remove_loop_table [OF r] 2 st by (simp cong: if_cong)
  have hash: "Some (GetHash (ph_archive h) n) = ?new n" if "n \<in> set (cmp_added c) \<union> set (cmp_changed c)" for n
    using d that by (auto simp: is_diff_def GetHash_def)
  have "?F w' = apply_diff ?new c (?F w)"
  proof
    fix n
    show "?F w' n = apply_diff ?new c (?F w) n"
      using 1 2 3 hash [of n] d unfolding apply_diff_def is_diff_def by auto
  qed
  then show ?thesis using 3 apply_diff_is_diff [OF d] by simp
qed

text \<open>No database call is about to fail.\<close>

definition db_up :: "('s, 'm) world \<Rightarrow> bool" where
  "db_up w \<longleftrightarrow> set (w_dbq w) \<subseteq> {Q_ok}"

lemma GetFiles_up:
  assumes "db_up w" and "sub_id_ok sub"
  shows "\<exists>m w'. GetFiles env app sub w = (Ok m, w')"
proof -
  obtain q v where q: "db_next w = (q, v)" by (cases "db_next w")
  then have "q = Q_ok" using assms(1) db_next_outcome [OF q] by (auto simp: db_up_def)
  then show ?thesis
    using q assms(2) by (simp add: GetFiles_def GetFilteredFiles_def select_files_def sql_clause_subClause sub_id_ok_def)
qed

lemma ph_loadMetaData_dbq: "set (w_dbq (snd (ph_loadMetaData env h w))) \<subseteq> set (w_dbq w)"
proof -
  let ?Q = "\<lambda>v :: ('a, 'b) world. set (w_dbq v) \<subseteq> set (w_dbq w)"
  have gf: "?Q (snd (GetFile env app sub n v))" if "?Q v" for app sub n v
    using GetFile_frame [of v env app sub n] that by (auto simp: db_frame_def)
  have pm: "?Q (snd (case ParseMetadata b of Inl e \<Rightarrow> (Fail e, v) | Inr m \<Rightarrow> (Ok (h'\<lparr>ph_metadata := m\<rparr>), v)))"
    if "?Q v" for b v and h' :: pushHandler
    using that by (auto split: sum.split)
  have none: "?Q (snd (on (GetFile env app sub n v) (\<lambda>e w. (Fail (load_error ''cache''), w)) (\<lambda>hash w.
      on (Cache_Get env (ph_cache h) hash w) (\<lambda>e w. (Fail (load_error ''cache''), w)) (\<lambda>b w.
        case ParseMetadata b of Inl e \<Rightarrow> (Fail e, w) | Inr m \<Rightarrow> (Ok (h\<lparr>ph_metadata := m\<rparr>), w)))))"
    if "?Q v" for app sub n v
  proof (rule on_keeps [where Q = ?Q])
    fix hash u assume u: "?Q u"
    show "?Q (snd (on (Cache_Get env (ph_cache h) hash u) (\<lambda>e w. (Fail (load_error ''cache''), w)) (\<lambda>b w.
        case ParseMetadata b of Inl e \<Rightarrow> (Fail e, w) | Inr m \<Rightarrow> (Ok (h\<lparr>ph_metadata := m\<rparr>), w))))"
      by (rule on_keeps [where Q = ?Q]) (use u pm in \<open>simp_all add: Cache_dbq\<close>)
  qed (use gf that in auto)
  show ?thesis
    unfolding ph_loadMetaData_def Let_def using none [of "ph_log ''Checking your Siphonfile...'' w"] pm
    by (cases "GetMetadata (ph_archive h) (w_fs w)"; cases "projr (GetMetadata (ph_archive h) (w_fs w))") simp_all
qed

lemma handle_sync_table:
  assumes "range_law env" and "listing_sane h" and "db_ok w" and "db_up w" and "handle_sync env h w = (Ok h', w')"
  shows "\<exists>fs a. parseListingFile env (ph_archive h) fs = Inr a \<and> ph_archive h' = a \<and> listing_ok (listing_of a) \<and>
    db_ok w' \<and> app_files (ph_appID h) w' = map_of (listing_of a)"
proof -
  obtain h1 v where l: "ph_loadMetaData env h w = (Ok h1, v)"
    and r: "or_default [] (GetFiles env (ph_appID h1) [] v) (\<lambda>files w.
       case Compare env (ph_archive h1) files (w_fs w) of
         Inl e \<Rightarrow> (Fail e, internalError w)
       | Inr (archive, cmp) \<Rightarrow> handle_stages env (h1\<lparr>ph_archive := archive\<rparr>) cmp w) = (Ok h', w')"
    using assms(5) by (auto simp: handle_sync_def on_eq_Ok)
  have h1: "ph_appID h1 = ph_appID h" "ph_archive h1 = ph_archive h" using ph_loadMetaData_h [OF l] by auto
  have dv: "set (w_dbq v) \<subseteq> set (w_dbq w)" "w_rows v = w_rows w"
    using ph_loadMetaData_dbq [of env h w] ph_loadMetaData_rows [of env h w] l by auto
  have v: "db_ok v" "db_up v" using db_ok_sub [OF assms(3) dv(2,1)] dv(1) assms(4) by (auto simp: db_up_def)
  obtain files u where g: "GetFiles env (ph_appID h1) [] v = (Ok files, u)" using GetFiles_up [OF v(2)] by fastforce
  have gl: "db_ok u \<and> app_files (ph_appID h1) u = app_files (ph_appID h1) v \<and> map_of files = app_files (ph_appID h1) v \<and> gm_ok files"
    by (rule dev_files.get_law [OF v(1) g])
  obtain a c where cm: "Compare env (ph_archive h1) files (w_fs u) = Inr (a, c)"
    and st: "handle_stages env (h1\<lparr>ph_archive := a\<rparr>) c u = (Ok h', w')"
    using r g by (auto split: sum.splits)
  note cd = Compare_diff [OF assms(1) _ _ cm]
  have sane: "ar_listing (ph_archive h1) \<noteq> None \<longrightarrow> listing_ok (listing_of (ph_archive h1))"
    using assms(2) h1 by (simp add: listing_sane_def)
  have "db_ok w' \<and> app_files (ph_appID (h1\<lparr>ph_archive := a\<rparr>)) w' = map_of (listing_of (ph_archive (h1\<lparr>ph_archive := a\<rparr>)))"
    by (rule handle_stages_table [OF st]) (use gl cd(3) sane in auto)
  moreover have "ph_archive h' = a" using handle_stages_split [OF st] by auto
  ultimately show ?thesis using cd(1,2) [OF _ sane] gl h1 by auto
qed

section \<open>The blobs\<close>

text \<open>\<open>stocked K\<close>: every file of the app has its blob, memcached agrees with S3, and the hashes in use are
  among the keys \<open>K\<close>.\<close>

definition stocked ::
  "('s \<Rightarrow> string \<Rightarrow> bytes option) \<Rightarrow> ('m \<Rightarrow> string \<Rightarrow> bytes option) \<Rightarrow> string set \<Rightarrow> pushHandler \<Rightarrow> ('s, 'm) world \<Rightarrow> bool" where
  "stocked view mv K h w \<longleftrightarrow>
     db_ok w \<and> coherent view mv (ph_cache h) w \<and> ran (app_files (ph_appID h) w) \<subseteq> K \<and>
     (\<forall>n k. app_files (ph_appID h) w n = Some k \<longrightarrow> blob view (ph_cache h) w k \<noteq> None)"

lemma store_cong:
  assumes "w_s3 x = w_s3 v" "w_mc x = w_mc v"
  shows "coherent view mv c x = coherent view mv c v" "blob view c x = blob view c v"
  using assms by (auto simp: coherent_def blob_def)

lemma stocked_cong:
  assumes "w_s3 x = w_s3 v" "w_mc x = w_mc v" "w_rows x = w_rows v" "set (w_dbq x) \<subseteq> set (w_dbq v)" "stocked view mv K h v"
  shows "stocked view mv K h x"
  using assms store_cong [OF assms(1,2)] db_ok_sub [OF _ assms(3,4)] by (auto simp: stocked_def)

lemma stocked_start [simp]: "stocked view mv K h w \<Longrightarrow> stocked view mv K h (start_stage m ns w)"
  by (rule stocked_cong [of _ w]) simp_all

lemma stocked_log [simp]: "stocked view mv K h w \<Longrightarrow> stocked view mv K h (ph_log m w)"
  by (rule stocked_cong [of _ w]) simp_all

lemma stocked_flags:
  "ph_appID h' = ph_appID h \<Longrightarrow> ph_cache h' = ph_cache h \<Longrightarrow> stocked view mv K h' w = stocked view mv K h w"
  by (simp add: stocked_def)

lemma row_op_store:
  "w_s3 (snd (AddFile app sub n k w)) = w_s3 w" "w_mc (snd (AddFile app sub n k w)) = w_mc w"
  "w_s3 (snd (UpdateFile env app sub n k w)) = w_s3 w" "w_mc (snd (UpdateFile env app sub n k w)) = w_mc w"
  "w_s3 (snd (DeleteFile env app sub n w)) = w_s3 w" "w_mc (snd (DeleteFile env app sub n w)) = w_mc w"
  by (rule db_frameD(1) db_frameD(2), rule frame)+

context cache_backend
begin

lemma update_one_stocked:
  assumes "update_one env h add n v = (Ok (), v')" and "stocked view mv K h v"
    and "GetHash (ph_archive h) n \<in> K" and "\<forall>k \<in> K. key_ok env (ph_cache h) k"
  shows "stocked view mv K h v'"
    and "\<exists>b. GetContent (ph_archive h) n (w_fs v) = Inr b \<and>
      blob view (ph_cache h) v' = (blob view (ph_cache h) v)(GetHash (ph_archive h) n \<mapsto> b)"
proof -
  let ?hash = "GetHash (ph_archive h) n" and ?c = "ph_cache h" and ?F = "app_files (ph_appID h)"
  obtain x b where b: "GetContent (ph_archive h) n (w_fs v) = Inr b"
    and s: "Cache_Set env ?c ?hash b (ph_log (''--> '' @ n) v) = (Ok (), x)"
    and x: "w_rows x = w_rows v" "w_dbq x = w_dbq v"
    and op: "(if add then AddFile (ph_appID h) [] n ?hash x else UpdateFile env (ph_appID h) [] n ?hash x) = (Ok (), v')"
    using update_one_Ok [OF assms(1)] by blast
  have l: "coherent view mv ?c (ph_log (''--> '' @ n) v)" "blob view ?c (ph_log (''--> '' @ n) v) = blob view ?c v"
    using assms(2) store_cong [of "ph_log (''--> '' @ n) v" v] by (auto simp: stocked_def)
  have cx: "coherent view mv ?c x" and bx: "blob view ?c x = (blob view ?c v)(?hash \<mapsto> b)"
    using blobs.set_law [OF l(1) _ s] assms(3,4) l(2) by auto
  have dx: "db_ok x" using db_ok_cong [OF x] assms(2) by (simp add: stocked_def)
  have s3: "w_s3 v' = w_s3 x" "w_mc v' = w_mc x"
    using op row_op_store(1,2) [of "ph_appID h" "[]" n ?hash x] row_op_store(3,4) [of env "ph_appID h" "[]" n ?hash x]
    by (auto split: if_splits)
  have F: "db_ok v' \<and> (?F v' = (?F v)(n \<mapsto> ?hash) \<or> ?F v' = ?F v)"
    using op dev_files.add_law [OF dx, of "ph_appID h" n ?hash v'] dev_files.upd_law [OF dx, of env "ph_appID h" n ?hash v'] x(1)
    by (auto split: if_splits)
  have bv: "blob view ?c v' = (blob view ?c v)(?hash \<mapsto> b)" using store_cong(2) [OF s3] bx by simp
  then show "\<exists>b. GetContent (ph_archive h) n (w_fs v) = Inr b \<and> blob view ?c v' = (blob view ?c v)(?hash \<mapsto> b)"
    using b by blast
  have "\<forall>m k. ?F v' m = Some k \<longrightarrow> blob view ?c v' k \<noteq> None"
    using F bv assms(2) by (auto simp: stocked_def split: if_splits)
  moreover have "ran (?F v') \<subseteq> K"
    using F assms(2,3) by (fastforce simp: stocked_def ran_def split: if_splits)
  ultimately show "stocked view mv K h v'"
    using F cx store_cong(1) [OF s3] by (simp add: stocked_def)
qed

lemma remove_one_stocked:
  assumes "remove_one env h n v = (Ok (), v')" and "stocked view mv K h v"
    and "\<forall>k \<in> K. key_ok env (ph_cache h) k"
  shows "stocked view mv K h v'"
  using assms(1)
proof (rule remove_one_Ok)
  let ?c = "ph_cache h" and ?F = "app_files (ph_appID h)"
  fix files u x
  assume g: "GetFiles env (ph_appID h) [] (ph_log (''--> '' @ n) v) = (Ok files, u)"
    and u: "w_rows u = w_rows v" "set (w_dbq u) \<subseteq> set (w_dbq v)" and x: "w_rows x = w_rows v" "w_dbq x = w_dbq u"
    and ne: "lookup_str n files \<noteq> []"
    and dl: "if protectHash files n (lookup_str n files) then x = u
             else Cache_Delete env ?c (lookup_str n files) u = (Ok (), x)"
    and op: "DeleteFile env (ph_appID h) [] n x = (Ok (), v')"
  have sl: "stocked view mv K h (ph_log (''--> '' @ n) v)" using assms(2) by simp
  then have fl: "map_of files = ?F v"
    using dev_files.get_law [OF _ g] by (simp add: stocked_def)
  obtain k where k: "?F v n = Some k" "lookup_str n files = k"
    using ne unfolding lookup_str_def fl by (cases "?F v n") simp_all
  have kK: "key_ok env ?c k" using k(1) assms(2,3) by (auto simp: stocked_def ran_def)
  have us: "w_s3 u = w_s3 v" "w_mc u = w_mc v"
    using GetFiles_frame [of "ph_log (''--> '' @ n) v" env "ph_appID h" "[]"] g db_frameD(1,2) by fastforce+
  have su: "stocked view mv K h u" by (rule stocked_cong [OF us u assms(2)])
  have cx: "coherent view mv ?c x"
    using dl su blobs.del_law [OF _ kK, of u x] k(2) by (auto simp: stocked_def split: if_splits)
  have keep: "blob view ?c x j \<noteq> None" if m: "?F v m = Some j" "m \<noteq> n" for m j
  proof (cases "protectHash files n k")
    case True
    then show ?thesis using dl su m u(1) k(2) by (auto simp: stocked_def)
  next
    case False
    have "(m, j) \<in> set files" using m(1) fl by (metis map_of_SomeD)
    then have "j \<noteq> k" using False m(2) by (auto simp: protectHash_def)
    then show ?thesis
      using blobs.del_other [OF kK, of u "Ok ()" x j] dl False su m u(1) k(2) by (auto simp: stocked_def)
  qed
  have dx: "db_ok x" by (rule db_ok_sub [of v]) (use assms(2) x u in \<open>auto simp: stocked_def\<close>)
  have F: "db_ok v' \<and> ?F v' = (?F v)(n := None)" using dev_files.del_law [OF dx op] x(1) by simp
  have s3: "w_s3 v' = w_s3 x" "w_mc v' = w_mc x" using op row_op_store(5,6) [of env "ph_appID h" "[]" n x] by auto
  show "stocked view mv K h v'"
    using F keep cx store_cong [OF s3] assms(2) by (auto simp: stocked_def ran_def)
qed

lemma handle_stages_stocked:
  assumes "handle_stages env h c w = (Ok h', w')" and "stocked view mv K h w"
    and "\<forall>k \<in> K. key_ok env (ph_cache h) k" and "\<And>n. n \<in> set (cmp_added c) \<union> set (cmp_changed c) \<Longrightarrow> GetHash (ph_archive h) n \<in> K"
  shows "stocked view mv K h w'"
proof -
  obtain w1 w2 where a: "for_each (update_one env h True) (cmp_added c) (start_stage ''Adding files...'' (cmp_added c) w) = (Ok (), w1)"
    and u: "for_each (update_one env h False) (cmp_changed c) (start_stage ''Updating files...'' (cmp_changed c) w1) = (Ok (), w2)"
    and r: "for_each (remove_one env h) (cmp_removed c) (start_stage ''Removing deleted files...'' (cmp_removed c) w2) = (Ok (), w')"
    using handle_stages_split [OF assms(1)] by blast
  have "stocked view mv K h w1"
    by (rule for_each_inv [where I = "stocked view mv K h", OF a]) (use assms update_one_stocked(1) in auto)
  then have "stocked view mv K h w2"
    by (intro for_each_inv [where I = "stocked view mv K h", OF u]) (use assms update_one_stocked(1) in auto)
  then show ?thesis
    by (intro for_each_inv [where I = "stocked view mv K h", OF r]) (use assms remove_one_stocked in auto)
qed

lemma ph_loadMetaData_stocked:
  assumes "stocked view mv K h w" and "\<forall>k \<in> K. key_ok env (ph_cache h) k" and "ph_loadMetaData env h w = (Ok h', w')"
  shows "stocked view mv K h' w'"
proof -
  let ?l = "ph_log ''Checking your Siphonfile...'' w"
  have sl: "stocked view mv K h ?l" using assms(1) by simp
  have "stocked view mv K h w'"
  proof (cases "GetMetadata (ph_archive h) (w_fs w)")
    case (Inr y)
    show ?thesis
    proof (cases y)
      case None
      obtain k u b where gf: "GetFile env (ph_appID h) [] MetadataName ?l = (Ok k, u)"
        and cg: "Cache_Get env (ph_cache h) k u = (Ok b, w')"
        using assms(3) Inr None by (auto simp: ph_loadMetaData_def Let_def on_eq_Ok parse_Ok)
      have fr: "db_frame ?l u" "w_rows u = w_rows ?l"
        using GetFile_frame [of ?l env "ph_appID h" "[]" MetadataName] gf by auto
      have su: "stocked view mv K h u"
        by (rule stocked_cong [OF db_frameD(1,2) [OF fr(1)] fr(2) _ sl]) (use fr(1) in \<open>simp add: db_frame_def\<close>)
      have "app_files (ph_appID h) ?l MetadataName = Some k"
        by (rule GetFile_Ok [OF gf]) (use sl in \<open>auto simp: stocked_def db_ok_def like_plain_def MetadataName_def\<close>)
      then have kk: "key_ok env (ph_cache h) k" using sl assms(2) by (auto simp: stocked_def ran_def)
      have "coherent view mv (ph_cache h) w' \<and> blob view (ph_cache h) w' = blob view (ph_cache h) u"
        using blobs.get_any [OF _ kk cg] su by (simp add: stocked_def)
      moreover have "db_ok w'" "w_rows w' = w_rows u"
        using Cache_rows(1) [of env "ph_cache h" k u] Cache_dbq(1) [of env "ph_cache h" k u] cg su db_ok_cong [of w' u]
        by (auto simp: stocked_def)
      ultimately show ?thesis using su by (simp add: stocked_def)
    qed (use assms(3) Inr sl in \<open>auto simp: ph_loadMetaData_def Let_def parse_Ok\<close>)
  qed (use assms(3) in \<open>auto simp: ph_loadMetaData_def\<close>)
  then show ?thesis using stocked_flags ph_loadMetaData_h [OF assms(3)] by metis
qed

lemma handle_sync_stocked:
  assumes "range_law env" and "listing_sane h" and "db_up w" and "stocked view mv K h w"
    and "\<forall>k \<in> K. key_ok env (ph_cache h) k" and "handle_sync env h w = (Ok h', w')"
    and "ran (map_of (listing_of (ph_archive h'))) \<subseteq> K"
  shows "stocked view mv K h w'"
proof -
  obtain h1 v where l: "ph_loadMetaData env h w = (Ok h1, v)"
    and r: "or_default [] (GetFiles env (ph_appID h1) [] v) (\<lambda>files w.
       case Compare env (ph_archive h1) files (w_fs w) of
         Inl e \<Rightarrow> (Fail e, internalError w)
       | Inr (archive, cmp) \<Rightarrow> handle_stages env (h1\<lparr>ph_archive := archive\<rparr>) cmp w) = (Ok h', w')"
    using assms(6) by (auto simp: handle_sync_def on_eq_Ok)
  note h1 = ph_loadMetaData_h [OF l]
  have v: "stocked view mv K h1 v" by (rule ph_loadMetaData_stocked [OF assms(4,5) l])
  have "set (w_dbq v) \<subseteq> set (w_dbq w)" using ph_loadMetaData_dbq [of env h w] l by simp
  then have "db_up v" using assms(3) by (auto simp: db_up_def)
  then obtain files u where g: "GetFiles env (ph_appID h1) [] v = (Ok files, u)" using GetFiles_up [of v "[]"] by fastforce
  obtain a c where cm: "Compare env (ph_archive h1) files (w_fs u) = Inr (a, c)"
    and st: "handle_stages env (h1\<lparr>ph_archive := a\<rparr>) c u = (Ok h', w')"
    using r g by (auto split: sum.splits)
  have fr: "db_frame v u" "w_rows u = w_rows v" using GetFiles_frame [of v env "ph_appID h1" "[]"] g by auto
  have su: "stocked view mv K (h1\<lparr>ph_archive := a\<rparr>) u"
  proof -
    have "set (w_dbq u) \<subseteq> set (w_dbq v)" using fr(1) by (simp add: db_frame_def)
    then have "stocked view mv K h1 u" by (rule stocked_cong [OF db_frameD(1,2) [OF fr(1)] fr(2) _ v])
    then show ?thesis by (subst stocked_flags [of _ h1]) simp_all
  qed
  have sane: "ar_listing (ph_archive h1) \<noteq> None \<longrightarrow> listing_ok (listing_of (ph_archive h1))"
    using assms(2) h1 by (simp add: listing_sane_def)
  have gm: "gm_ok files" by (rule GetFiles_gm_ok [OF g])
  have a: "ph_archive h' = a" using handle_stages_split [OF st] by auto
  have "GetHash a n \<in> K" if "n \<in> set (cmp_added c) \<union> set (cmp_changed c)" for n
    using Compare_diff(3) [OF assms(1) gm sane cm] that assms(7) a
    by (auto simp: is_diff_def GetHash_def ran_def)
  then have "stocked view mv K (h1\<lparr>ph_archive := a\<rparr>) w'"
    by (intro handle_stages_stocked [OF st su]) (use assms(5) h1 in auto)
  then show ?thesis using h1 by (subst stocked_flags [of h "h1\<lparr>ph_archive := a\<rparr>"]) simp_all
qed

end

end
