(* ===== verification/S3_Test_Server.thy ===== *)
theory S3_Test_Server
  imports S3_Client Go_Encode
begin

text \<open>
  The in-memory S3 server of the client library, \<^verbatim>\<open>gopkg.in/amz.v3/s3/s3test/server.go\<close>: buckets of
  objects, and one resource per URL with its four methods. It is the reference against which the
  contract \<open>s3_service\<close> of the client is discharged: the interpretation at the end says that a client
  talking to this server sees a store.

  MD5, hexadecimal decoding, the XML encoder and decoder, the clock and the format of dates are parameters (\<open>s3lib\<close>); the mutex makes each
  request atomic, so a request is one function on the server's state.
\<close>

section \<open>State\<close>

record s3_object =
  ob_name :: string
  ob_mtime :: int
  ob_meta :: gomap
  ob_checksum :: bytes
  ob_data :: bytes

record s3_bucket =
  sb_name :: string
  sb_acl :: string
  sb_objects :: "(string \<times> s3_object) list"

record s3_server =
  sv_reqId :: nat
  sv_buckets :: "(string \<times> s3_bucket) list"
  sv_Send409Conflict :: "bool option"

text \<open>The configuration may be nil.\<close>

definition send409Conflict :: "bool option \<Rightarrow> bool" where
  "send409Conflict c = (case c of Some b \<Rightarrow> b | None \<Rightarrow> False)"

text \<open>A request as the HTTP server presents it: canonical header names, the decoded path, the query and
  the form, the body (or the error of reading it) and the declared length.\<close>

record s3_request =
  sq_method :: string
  sq_path :: string
  sq_query :: gomap
  sq_form :: gomap
  sq_header :: gomap
  sq_body :: "error + bytes"
  sq_length :: int

record s3Error =
  se_statusCode :: nat
  se_Code :: string
  se_Message :: string
  se_BucketName :: string
  se_RequestId :: nat

record s3_key =
  sk_Key :: string
  sk_LastModified :: int
  sk_Size :: nat
  sk_ETag :: bytes

record ListResp =
  lr_Name :: string
  lr_Prefix :: string
  lr_Delimiter :: string
  lr_Marker :: string
  lr_MaxKeys :: int
  lr_IsTruncated :: bool
  lr_Contents :: "s3_key list"
  lr_CommonPrefixes :: "string list"

record s3lib =
  md5 :: "bytes \<Rightarrow> bytes"
  hex_decode :: "string \<Rightarrow> bytes option"
  xml_error :: "s3Error \<Rightarrow> bytes"
  xml_list :: "ListResp \<Rightarrow> bytes"
  xml_location :: "bytes \<Rightarrow> error + string"
  clock :: int
  http_date :: "int \<Rightarrow> string"

text \<open>How a method ends: \<^verbatim>\<open>fatalf\<close> panics with an error document, otherwise there may be a list to encode
  or data already written.\<close>

datatype reply = R_fatal nat string string | R_list ListResp | R_data bytes | R_nil

section \<open>Resources\<close>

text \<open>A resource holds pointers into the server. The pointer of an object's bucket is the name the bucket is
  registered under, next to the bucket it points to.\<close>

datatype resource = NullResource | BucketResource string "s3_bucket option"
  | ObjectResource string string string s3_bucket "s3_object option"

definition unimplementedBucketResourceNames :: "string list" where
  "unimplementedBucketResourceNames = [''acl'', ''lifecycle'', ''policy'', ''location'', ''logging'', ''notification'',
     ''versions'', ''requestPayment'', ''versioning'', ''website'', ''uploads'']"

definition unimplementedObjectResourceNames :: "string list" where
  "unimplementedObjectResourceNames = [''uploadId'', ''acl'', ''torrent'', ''uploads'']"

text \<open>The bucket and object groups of \<^verbatim>\<open>pathRegexp\<close>; the dot does not match a newline.\<close>

definition path_groups :: "string \<Rightarrow> (string \<times> string) option" where
  "path_groups p =
     (case dropWhile (\<lambda>c. c \<noteq> slash) p of
        [] \<Rightarrow> None
      | _ # rest \<Rightarrow>
          let b = takeWhile (\<lambda>c. c \<noteq> slash) rest in
          Some (b, if b = [] then [] else takeWhile (\<lambda>c. c \<noteq> CHR 0x0A) (drop (length b + 1) rest)))"

definition resourceForURL :: "string \<Rightarrow> gomap \<Rightarrow> s3_server \<Rightarrow> reply + resource" where
  "resourceForURL path q srv =
     (case path_groups path of
        None \<Rightarrow> Inl (R_fatal 404 ''InvalidURI'' (''Couldn'' @ [CHR 0x27] @ ''t parse the specified URI''))
      | Some (bucketName, objectName) \<Rightarrow>
          if bucketName = [] then Inr NullResource
          else if objectName = [] then
            if \<exists>n \<in> set (map fst q). n \<in> set unimplementedBucketResourceNames then Inr NullResource
            else Inr (BucketResource bucketName (map_of (sv_buckets srv) bucketName))
          else
            (case map_of (sv_buckets srv) bucketName of
               None \<Rightarrow> Inl (R_fatal 404 ''NoSuchBucket'' ''The specified bucket does not exist'')
             | Some b \<Rightarrow>
                 if \<exists>n \<in> set (map fst q). n \<in> set unimplementedObjectResourceNames then Inr NullResource
                 else Inr (ObjectResource objectName (lookup_str ''versionId'' q) bucketName b (map_of (sb_objects b) objectName))))"

definition notAllowed :: reply where
  "notAllowed = R_fatal 400 ''MethodNotAllowed'' ''The specified method is not allowed against this resource''"

section \<open>Buckets\<close>

text \<open>\<^verbatim>\<open>strconv.Atoi\<close> for a 64-bit int.\<close>

definition Atoi :: "string \<Rightarrow> int option" where
  "Atoi s =
     (let neg = (s \<noteq> [] \<and> hd s = CHR ''-''); ds = (if s \<noteq> [] \<and> hd s \<in> set ''+-'' then tl s else s);
          n = int (foldl (\<lambda>n c. 10 * n + hex_digit c) 0 ds); v = (if neg then - n else n) in
      if ds \<noteq> [] \<and> list_all is_digit ds \<and> - (2 ^ 63) \<le> v \<and> v < 2 ^ 63 then Some v else None)"

text \<open>\<^verbatim>\<open>strings.Index\<close>.\<close>

fun str_index :: "string \<Rightarrow> string \<Rightarrow> nat option" where
  "str_index [] sub = (if sub = [] then Some 0 else None)"
| "str_index (c # s) sub = (if prefix sub (c # s) then Some 0 else map_option Suc (str_index s sub))"

definition s3Key :: "s3_object \<Rightarrow> s3_key" where
  "s3Key ob = \<lparr>sk_Key = ob_name ob, sk_LastModified = ob_mtime ob, sk_Size = length (ob_data ob), sk_ETag = ob_checksum ob\<rparr>"

text \<open>The name an object is listed under, and whether that is a common prefix. The condition on the
  prefixes so far skips an object of the last one.\<close>

definition list_name :: "string \<Rightarrow> string \<Rightarrow> string \<Rightarrow> string \<times> bool" where
  "list_name pre delimiter name =
     (if delimiter = [] then (name, False)
      else case str_index (drop (length pre) name) delimiter of
        None \<Rightarrow> (name, False)
      | Some i \<Rightarrow> (take (length pre + i + length delimiter) name, True))"

text \<open>The loop of the listing: keys and prefixes found so far, and whether it was cut.\<close>

fun list_loop ::
  "string \<Rightarrow> string \<Rightarrow> string \<Rightarrow> int \<Rightarrow> s3_object list \<Rightarrow> s3_key list \<Rightarrow> string list \<Rightarrow> s3_key list \<times> string list \<times> bool" where
  "list_loop pre delimiter marker maxKeys [] contents pres = (contents, pres, False)"
| "list_loop pre delimiter marker maxKeys (ob # obs) contents pres =
     (if \<not> prefix pre (ob_name ob) then list_loop pre delimiter marker maxKeys obs contents pres
      else
        let (name, isPrefix) = list_name pre delimiter (ob_name ob) in
        if isPrefix \<and> pres \<noteq> [] \<and> last pres = name
        then list_loop pre delimiter marker maxKeys obs contents pres
        else if name \<le> marker then list_loop pre delimiter marker maxKeys obs contents pres
        else if int (length contents + length pres) \<ge> maxKeys then (contents, pres, True)
        else if isPrefix then list_loop pre delimiter marker maxKeys obs contents (pres @ [name])
        else list_loop pre delimiter marker maxKeys obs (contents @ [s3Key ob]) pres)"

definition orderedObjects :: "string \<Rightarrow> s3_bucket \<Rightarrow> s3_object list" where
  "orderedObjects pre b =
     sort_key ob_name (map snd (filter (\<lambda>(name, _). prefix pre name) (sb_objects b)))"

definition bucket_get :: "s3_bucket option \<Rightarrow> s3_request \<Rightarrow> gomap \<times> reply" where
  "bucket_get bk a =
     (case bk of
        None \<Rightarrow> ([], R_fatal 404 ''NoSuchBucket'' ''The specified bucket does not exist'')
      | Some b \<Rightarrow>
          let delimiter = lookup_str ''delimiter'' (sq_form a); marker = lookup_str ''marker'' (sq_form a);
              s = lookup_str ''max-keys'' (sq_form a); pre = lookup_str ''prefix'' (sq_form a) in
          if s \<noteq> [] \<and> (case Atoi s of None \<Rightarrow> True | Some i \<Rightarrow> i < 0)
          then ([], R_fatal 400 ''invalid value for max-keys: %q'' s)
          else if sq_method a = ''HEAD'' then ([(''Content-Type'', ''application/xml'')], R_nil)
          else
            let maxKeys = (if s = [] then - 1 else case Atoi s of None \<Rightarrow> - 1 | Some i \<Rightarrow> i);
                maxKeys = (if maxKeys \<le> 0 then 1000 else maxKeys);
                (contents, pres, stop) = list_loop pre delimiter marker maxKeys (orderedObjects pre b) [] [] in
            ([(''Content-Type'', ''application/xml'')],
             R_list \<lparr>lr_Name = sb_name b, lr_Prefix = pre, lr_Delimiter = delimiter, lr_Marker = marker,
                    lr_MaxKeys = maxKeys, lr_IsTruncated = stop, lr_Contents = contents, lr_CommonPrefixes = pres\<rparr>))"

definition bucket_delete :: "s3_bucket option \<Rightarrow> s3_server \<Rightarrow> reply \<times> s3_server" where
  "bucket_delete bk srv =
     (case bk of
        None \<Rightarrow> (R_fatal 404 ''NoSuchBucket'' ''The specified bucket does not exist'', srv)
      | Some b \<Rightarrow>
          if sb_objects b \<noteq> [] then (R_fatal 400 ''BucketNotEmpty'' ''The bucket you tried to delete is not empty'', srv)
          else (R_nil, srv\<lparr>sv_buckets := del_key (sb_name b) (sv_buckets srv)\<rparr>))"

definition validBucketName :: "string \<Rightarrow> bool" where
  "validBucketName name \<longleftrightarrow>
     3 \<le> length name \<and> length name \<le> 255 \<and>
     hd name \<in> set ''0123456789abcdefghijklmnopqrstuvwxyz'' \<and>
     list_all (\<lambda>c. c \<in> set ''0123456789abcdefghijklmnopqrstuvwxyz_-.'') name"

definition server_locationConstraint :: "s3lib \<Rightarrow> s3_request \<Rightarrow> reply + string" where
  "server_locationConstraint lib a =
     (case sq_body a of
        Inl e \<Rightarrow> Inl (R_fatal 400 ''InvalidRequest'' ''read error'')
      | Inr body \<Rightarrow>
          if body = [] then Inr []
          else case xml_location lib body of
            Inl e \<Rightarrow> Inl (R_fatal 400 ''InvalidRequest'' ''decode error'')
          | Inr loc \<Rightarrow> Inr loc)"

definition bucket_put :: "s3lib \<Rightarrow> string \<Rightarrow> s3_bucket option \<Rightarrow> s3_request \<Rightarrow> s3_server \<Rightarrow> reply \<times> s3_server" where
  "bucket_put lib name bk a srv =
     (let acl = lookup_str ''X-Amz-Acl'' (sq_header a) in
      case bk of
        Some b \<Rightarrow>
          if send409Conflict (sv_Send409Conflict srv) then
            (R_fatal 409 ''BucketAlreadyOwnedByYou''
               ''Your previous request to create the named bucket succeeded and you already own it.'', srv)
          else (R_nil, srv\<lparr>sv_buckets := gm_set name (b\<lparr>sb_acl := acl\<rparr>) (sv_buckets srv)\<rparr>)
      | None \<Rightarrow>
          if \<not> validBucketName name then (R_fatal 400 ''InvalidBucketName'' ''The specified bucket is not valid'', srv)
          else
            (case server_locationConstraint lib a of
               Inl r \<Rightarrow> (r, srv)
             | Inr loc \<Rightarrow>
                 if loc = [] then
                   (R_fatal 400 ''InvalidRequets'' (''The unspecified location constraint is incompatible '' @
                      ''for the region specific endpoint this request was sent to.''), srv)
                 else (R_nil, srv\<lparr>sv_buckets := gm_set name \<lparr>sb_name = name, sb_acl = acl, sb_objects = []\<rparr>
                                                 (sv_buckets srv)\<rparr>)))"

section \<open>Objects\<close>

text \<open>\<^verbatim>\<open>http.Header.Set\<close> of a lower-case name: the canonical form has a capital after each dash.\<close>

definition canonical_header :: "string \<Rightarrow> string" where
  "canonical_header s = join ''-'' (map (\<lambda>w. case w of [] \<Rightarrow> [] | c # cs \<Rightarrow> ascii_upper c # cs) (split_on (CHR ''-'') s))"

definition hex_byte :: "char \<Rightarrow> string" where
  "hex_byte c = [''0123456789abcdef'' ! (of_char c div 16), ''0123456789abcdef'' ! (of_char c mod 16)]"

definition responseParams :: "string list" where
  "responseParams = [''content-type'', ''content-language'', ''expires'', ''cache-control'', ''content-disposition'',
     ''content-encoding'']"

text \<open>The headers of a GET: the object's metadata, then the overrides asked for in the form.\<close>

definition override_headers :: "gomap \<Rightarrow> gomap \<Rightarrow> gomap" where
  "override_headers form h =
     fold (\<lambda>(name, val) h.
        if prefix ''response-'' name \<and> drop 9 name \<in> set responseParams then gm_set (canonical_header (drop 9 name)) val h else h)
       form h"

definition object_get :: "s3lib \<Rightarrow> s3_object option \<Rightarrow> s3_request \<Rightarrow> gomap \<times> reply" where
  "object_get lib ob a =
     (case ob of
        None \<Rightarrow> ([], R_fatal 404 ''NoSuchKey'' ''The specified key does not exist.'')
      | Some obj \<Rightarrow>
          let h = override_headers (sq_form a) (ob_meta obj) in
          if lookup_str ''Range'' (sq_header a) \<noteq> [] then (h, R_fatal 400 ''NotImplemented'' ''range unimplemented'')
          else
            let h = gm_set ''Etag'' (concat (map hex_byte (ob_checksum obj))) h;
                h = gm_set ''Last-Modified'' (http_date lib (ob_mtime obj)) h in
            if sq_method a = ''HEAD'' then (h, R_nil) else (h, R_data (ob_data obj)))"

definition metaHeaders :: "string list" where
  "metaHeaders = [''Content-MD5'', ''x-amz-acl'', ''Content-Type'', ''Content-Encoding'', ''Content-Disposition'']"

definition meta_of :: "gomap \<Rightarrow> gomap \<Rightarrow> gomap" where
  "meta_of headers meta =
     fold (\<lambda>(k, v). gm_set k v)
       (filter (\<lambda>(k, _). k \<in> set metaHeaders \<or> prefix ''X-Amz-Meta-'' k) headers) meta"

text \<open>The object after a successful PUT: a new one, or the old one with its fields overwritten.\<close>

definition new_object :: "s3lib \<Rightarrow> string \<Rightarrow> s3_object option \<Rightarrow> s3_request \<Rightarrow> bytes \<Rightarrow> bytes \<Rightarrow> s3_object" where
  "new_object lib name ob a data gotHash =
     (let obj = (case ob of None \<Rightarrow> \<lparr>ob_name = name, ob_mtime = 0, ob_meta = [], ob_checksum = [], ob_data = []\<rparr> | Some x \<Rightarrow> x) in
      obj\<lparr>ob_meta := meta_of (sq_header a) (ob_meta obj), ob_data := data, ob_checksum := gotHash, ob_mtime := clock lib\<rparr>)"

definition object_put ::
  "s3lib \<Rightarrow> string \<Rightarrow> string \<Rightarrow> s3_bucket \<Rightarrow> s3_object option \<Rightarrow> s3_request \<Rightarrow> s3_server \<Rightarrow> reply \<times> s3_server" where
  "object_put lib name p b ob a srv =
     (let c = lookup_str ''Content-Md5'' (sq_header a);
          expectHash = (if c = [] then None else hex_decode lib c) in
      if c \<noteq> [] \<and> (case expectHash of None \<Rightarrow> True | Some h \<Rightarrow> length h \<noteq> 16)
      then (R_fatal 400 ''InvalidDigest'' ''The Content-MD5 you specified was invalid'', srv)
      else case sq_body a of
        Inl e \<Rightarrow> (R_fatal 400 ''TODO'' ''read error'', srv)
      | Inr data \<Rightarrow>
          let gotHash = md5 lib data in
          if expectHash \<noteq> None \<and> expectHash \<noteq> Some gotHash
          then (R_fatal 400 ''BadDigest'' ''The Content-MD5 you specified did not match what we received'', srv)
          else if 0 \<le> sq_length a \<and> int (length data) \<noteq> sq_length a
          then (R_fatal 400 ''IncompleteBody''
                  (''You did not provide the number of bytes specified by the Content-Length HTTP header''), srv)
          else
            (R_nil, srv\<lparr>sv_buckets :=
               gm_set p (b\<lparr>sb_objects := gm_set name (new_object lib name ob a data gotHash) (sb_objects b)\<rparr>)
                 (sv_buckets srv)\<rparr>))"

definition object_delete :: "string \<Rightarrow> string \<Rightarrow> s3_bucket \<Rightarrow> s3_server \<Rightarrow> reply \<times> s3_server" where
  "object_delete name p b srv =
     (R_nil, srv\<lparr>sv_buckets :=
        gm_set p (b\<lparr>sb_objects := del_key name (sb_objects b)\<rparr>) (sv_buckets srv)\<rparr>)"

section \<open>Dispatch\<close>

fun resource_put :: "s3lib \<Rightarrow> resource \<Rightarrow> s3_request \<Rightarrow> s3_server \<Rightarrow> reply \<times> s3_server" where
  "resource_put lib NullResource a srv = (notAllowed, srv)"
| "resource_put lib (BucketResource name b) a srv = bucket_put lib name b a srv"
| "resource_put lib (ObjectResource name v p b ob) a srv = object_put lib name p b ob a srv"

fun resource_get :: "s3lib \<Rightarrow> resource \<Rightarrow> s3_request \<Rightarrow> gomap \<times> reply" where
  "resource_get lib NullResource a = ([], notAllowed)"
| "resource_get lib (BucketResource name b) a = bucket_get b a"
| "resource_get lib (ObjectResource name v p b ob) a = object_get lib ob a"

fun resource_delete :: "resource \<Rightarrow> s3_server \<Rightarrow> reply \<times> s3_server" where
  "resource_delete NullResource srv = (notAllowed, srv)"
| "resource_delete (BucketResource name b) srv = bucket_delete b srv"
| "resource_delete (ObjectResource name v p b ob) srv = object_delete name p b srv"

fun resource_post :: "resource \<Rightarrow> reply" where
  "resource_post NullResource = notAllowed"
| "resource_post (BucketResource name b) = R_fatal 400 ''Method'' ''bucket POST method not available''"
| "resource_post (ObjectResource name v p b ob) = notAllowed"

fun resource_bucket :: "resource \<Rightarrow> string" where
  "resource_bucket NullResource = []"
| "resource_bucket (BucketResource name b) = name"
| "resource_bucket (ObjectResource name v p b ob) = sb_name b"

text \<open>The answer, from the headers set so far and the way the method ended.\<close>

definition finish :: "s3lib \<Rightarrow> string \<Rightarrow> nat \<Rightarrow> string \<Rightarrow> gomap \<times> reply \<Rightarrow> http_resp" where
  \<open>finish lib method reqId bucketName hr =
     (let (h, r) = hr in
      case r of
        R_fatal status codeStr msg \<Rightarrow>
          \<lparr>hp_status = status, hp_header = gm_set ''Content-Type'' ''xml version="1.0" encoding="UTF-8"'' h,
           hp_body = Inr (xml_error lib \<lparr>se_statusCode = status, se_Code = codeStr, se_Message = msg,
                                         se_BucketName = bucketName, se_RequestId = reqId\<rparr>)\<rparr>
      | R_list l \<Rightarrow> \<lparr>hp_status = 200, hp_header = h, hp_body = Inr (if method = ''HEAD'' then [] else xml_list lib l)\<rparr>
      | R_data d \<Rightarrow> \<lparr>hp_status = 200, hp_header = h, hp_body = Inr d\<rparr>
      | R_nil \<Rightarrow> \<lparr>hp_status = 200, hp_header = h, hp_body = Inr []\<rparr>)\<close>

definition serveHTTP :: "s3lib \<Rightarrow> s3_request \<Rightarrow> s3_server \<Rightarrow> http_resp \<times> s3_server" where
  "serveHTTP lib a srv =
     (let reqId = sv_reqId srv; srv = srv\<lparr>sv_reqId := reqId + 1\<rparr>; bare = apfst (Pair []) in
      case resourceForURL (sq_path a) (sq_query a) srv of
        Inl r \<Rightarrow> (finish lib (sq_method a) reqId [] ([], r), srv)
      | Inr res \<Rightarrow>
          let (hr, srv) =
            (if sq_method a = ''PUT'' then bare (resource_put lib res a srv)
             else if sq_method a = ''GET'' \<or> sq_method a = ''HEAD'' then (resource_get lib res a, srv)
             else if sq_method a = ''DELETE'' then bare (resource_delete res srv)
             else if sq_method a = ''POST'' then (([], resource_post res), srv)
             else (([], R_fatal 400 ''MethodNotAllowed'' (''unknown http request method '' @ sq_method a)), srv)) in
          (finish lib (sq_method a) reqId (resource_bucket res) hr, srv))"

section \<open>The client against this server\<close>

text \<open>The exchange: the client's request as the server receives it. The client
  keeps the path of its URL decoded, and the server decodes what was sent, so both see the same path; a
  URL of another host does not reach the server.\<close>

definition s3test_request :: "http_req \<Rightarrow> s3_request" where
  "s3test_request q = \<lparr>sq_method = hq_method q, sq_path = url_path (hq_url q), sq_query = [], sq_form = [],
     sq_header = [(''Content-Type'', ''application/octet-stream''), (''X-Amz-Acl'', ''private'')],
     sq_body = Inr (hq_body q), sq_length = int (length (hq_body q))\<rparr>"

definition s3test_do :: "s3lib \<Rightarrow> http_req \<Rightarrow> s3_server \<Rightarrow> (error + http_resp) \<times> s3_server" where
  "s3test_do lib q srv =
     (if prefix ''https://s3.amazonaws.com/'' (hq_url q) then let (r, srv) = serveHTTP lib (s3test_request q) srv in (Inr r, srv)
      else (Inl (Errorf ''no such host''), srv))"

text \<open>What the server stores under a URL.\<close>

definition url_bucket :: "string \<Rightarrow> string" where "url_bucket u = takeWhile (\<lambda>c. c \<noteq> slash) (drop 25 u)"
definition url_object :: "string \<Rightarrow> string" where "url_object u = drop (length (url_bucket u) + 1) (drop 25 u)"

definition s3test_view :: "s3_server \<Rightarrow> string \<Rightarrow> bytes option" where
  "s3test_view srv u =
     (if plain_url u then
        (case map_of (sv_buckets srv) (url_bucket u) of
           None \<Rightarrow> None
         | Some b \<Rightarrow> map_option ob_data (map_of (sb_objects b) (url_object u)))
      else None)"

section \<open>The listing\<close>

text \<open>Without a delimiter the loop lists the objects after the marker, cut at the limit.\<close>

lemma list_loop_plain:
  assumes "int (length contents + length pres) \<le> maxKeys" and "\<And>ob. ob \<in> set obs \<Longrightarrow> prefix pre (ob_name ob)"
  shows "list_loop pre [] marker maxKeys obs contents pres =
    (let ks = filter (\<lambda>ob. marker < ob_name ob) obs; n = nat maxKeys - (length contents + length pres) in
     (contents @ map s3Key (take n ks), pres, n < length ks))"
  using assms
proof (induction obs arbitrary: contents)
  case (Cons ob obs)
  have pre: "prefix pre (ob_name ob)" "\<And>o'. o' \<in> set obs \<Longrightarrow> prefix pre (ob_name o')" using Cons.prems(2) by auto
  show ?case
  proof (cases "marker < ob_name ob \<and> int (length contents + length pres) < maxKeys")
    case True
    then have "nat maxKeys - (length contents + length pres) =
        Suc (nat maxKeys - (length (contents @ [s3Key ob]) + length pres))"
      using Cons.prems(1) by auto
    then show ?thesis
      using True pre(1) Cons.IH [OF _ pre(2), of "contents @ [s3Key ob]"] by (auto simp: list_name_def Let_def)
  next
    case False
    then show ?thesis
      using Cons.prems(1) pre(1) Cons.IH [OF Cons.prems(1) pre(2)]
      by (auto simp: list_name_def Let_def not_less)
  qed
qed (simp add: Let_def)

text \<open>A list has at most \<open>maxKeys\<close> entries, keys and common prefixes together.\<close>

lemma list_loop_bound:
  assumes "int (length contents + length pres) \<le> maxKeys"
    and "list_loop pre delimiter marker maxKeys obs contents pres = (ks, ps, stop)"
  shows "int (length ks + length ps) \<le> maxKeys"
  using assms
  by (induction pre delimiter marker maxKeys obs contents pres rule: list_loop.induct)
    (auto split: if_splits prod.splits)

section \<open>The server keeps its registry in order\<close>

text \<open>Every bucket is registered under its own name, and so is every object of a bucket.\<close>

lemma gm_set_in: "x \<in> set (gm_set k v m) \<Longrightarrow> x = (k, v) \<or> x \<in> set m"
  by (induction k v m rule: gm_set.induct) (auto split: if_splits)

definition bucket_ok :: "string \<Rightarrow> s3_bucket \<Rightarrow> bool" where
  "bucket_ok n b \<longleftrightarrow> sb_name b = n \<and> gm_ok (sb_objects b) \<and> (\<forall>(k, ob) \<in> set (sb_objects b). ob_name ob = k)"

definition server_ok :: "s3_server \<Rightarrow> bool" where
  "server_ok srv \<longleftrightarrow> gm_ok (sv_buckets srv) \<and> (\<forall>(n, b) \<in> set (sv_buckets srv). bucket_ok n b)"

lemma server_ok_bucket: "server_ok srv \<Longrightarrow> map_of (sv_buckets srv) n = Some b \<Longrightarrow> bucket_ok n b"
  by (auto simp: server_ok_def dest!: map_of_SomeD)

lemma server_ok_reqId [simp]: "server_ok (srv\<lparr>sv_reqId := n\<rparr>) = server_ok srv"
  by (simp add: server_ok_def)

lemma server_ok_set: "server_ok srv \<Longrightarrow> bucket_ok n b \<Longrightarrow> server_ok (srv\<lparr>sv_buckets := gm_set n b (sv_buckets srv)\<rparr>)"
  by (auto simp: server_ok_def dest!: gm_set_in)

lemma del_key_set: "set (del_key k m) \<subseteq> set m" "gm_ok m \<Longrightarrow> gm_ok (del_key k m)"
  by (auto simp: del_key_def distinct_map_filter)

lemma resourceForURL_bucket:
  assumes "resourceForURL path q srv = Inr (BucketResource n bk)"
  shows "bk = map_of (sv_buckets srv) n"
  using assms by (auto simp: resourceForURL_def split: option.splits if_splits)

lemma resourceForURL_object:
  assumes "resourceForURL path q srv = Inr (ObjectResource name v p b ob)"
  shows "map_of (sv_buckets srv) p = Some b \<and> ob = map_of (sb_objects b) name \<and> name \<noteq> []"
  using assms by (auto simp: resourceForURL_def split: option.splits if_splits)

lemma bucket_put_ok:
  assumes "server_ok srv" "bk = map_of (sv_buckets srv) n" "bucket_put lib n bk a srv = (r, srv')"
  shows "server_ok srv'"
proof (cases bk)
  case None
  have "bucket_ok n \<lparr>sb_name = n, sb_acl = acl, sb_objects = []\<rparr>" for acl by (simp add: bucket_ok_def)
  then show ?thesis
    using assms(1,3) None by (auto simp: bucket_put_def Let_def server_ok_set split: if_splits sum.splits)
next
  case (Some b)
  then have "bucket_ok n (b\<lparr>sb_acl := acl\<rparr>)" for acl
    using server_ok_bucket [OF assms(1)] assms(2) by (simp add: bucket_ok_def)
  then show ?thesis
    using assms(1,3) Some by (auto simp: bucket_put_def Let_def server_ok_set split: if_splits)
qed

lemma bucket_ok_put: "bucket_ok p b \<Longrightarrow> ob_name ob = k \<Longrightarrow> bucket_ok p (b\<lparr>sb_objects := gm_set k ob (sb_objects b)\<rparr>)"
  by (auto simp: bucket_ok_def dest!: gm_set_in)

lemma object_put_ok:
  assumes "server_ok srv" "map_of (sv_buckets srv) p = Some b" "ob = map_of (sb_objects b) name"
    "object_put lib name p b ob a srv = (r, srv')"
  shows "server_ok srv'"
proof -
  have b: "bucket_ok p b" by (rule server_ok_bucket [OF assms(1,2)])
  have "ob_name (new_object lib name ob a d h) = name" for d h
    using b assms(3) by (auto simp: new_object_def Let_def bucket_ok_def dest!: map_of_SomeD split: option.split)
  moreover have "server_ok (srv\<lparr>sv_buckets := gm_set p (b\<lparr>sb_objects := gm_set name x (sb_objects b)\<rparr>) (sv_buckets srv)\<rparr>)"
    if "ob_name x = name" for x
    by (rule server_ok_set [OF assms(1) bucket_ok_put [OF b that]])
  ultimately show ?thesis
    using assms(1,4) by (auto simp: object_put_def Let_def split: if_splits sum.splits option.splits)
qed

lemma object_delete_ok:
  assumes "server_ok srv" "map_of (sv_buckets srv) p = Some b"
  shows "server_ok (snd (object_delete name p b srv))"
proof -
  have "bucket_ok p b" by (rule server_ok_bucket [OF assms])
  then have "bucket_ok p (b\<lparr>sb_objects := del_key name (sb_objects b)\<rparr>)"
    by (auto simp: bucket_ok_def del_key_set(2) dest!: subsetD [OF del_key_set(1)])
  then show ?thesis by (simp add: object_delete_def server_ok_set assms(1))
qed

lemma bucket_delete_ok: "server_ok srv \<Longrightarrow> server_ok (snd (bucket_delete bk srv))"
  by (auto simp: bucket_delete_def server_ok_def del_key_set(2) dest!: subsetD [OF del_key_set(1)] split: option.split)

lemma serveHTTP_ok:
  assumes "server_ok srv"
  shows "server_ok (snd (serveHTTP lib a srv))"
proof -
  let ?s = "srv\<lparr>sv_reqId := sv_reqId srv + 1\<rparr>"
  have s: "server_ok ?s" using assms by simp
  have res: "server_ok (snd (resource_put lib x a ?s))" "server_ok (snd (resource_delete x ?s))"
    if x: "resourceForURL (sq_path a) (sq_query a) ?s = Inr x" for x
  proof -
    show "server_ok (snd (resource_put lib x a ?s))"
    proof (cases x)
      case (BucketResource n bk)
      then show ?thesis
        using bucket_put_ok [OF s resourceForURL_bucket, of _ _ n bk lib a] x
        by (cases "bucket_put lib n bk a ?s") auto
    next
      case (ObjectResource name v p b ob)
      then show ?thesis
        using object_put_ok [OF s, of p b ob name lib a] resourceForURL_object x
        by (cases "object_put lib name p b ob a ?s") fastforce
    qed (use s in simp)
    show "server_ok (snd (resource_delete x ?s))"
      using bucket_delete_ok [OF s] object_delete_ok [OF s] resourceForURL_object x s by (cases x) fastforce+
  qed
  show ?thesis
    using s res by (auto simp: serveHTTP_def Let_def apfst_def map_prod_def split: sum.split prod.split)
qed

section \<open>The client's contract holds\<close>

lemma plain_url_keys:
  assumes "plain_url u"
  shows "\<exists>t. u = ''https://s3.amazonaws.com/'' @ t" "plain_key (url_bucket u)" "plain_key (url_object u)"
  using assms unfolding plain_url_def Let_def prefix_def url_bucket_def url_object_def by blast+

lemma plain_url_parts:
  assumes "plain_url u"
  shows "u = ''https://s3.amazonaws.com/'' @ url_bucket u @ slash # url_object u"
    and "url_bucket u \<noteq> []" "url_object u \<noteq> []" "CHR 0x0A \<notin> set (url_object u)"
proof -
  obtain t where u: "u = ''https://s3.amazonaws.com/'' @ t" using plain_url_keys(1) [OF assms] by blast
  have t: "drop 25 u = t" by (simp add: u)
  show b: "url_bucket u \<noteq> []" and ob: "url_object u \<noteq> []"
    using plain_url_keys(2,3) [OF assms] by (simp_all add: plain_key_def)
  have "\<not> plain_char (CHR 0x0A)" by (simp add: plain_char_def)
  then show "CHR 0x0A \<notin> set (url_object u)"
    using plain_url_keys(3) [OF assms] unfolding plain_key_def list_all_iff by blast
  have split: "t = url_bucket u @ dropWhile (\<lambda>c. c \<noteq> slash) t"
    unfolding url_bucket_def t by simp
  obtain c r where r: "dropWhile (\<lambda>c. c \<noteq> slash) t = c # r"
  proof (cases "dropWhile (\<lambda>c. c \<noteq> slash) t")
    case Nil
    then have "t = url_bucket u" using split by (metis append_Nil2)
    then have False using ob unfolding url_object_def t by simp
    then show ?thesis ..
  qed blast
  then have "c = slash" by (auto simp: dropWhile_eq_Cons_conv)
  with split r have tt: "t = url_bucket u @ slash # r" by simp
  have "url_object u = r" unfolding url_object_def t by (subst tt) simp
  with tt u show "u = ''https://s3.amazonaws.com/'' @ url_bucket u @ slash # url_object u" by simp
qed

lemma plain_url_inj:
  "plain_url u \<Longrightarrow> plain_url v \<Longrightarrow> url_bucket u = url_bucket v \<Longrightarrow> url_object u = url_object v \<Longrightarrow> u = v"
  using plain_url_parts(1) by metis

lemma path_groups_slash:
  "path_groups (slash # p) =
     (let b = takeWhile (\<lambda>c. c \<noteq> slash) p in
      Some (b, if b = [] then [] else takeWhile (\<lambda>c. c \<noteq> CHR 0x0A) (drop (length b + 1) p)))"
  by (simp add: path_groups_def)

lemma path_groups_url:
  assumes "plain_url u"
  shows "path_groups (url_path u) = Some (url_bucket u, url_object u)"
proof -
  obtain t where u: "u = ''https://s3.amazonaws.com/'' @ t" using plain_url_keys(1) [OF assms] by blast
  have p: "url_path u = slash # drop 25 u" unfolding url_path_def u by simp
  have "takeWhile (\<lambda>c. c \<noteq> CHR 0x0A) (url_object u) = url_object u"
    using plain_url_parts(4) [OF assms] by (auto simp: takeWhile_eq_all_conv)
  then show ?thesis
    unfolding p path_groups_slash Let_def url_bucket_def [symmetric] url_object_def [symmetric]
    using plain_url_parts(2) [OF assms] by simp
qed

lemma resource_url:
  assumes "plain_url u"
  shows "resourceForURL (url_path u) [] srv =
    (case map_of (sv_buckets srv) (url_bucket u) of
       None \<Rightarrow> Inl (R_fatal 404 ''NoSuchBucket'' ''The specified bucket does not exist'')
     | Some b \<Rightarrow> Inr (ObjectResource (url_object u) [] (url_bucket u) b (map_of (sb_objects b) (url_object u))))"
  using plain_url_parts(2,3) [OF assms]
  by (simp add: resourceForURL_def path_groups_url [OF assms] lookup_str_def split: option.split)

lemma plain_url_host: "plain_url u \<Longrightarrow> prefix ''https://s3.amazonaws.com/'' u"
  by (simp add: plain_url_def Let_def)

text \<open>What a change of one object of one bucket does to the view.\<close>

lemma s3test_view_set:
  assumes "plain_url u" "map_of (sv_buckets srv) (url_bucket u) = Some b" "sv_buckets srv' = gm_set (url_bucket u) b' (sv_buckets srv)"
    and "map_of (sb_objects b') = (map_of (sb_objects b))(url_object u := x)"
  shows "s3test_view srv' = (s3test_view srv)(u := map_option ob_data x)"
proof
  fix v
  show "s3test_view srv' v = ((s3test_view srv)(u := map_option ob_data x)) v"
    using assms plain_url_inj [OF _ assms(1), of v] by (auto simp: s3test_view_def)
qed

lemma s3test_view_reqId [simp]: "s3test_view (srv\<lparr>sv_reqId := n\<rparr>) = s3test_view srv"
  by (rule ext) (simp add: s3test_view_def)

lemma s3test_put:
  assumes u: "plain_url u"
  shows "s3test_do lib (put_req u d) srv = (x, srv') \<Longrightarrow>
    (case map_of (sv_buckets srv) (url_bucket u) of
       None \<Rightarrow> s3test_view srv' = s3test_view srv \<and> (\<exists>r. x = Inr r \<and> hp_status r = 404)
     | Some b \<Rightarrow> s3test_view srv' = (s3test_view srv)(u \<mapsto> d) \<and> (\<exists>r. x = Inr r \<and> hp_status r = 200))"
proof -
  assume run: "s3test_do lib (put_req u d) srv = (x, srv')"
  show ?thesis
  proof (cases "map_of (sv_buckets srv) (url_bucket u)")
    case None
    then show ?thesis
      using run plain_url_host [OF u]
      by (auto simp: s3test_do_def serveHTTP_def s3test_request_def put_req_def resource_url [OF u] finish_def Let_def)
  next
    case (Some b)
    let ?a = "s3test_request (put_req u d)"
    let ?ob = "new_object lib (url_object u) (map_of (sb_objects b) (url_object u)) ?a d (md5 lib d)"
    have b': "sv_buckets srv' =
        gm_set (url_bucket u) (b\<lparr>sb_objects := gm_set (url_object u) ?ob (sb_objects b)\<rparr>) (sv_buckets srv)"
      and x: "\<exists>r. x = Inr r \<and> hp_status r = 200"
      using run Some plain_url_host [OF u]
      by (auto simp: s3test_do_def serveHTTP_def s3test_request_def put_req_def resource_url [OF u] finish_def Let_def
          object_put_def lookup_str_def)
    have "s3test_view srv' = (s3test_view srv)(u := map_option ob_data (Some ?ob))"
      by (rule s3test_view_set [OF u Some b']) simp
    moreover have "ob_data ?ob = d" by (simp add: new_object_def Let_def)
    ultimately show ?thesis using Some x by simp
  qed
qed

lemma s3test_get:
  assumes u: "plain_url u" and run: "s3test_do lib (get_req u) srv = (x, srv')"
  shows "s3test_view srv' = s3test_view srv"
    and "\<exists>r. x = Inr r \<and> (case s3test_view srv u of None \<Rightarrow> hp_status r = 404 | Some d \<Rightarrow> hp_status r = 200 \<and> hp_body r = Inr d)"
  using run plain_url_host [OF u] u
  by (auto simp: s3test_do_def serveHTTP_def s3test_request_def get_req_def resource_url finish_def Let_def
      object_get_def lookup_str_def s3test_view_def split: option.splits)

lemma s3test_del:
  assumes u: "plain_url u" and run: "s3test_do lib (del_req u) srv = (x, srv')"
  shows "s3test_view srv' = (s3test_view srv)(u := None)"
proof (cases "map_of (sv_buckets srv) (url_bucket u)")
  case None
  then have "s3test_view srv' = s3test_view srv" "s3test_view srv u = None"
    using run plain_url_host [OF u] u
    by (auto simp: s3test_do_def serveHTTP_def s3test_request_def del_req_def resource_url finish_def Let_def s3test_view_def)
  then show ?thesis by auto
next
  case (Some b)
  have b': "sv_buckets srv' =
      gm_set (url_bucket u) (b\<lparr>sb_objects := del_key (url_object u) (sb_objects b)\<rparr>) (sv_buckets srv)"
    using run Some plain_url_host [OF u] u
    by (auto simp: s3test_do_def serveHTTP_def s3test_request_def del_req_def resource_url finish_def Let_def
        object_delete_def)
  show ?thesis using s3test_view_set [OF u Some b', of None] by simp
qed

interpretation s3test: s3_service "env\<lparr>http_do := s3test_do lib\<rparr>" s3test_view plain_url
  for env :: "(s3_server, 'm) env" and lib
proof
  fix u b s and r :: http_resp and s' x
  assume u: "plain_url u"
  show "s3test_view s' = (s3test_view s)(u \<mapsto> b)"
    if "http_do (env\<lparr>http_do := s3test_do lib\<rparr>) (put_req u b) s = (Inr r, s')" "success r"
    using s3test_put [OF u, of lib b s "Inr r" s'] that by (auto simp: success_def split: option.splits)
  show "s3test_view s' = s3test_view s \<or> s3test_view s' = (s3test_view s)(u \<mapsto> b)"
    if "http_do (env\<lparr>http_do := s3test_do lib\<rparr>) (put_req u b) s = (x, s')"
    using s3test_put [OF u, of lib b s x s'] that by (auto split: option.splits)
  show "s3test_view s' = s3test_view s" if "http_do (env\<lparr>http_do := s3test_do lib\<rparr>) (get_req u) s = (x, s')"
    using s3test_get(1) [OF u, of lib s x s'] that by simp
  show "s3test_view s u = Some b"
    if "http_do (env\<lparr>http_do := s3test_do lib\<rparr>) (get_req u) s = (Inr r, s')" "success r" "hp_body r = Inr b"
    using s3test_get(2) [OF u, of lib s "Inr r" s'] that by (auto simp: success_def split: option.splits)
  show "s3test_view s' = s3test_view s \<or> s3test_view s' = (s3test_view s)(u := None)"
    if "http_do (env\<lparr>http_do := s3test_do lib\<rparr>) (del_req u) s = (x, s')"
    using s3test_del [OF u, of lib s x s'] that by simp
qed

end
