(* ===== verification/Testbed.thy ===== *)
theory Testbed
  imports S3_Test_Server Cache
begin

text \<open>
  A closed system to run the bundler in: the object store is the client library's own test server, memcached
  is a map that never evicts. Two things come from it. The interpretation says that the contract of the
  two services behind the cache holds of this pair, whatever the other parameters are; and
  \<open>bed\<close> is a concrete environment on which the operations evaluate.
\<close>

section \<open>A memcached that never evicts\<close>

definition map_mc_get :: "string \<Rightarrow> gomap \<Rightarrow> (error + bytes) \<times> gomap" where
  "map_mc_get k m = (case map_of m k of None \<Rightarrow> (Inl ErrCacheMiss, m) | Some v \<Rightarrow> (Inr v, m))"

definition map_mc_set :: "string \<Rightarrow> bytes \<Rightarrow> gomap \<Rightarrow> error option \<times> gomap" where
  "map_mc_set k v m = (None, gm_set k v m)"

definition map_mc_delete :: "string \<Rightarrow> gomap \<Rightarrow> error option \<times> gomap" where
  "map_mc_delete k m = (if map_of m k = None then (Some ErrCacheMiss, m) else (None, del_key k m))"

definition on_testbed :: "s3lib \<Rightarrow> (s3_server, gomap) env \<Rightarrow> (s3_server, gomap) env" where
  "on_testbed lib env = env\<lparr>http_do := s3test_do lib, mc_get := map_mc_get, mc_set := map_mc_set, mc_delete := map_mc_delete\<rparr>"

lemma map_memcached: "memcached_law (on_testbed lib env) map_of"
  by (auto simp: memcached_law_def on_testbed_def map_mc_get_def map_mc_set_def map_mc_delete_def map_le_def split: option.splits if_splits)

lemma s3_service_cong: "http_do env' = http_do env \<Longrightarrow> s3_service env view valid = s3_service env' view valid"
  by (simp add: s3_service_def)

interpretation bed: cache_backend "on_testbed lib env" s3test_view map_of for lib env
proof -
  have "s3_service (on_testbed lib env) s3test_view plain_url"
    by (rule iffD1 [OF s3_service_cong s3test.s3_service_axioms]) (simp add: on_testbed_def)
  then show "cache_backend (on_testbed lib env) s3test_view map_of"
    by (simp add: cache_backend_def cache_backend_axioms_def map_memcached)
qed

section \<open>A concrete environment\<close>

text \<open>Digests, XML and cryptography are not what the examples are about: every token is accepted, the
  checksum is empty, the order of a range is the order of the list.\<close>

definition bed_lib :: s3lib where
  "bed_lib = \<lparr>md5 = (\<lambda>_. []), hex_decode = (\<lambda>_. None), xml_error = se_Message, xml_list = (\<lambda>_. []),
     xml_location = (\<lambda>_. Inr ''US''), clock = 0, http_date = (\<lambda>_. ''Thu, 01 Jan 1970 00:00:00 UTC'')\<rparr>"

definition bed_env :: "(s3_server, gomap) env" where
  "bed_env = on_testbed bed_lib \<lparr>getenv = (\<lambda>_. ''testing''), now = 0, http_do = s3test_do bed_lib, http_class = (\<lambda>_. E_other), s3_sign = (\<lambda>_. None),
     s3_errdoc = (\<lambda>r. Errorf (case hp_body r of Inl _ \<Rightarrow> [] | Inr b \<Rightarrow> b)), s3_attempts = 1,
     mc_get = map_mc_get, mc_set = map_mc_set, mc_delete = map_mc_delete, map_range = (\<lambda>m. m),
     temp_name = (\<lambda>_ _. Inl (Errorf ''no temporary directory'')), zip_open = (\<lambda>_. Inl (Errorf ''not a zip file'')),
     zip_bytes = (\<lambda>fs. concat (map snd fs)), read_dir = (\<lambda>_ _. []),
     png_config = (\<lambda>_. Inl (Errorf ''not a PNG file'')), base64_decode = (\<lambda>s. (s, None)),
     parse_pubkey = (\<lambda>_. Pkix_rsa ''key''), sha256_sum = (\<lambda>b. b), rsa_verify = (\<lambda>_ _ _. None),
     run_shell = (\<lambda>_ fs. ((None, [], []), fs)), sql_other = (\<lambda>_. None)\<rparr>"

lemma bed_range: "range_law bed_env"
  by (simp add: range_law_def bed_env_def on_testbed_def)

end
