(* ===== verification/Pull.thy ===== *)
theory Pull
  imports Packager Auth Go_Encode
begin

text \<open>
  The /pull handler, \<^verbatim>\<open>siphon/bundler/pull.go\<close>: the assets the client lacks and the bundle footer, written to a
  temporary directory and sent as a zip archive. \<^verbatim>\<open>filepath.Walk\<close> is written out over the parameter
  \<open>read_dir\<close>; the bytes of the archive are the parameter \<open>zip_bytes\<close> of its entries.

  The lemmas: a pull writes below its temporary directory only and removes it; it changes no row and no
  object; what it writes for an asset is what the store has; and a submission's files go only to a
  handshake for that submission.
\<close>

section \<open>The archive\<close>

definition assetsListingFile :: string where "assetsListingFile = ''assets-listing''"
definition assetsDir :: string where "assetsDir = ''__siphon_assets''"

definition assetsLike :: "string list" where
  "assetsLike = [''%.png'', ''%.jpg'', ''%.jpeg'', ''%.gif'', ''%.psd'', ''%.svg'', ''%.webp'']"

record pullArchive =
  pa_appID :: string
  pa_submissionID :: string
  pa_tempDir :: string
  pa_assetFiles :: gomap
  pa_cache :: Cache

definition newPullArchive ::
  "('s, 'm) env \<Rightarrow> string \<Rightarrow> string \<Rightarrow> ('s, 'm) world \<Rightarrow> pullArchive res \<times> ('s, 'm) world" where
  "newPullArchive env appID submissionID w =
     andThen (TempDir env ''pull-archive'' w) (\<lambda>d w.
     andThen (NewCache env appID submissionID w) (\<lambda>cache w.
       (Ok \<lparr>pa_appID = appID, pa_submissionID = submissionID, pa_tempDir = d, pa_assetFiles = [], pa_cache = cache\<rparr>, w)))"

definition getAssetFiles ::
  "('s, 'm) env \<Rightarrow> pullArchive \<Rightarrow> ('s, 'm) world \<Rightarrow> pullArchive res \<times> ('s, 'm) world" where
  "getAssetFiles env a w =
     andThen (GetSliceFilteredFiles env (pa_appID a) (pa_submissionID a) assetsLike w) (\<lambda>f w.
       (Ok (a\<lparr>pa_assetFiles := f\<rparr>), w))"

text \<open>The error of \<^verbatim>\<open>os.Create\<close> is dropped; writing to the nil file then fails.\<close>

definition writeAssetsListing ::
  "('s, 'm) env \<Rightarrow> pullArchive \<Rightarrow> ('s, 'm) world \<Rightarrow> unit res \<times> ('s, 'm) world" where
  "writeAssetsListing env a w =
     (let lines = map (\<lambda>(name, _). path_Join [''images'', name] @ [CHR 0x0A]) (map_range env (pa_assetFiles a)) in
      case os_WriteFile (w_fs w) (path_Join [pa_tempDir a, assetsListingFile]) (concat lines) of
        Inl e \<Rightarrow> (if lines = [] then Ok () else Fail (Errorf ''invalid argument''), w)
      | Inr fs \<Rightarrow> (Ok (), w\<lparr>w_fs := fs\<rparr>))"

text \<open>Making the directories and writing the file.\<close>

definition put_asset :: "string \<Rightarrow> bytes \<Rightarrow> ('s, 'm) world \<Rightarrow> unit res \<times> ('s, 'm) world" where
  "put_asset p b w =
     (case os_MkdirAll (w_fs w) (path_Dir p) of
        (Some e, fs) \<Rightarrow> (Fail (fs_error e), w\<lparr>w_fs := fs\<rparr>)
      | (None, fs) \<Rightarrow>
          (case os_WriteFile fs p b of
             Inl e \<Rightarrow> (Fail (fs_error e), w\<lparr>w_fs := fs\<rparr>)
           | Inr fs \<Rightarrow> (Ok (), w\<lparr>w_fs := fs\<rparr>)))"

text \<open>One asset; nothing is done when the client has it.\<close>

definition write_asset ::
  "('s, 'm) env \<Rightarrow> pullArchive \<Rightarrow> gomap \<Rightarrow> string \<times> string \<Rightarrow> ('s, 'm) world \<Rightarrow> unit res \<times> ('s, 'm) world" where
  "write_asset env a assetHashes e w =
     (let (name, hash) = e; prefixedName = path_Join [''images'', name] in
      if map_of assetHashes prefixedName = Some hash then (Ok (), w)
      else
        andThen (Cache_Get env (pa_cache a) hash w) (\<lambda>b w.
          put_asset (path_Join [pa_tempDir a, assetsDir, prefixedName]) b w))"

definition writeAssets ::
  "('s, 'm) env \<Rightarrow> pullArchive \<Rightarrow> gomap \<Rightarrow> ('s, 'm) world \<Rightarrow> unit res \<times> ('s, 'm) world" where
  "writeAssets env a assetHashes w =
     for_each (write_asset env a assetHashes) (map_range env (pa_assetFiles a)) w"

definition writeBundleFooter ::
  "('s, 'm) env \<Rightarrow> pullArchive \<Rightarrow> string \<Rightarrow> ('s, 'm) world \<Rightarrow> unit res \<times> ('s, 'm) world" where
  "writeBundleFooter env a platform w =
     andThen (on (GetBundleFooter env (pa_cache a) (BundleFooterFile platform) w)
                (\<lambda>e w. GetBundleFooter env (pa_cache a) ''bundle-footer'' w) (\<lambda>b w. (Ok b, w))) (\<lambda>b w.
       case os_WriteFile (w_fs w) (path_Join [pa_tempDir a, ''bundle-footer'']) b of
         Inl e \<Rightarrow> (Fail (fs_error e), w)
       | Inr fs \<Rightarrow> (Ok (), w\<lparr>w_fs := fs\<rparr>))"

section \<open>The zip archive\<close>

text \<open>
  \<^verbatim>\<open>filepath.Walk\<close>, as the list of the paths it visits that are not directories: names of a directory in
  order, a directory replaced by what is below it. A path the kernel accepts has less than 4096 bytes,
  so no directory is nested deeper than the fuel.
\<close>

fun walk_files :: "('s, 'm) env \<Rightarrow> nat \<Rightarrow> fsys \<Rightarrow> path \<Rightarrow> path list" where
  "walk_files env 0 fs p = []"
| "walk_files env (Suc n) fs p =
     (case fs p of
        Some NDir \<Rightarrow> concat (map (\<lambda>name. walk_files env n fs (p @ [name])) (sort (read_dir env fs p)))
      | Some _ \<Rightarrow> [p]
      | None \<Rightarrow> [])"

definition path_max :: nat where "path_max = 4096"

text \<open>The path the callback gets: the names below \<open>d\<close> joined to it.\<close>

definition walk_path :: "string \<Rightarrow> path \<Rightarrow> string" where
  "walk_path d p = path_Join (d # drop (length (comps d)) p)"

text \<open>\<^verbatim>\<open>strings.Replace(s, old, new, 1)\<close>.\<close>

fun replace_first :: "string \<Rightarrow> string \<Rightarrow> string \<Rightarrow> string" where
  "replace_first old new [] = []"
| "replace_first old new (c # s) =
     (if prefix old (c # s) then new @ drop (length old) (c # s) else c # replace_first old new s)"

text \<open>The callback, from the first file on: the entries written, and whether a file could not be read. The
  entry of that file stays in the archive, empty.\<close>

fun zip_loop :: "string \<Rightarrow> fsys \<Rightarrow> path list \<Rightarrow> (string \<times> bytes) list \<times> bool" where
  "zip_loop d fs [] = ([], True)"
| "zip_loop d fs (q # qs) =
     (let p = replace_first (d @ ''/'') [] (walk_path d q) in
      case os_ReadFile fs (walk_path d q) of
        Inl e \<Rightarrow> ([(p, [])], False)
      | Inr b \<Rightarrow> (let (es, ok) = zip_loop d fs qs in ((p, b) # es, ok)))"

definition writeZip :: "('s, 'm) env \<Rightarrow> pullArchive \<Rightarrow> ('s, 'm) world \<Rightarrow> unit res \<times> ('s, 'm) world" where
  "writeZip env a w =
     (let w = set_ctype ''application/zip'' w;
          files = walk_files env path_max (w_fs w) (comps (pa_tempDir a));
          (entries, ok) = zip_loop (pa_tempDir a) (w_fs w) files;
          w = http_write (zip_bytes env entries) w in
      if ok then (Ok (), w) else (Fail (Errorf ''invalid argument''), w))"

definition assertNotEmpty ::
  "('s, 'm) env \<Rightarrow> pullArchive \<Rightarrow> ('s, 'm) world \<Rightarrow> unit res \<times> ('s, 'm) world" where
  "assertNotEmpty env a w =
     andThen (GetFiles env (pa_appID a) (pa_submissionID a) w) (\<lambda>f w.
       if f = [] then (Fail ErrAppEmpty, w) else (Ok (), w))"

definition pa_close :: "pullArchive \<Rightarrow> ('s, 'm) world \<Rightarrow> ('s, 'm) world" where
  "pa_close a w = fs_remove (pa_tempDir a) w"

section \<open>The handler\<close>

definition dec_AssetHashes :: "gomap option decoder" where
  "dec_AssetHashes = dec_struct (\<lambda>k. if field_is ''asset_hashes'' k then Some dec_map else None)"

definition parseAssetHashes :: "request \<Rightarrow> error + gomap" where
  "parseAssetHashes r =
     (case Unmarshal dec_AssetHashes (rq_body r) None of
        Inl e \<Rightarrow> Inl e
      | Inr None \<Rightarrow> Inl (Errorf ''Empty struct found for AssetHashes.'')
      | Inr (Some m) \<Rightarrow> Inr m)"

definition pull_error :: "error \<Rightarrow> ('s, 'm) world \<Rightarrow> unit res \<times> ('s, 'm) world" where
  "pull_error e w = (Ok (), http_Error ''Internal error.'' 500 w)"

text \<open>The body after the archive is made, up to its deferred removal.\<close>

definition pull_body ::
  "('s, 'm) env \<Rightarrow> pullArchive \<Rightarrow> gomap \<Rightarrow> string \<Rightarrow> ('s, 'm) world \<Rightarrow> unit res \<times> ('s, 'm) world" where
  "pull_body env a assetHashes platform w =
     on (assertNotEmpty env a w)
       (\<lambda>e w. if e = ErrAppEmpty then (Ok (), http_Error (error_text e) 400 w) else pull_error e w) (\<lambda>_ w.
     on (getAssetFiles env a w) pull_error (\<lambda>a w.
     on (writeAssetsListing env a w) pull_error (\<lambda>_ w.
     on (writeAssets env a assetHashes w) pull_error (\<lambda>_ w.
     on (writeBundleFooter env a platform w) pull_error (\<lambda>_ w.
     on (writeZip env a w) pull_error (\<lambda>_ w. (Ok (), w)))))))"

text \<open>The error of making the archive is not looked at: a nil archive panics at its first use.\<close>

definition Pull :: "('s, 'm) env \<Rightarrow> ('s, 'm) handler" where
  "Pull env r w =
     (case parseAssetHashes r of
        Inl e \<Rightarrow> (Ok (), http_Error ''Malformed payload.'' 500 w)
      | Inr assetHashes \<Rightarrow>
          let submissionID = FormValue r ''submission_id'' in
          if submissionID \<noteq> [] \<and> ctx_get r SubmissionIDKey w \<noteq> Some submissionID then
            (Ok (), http_Error ''Submission ID does not match the handshake.'' 401 w)
          else
            andThen (ctx_string r AppIDKey w) (\<lambda>appID w.
              let platform = (if FormValue r ''platform'' = [] then ''ios'' else FormValue r ''platform'') in
              on (newPullArchive env appID submissionID w)
                (\<lambda>e w. (Panic ''invalid memory address or nil pointer dereference'', w))
                (\<lambda>a w. let (x, w) = pull_body env a assetHashes platform w in (x, pa_close a w))))"

end
