(* ===== verification/Submit.thy ===== *)
theory Submit
  imports Packager Auth
begin

text \<open>
  The /submit handler, \<^verbatim>\<open>siphon/bundler/submit.go\<close>: a snapshot of an app's development files under a submission
  ID. The objects are copied first, then a footer is built and stored, and the rows come last.
\<close>

record submitHandler =
  sh_appID :: string
  sh_submissionID :: string
  sh_metadata :: Metadata
  sh_devCache :: Cache
  sh_submissionCache :: Cache

text \<open>The error of the first call is overwritten by that of the second. Both ask the same environment for the
  same bucket, so they fail together and with the same error.\<close>

definition newSubmitHandler ::
  "('s, 'm) env \<Rightarrow> string \<Rightarrow> string \<Rightarrow> ('s, 'm) world \<Rightarrow> submitHandler res \<times> ('s, 'm) world" where
  "newSubmitHandler env appID submissionID w =
     andThen (NewCache env appID [] w) (\<lambda>devCache w.
     andThen (NewCache env appID submissionID w) (\<lambda>submissionCache w.
       (Ok \<lparr>sh_appID = appID, sh_submissionID = submissionID, sh_metadata = Metadata_zero,
            sh_devCache = devCache, sh_submissionCache = submissionCache\<rparr>, w)))"

definition sh_internalError :: "('s, 'm) world \<Rightarrow> ('s, 'm) world" where
  "sh_internalError w = http_Error ''Internal error.'' 500 w"

text \<open>Reading a footer file and storing it; the temporary footers go away on every path.\<close>

definition put_footer ::
  "('s, 'm) env \<Rightarrow> Cache \<Rightarrow> FooterPath \<Rightarrow> string \<Rightarrow> string \<Rightarrow> ('s, 'm) world \<Rightarrow> unit res \<times> ('s, 'm) world" where
  "put_footer env c f file key w =
     (case os_ReadFile (w_fs w) file of
        Inl e \<Rightarrow> (Fail (fs_error e), CleanupFooters f w)
      | Inr ftr \<Rightarrow>
          on (SetBundleFooter env c ftr key w) (\<lambda>e w. (Fail e, CleanupFooters f w))
            (\<lambda>_ w. (Ok (), CleanupFooters f w)))"

text \<open>A nil result of the packager is dereferenced, for a platform or by the cleanup.\<close>

definition makeBundleFooter ::
  "('s, 'm) env \<Rightarrow> submitHandler \<Rightarrow> string \<Rightarrow> ('s, 'm) world \<Rightarrow> unit res \<times> ('s, 'm) world" where
  "makeBundleFooter env h platform w =
     andThen (MakeBundleFootersTmp env (sh_appID h) [] None (md_BaseVersion (sh_metadata h)) w) (\<lambda>f w.
       case f of
         None \<Rightarrow> (Panic ''invalid memory address or nil pointer dereference'', w)
       | Some f \<Rightarrow>
           if platform = ''ios'' \<and> fp_IOS f \<noteq> [] then
             put_footer env (sh_submissionCache h) f (fp_IOS f) (BundleFooterFile platform) w
           else if platform = ''android'' \<and> fp_Android f \<noteq> [] then
             put_footer env (sh_submissionCache h) f (fp_Android f) ''bundle-footer'' w
           else (Fail (Errorf ''Problem building footer for platform.''), CleanupFooters f w))"

definition sh_load_error :: error where
  "sh_load_error = Errorf ''Problem loading Siphonfile from the cache.''"

definition sh_loadMetaData ::
  "('s, 'm) env \<Rightarrow> submitHandler \<Rightarrow> ('s, 'm) world \<Rightarrow> submitHandler res \<times> ('s, 'm) world" where
  "sh_loadMetaData env h w =
     on (GetFile env (sh_appID h) [] MetadataName w) (\<lambda>e w. (Fail sh_load_error, w)) (\<lambda>hash w.
     on (Cache_Get env (sh_submissionCache h) hash w) (\<lambda>e w. (Fail sh_load_error, w)) (\<lambda>b w.
       case ParseMetadata b of
         Inl e \<Rightarrow> (Fail e, w)
       | Inr m \<Rightarrow> (Ok (h\<lparr>sh_metadata := m\<rparr>), w)))"

definition copy_error :: error where
  "copy_error = Errorf ''Problem copying files for the snapshot''"

definition copy_one ::
  "('s, 'm) env \<Rightarrow> submitHandler \<Rightarrow> string \<times> string \<Rightarrow> ('s, 'm) world \<Rightarrow> unit res \<times> ('s, 'm) world" where
  "copy_one env h e w =
     (let hash = snd e in
      on (Cache_Get env (sh_devCache h) hash w) (\<lambda>e w. (Fail copy_error, w)) (\<lambda>b w.
      on (Cache_Set env (sh_submissionCache h) hash b w) (\<lambda>e w. (Fail copy_error, w)) (\<lambda>_ w. (Ok (), w))))"

definition copyFiles ::
  "('s, 'm) env \<Rightarrow> submitHandler \<Rightarrow> ('s, 'm) world \<Rightarrow> unit res \<times> ('s, 'm) world" where
  "copyFiles env h w =
     on (GetFiles env (sh_appID h) [] w) (\<lambda>e w. (Fail copy_error, w)) (\<lambda>files w.
       for_each (copy_one env h) (map_range env files) w)"

text \<open>The steps of the handler; the first that fails ends it. What is answered is in the second definition.\<close>

definition submit_steps ::
  "('s, 'm) env \<Rightarrow> submitHandler \<Rightarrow> request \<Rightarrow> ('s, 'm) world \<Rightarrow> unit res \<times> ('s, 'm) world" where
  "submit_steps env h r w =
     andThen (copyFiles env h w) (\<lambda>_ w.
     andThen (sh_loadMetaData env h w) (\<lambda>h w.
     let platform = (if PostFormValue r ''platform'' = [] then ''ios'' else PostFormValue r ''platform'') in
     andThen (makeBundleFooter env h platform w) (\<lambda>_ w.
       MakeSnapshot env (sh_appID h) (sh_submissionID h) w)))"

definition submit_handle ::
  "('s, 'm) env \<Rightarrow> submitHandler \<Rightarrow> request \<Rightarrow> ('s, 'm) world \<Rightarrow> unit res \<times> ('s, 'm) world" where
  "submit_handle env h r w =
     on (submit_steps env h r w) (\<lambda>e w. (Ok (), sh_internalError w)) (\<lambda>_ w. (Ok (), w))"

text \<open>The checks, in the order of the source.\<close>

definition Submit :: "('s, 'm) env \<Rightarrow> ('s, 'm) handler" where
  "Submit env r w =
     andThen (ctx_string r AppIDKey w) (\<lambda>appID w.
     let submissionID = PostFormValue r ''submission_id'' in
     if appID = [] \<or> submissionID = [] then
       (Ok (), http_Error ''App ID and submission ID are required.'' 400 w)
     else
     on (SubmissionExists submissionID w) (\<lambda>e w. (Ok (), http_Error ''Internal error.'' 500 w)) (\<lambda>exists w.
     if exists then (Ok (), http_Error ''Submission ID already exists.'' 400 w)
     else
     on (AppExists appID w) (\<lambda>e w. (Ok (), http_Error ''Internal error.'' 500 w)) (\<lambda>exists w.
     if \<not> exists then (Ok (), http_Error ''App ID does not exist.'' 400 w)
     else if ctx_get r SubmissionIDKey w \<noteq> Some submissionID then
       (Ok (), http_Error ''Submission ID does not match the handshake.'' 400 w)
     else
     on (newSubmitHandler env appID submissionID w) (\<lambda>e w. (Ok (), http_Error ''Internal error.'' 500 w)) (\<lambda>h w.
       submit_handle env h r w))))"

end
