(* ===== verification/Healthcheck.thy ===== *)
theory Healthcheck
  imports Push
begin

text \<open>
  The health check, \<^verbatim>\<open>siphon/bundler/healthcheck.go\<close>: a known app's hashes, a known object of the store, and a
  write and a read through the cache. It answers with the first thing that went wrong.
\<close>

definition health_hash :: string where
  "health_hash = ''9ad6ddd80b42ed82849ebfc0933cfeb3a1f08f3d2bbfb77cde1fc15d'' @ ''631a0d43''"

definition health_app :: "('s, 'm) env \<Rightarrow> string" where
  "health_app env = (if getenv env ''SIPHON_ENV'' = ''production'' then ''FIqjdggmex'' else ''vezfRWaSSD'')"

definition health_say :: "string \<Rightarrow> ('s, 'm) world \<Rightarrow> unit res \<times> ('s, 'm) world" where
  "health_say s w = (Ok (), http_write s w)"

text \<open>The key that is written and read through the cache already has the app ID in front; the cache puts
  it there again.\<close>

definition Healthcheck :: "('s, 'm) env \<Rightarrow> ('s, 'm) handler" where
  "Healthcheck env r w =
     (let w = set_ctype ''text/plain'' w; appID = health_app env; key = appID @ ''/'' @ health_hash in
      on (MakeJSONHashes env appID w) (\<lambda>e w. health_say (''Hashes error: '' @ error_text e) w) (\<lambda>files w.
      if files = [] then health_say ''Hashes error: zero found'' w
      else
      case S3Wrapper_Open env of
        Inl e \<Rightarrow> health_say (''S3 Open() error: '' @ error_text e) w
      | Inr s3 \<Rightarrow>
          on (GetKey env s3 key w) (\<lambda>e w. health_say (''S3 GetKey() error: '' @ error_text e) w) (\<lambda>b w.
          if b = [] then health_say ''S3 GetKey() error: empty response'' w
          else
          on (NewCache env appID [] w)
            (\<lambda>e w. (Panic ''invalid memory address or nil pointer dereference'', w)) (\<lambda>cache w.
          on (Cache_Set env cache key b w) (\<lambda>e w. health_say (''Cache.Set() error: '' @ error_text e) w) (\<lambda>_ w.
          on (Cache_Get env cache key w) (\<lambda>e w. health_say (''Cache.Get() error: '' @ error_text e) w) (\<lambda>b2 w.
          if length b2 \<noteq> length b then health_say ''Cache.Get() error: lengths do not match'' w
          else health_say ''Passed.'' w))))))"

end
