(* ===== verification/Demo.thy ===== *)
theory Demo
  imports Push_Correct Testbed Pull Submit Healthcheck
begin

text \<open>
  A concrete run for the examples that accompany the properties: an app with one stored file of another app
  beside it, a client that uploads a Siphonfile, and the closed system of the theory before. The operations
  evaluate on it; the lemmas record what they return.
\<close>

section \<open>The state\<close>

definition demo_fs :: fsys where
  \<open>demo_fs = map_of [([''tmp''], NDir), ([''t''], NDir), ([''t'', ''diffs''], NDir),
     ([''t'', ''diffs'', ''Siphonfile''], NFile ''{"base_version": "0.5"}'')]\<close>

definition demo_server :: s3_server where
  "demo_server = \<lparr>sv_reqId = 0,
     sv_buckets = [(''siphon-files-testing'', \<lparr>sb_name = ''siphon-files-testing'', sb_acl = ''private'', sb_objects = []\<rparr>)],
     sv_Send409Conflict = None\<rparr>"

definition demo_rows :: "row list" where
  "demo_rows = [\<lparr>r_app = ''other'', r_sub = Some [], r_name = ''index.js'', r_hash = ''h0''\<rparr>]"

definition demo_request :: request where
  "demo_request = \<lparr>rq_id = 1, rq_method = ''POST'', rq_path = ''/v1/push/app/'', rq_vars = [(''app_id'', ''app'')],
     rq_form = [], rq_post = [], rq_body = [], rq_header = [],
     rq_host = ''localhost'', rq_abs_host = None, rq_query = []\<rparr>"

definition demo_world :: "(s3_server, gomap) world" where
  "demo_world = \<lparr>w_rows = demo_rows, w_dbq = [], w_s3 = demo_server, w_mc = [], w_fs = demo_fs, w_rsp = new_response,
     w_ctx = ctx_empty, w_web = [], w_puts = [], w_amqp = [], w_msgs = []\<rparr>"

definition demo_cache :: Cache where
  "demo_cache = \<lparr>c_appID = ''app'', c_submissionID = [], c_mc = False,
     c_s3 = \<lparr>bk_region = USEast, bk_name = ''siphon-files-testing''\<rparr>\<rparr>"

definition demo_archive :: Archive where
  "demo_archive = \<lparr>ar_tempDir = ''/t'', ar_listing = Some [(''Siphonfile'', ''h1'')]\<rparr>"

definition demo_handler :: pushHandler where
  "demo_handler = \<lparr>ph_appID = ''app'', ph_userID = ''user'', ph_cache = demo_cache, ph_archive = demo_archive,
     ph_dirty = False, ph_metadata = Metadata_zero, ph_icons = [], ph_metadataDirty = False\<rparr>"

section \<open>Temporary directories\<close>

text \<open>A system in which \<^verbatim>\<open>ioutil.TempDir\<close> succeeds: the directory is named after the prefix.\<close>

definition tmp_env :: "(s3_server, gomap) env" where
  "tmp_env = bed_env\<lparr>temp_name := (\<lambda>pre fs.
     let d = ''/tmp/'' @ pre in
     if plain_dir d \<and> comps d \<noteq> [] \<and> (\<forall>q. prefix (comps d) q \<longrightarrow> fs q = None) \<and> dir_chain fs (butlast (comps d))
     then Inr d else Inl (Errorf ''no temporary directory''))\<rparr>"

lemma tmp_temp: "temp_law tmp_env"
  by (auto simp: temp_law_def tmp_env_def Let_def split: if_splits)

lemma tmp_range: "range_law tmp_env"
  using bed_range by (simp add: range_law_def tmp_env_def)

section \<open>Runs\<close>

lemma demo_sync: "\<exists>h' w'. handle_sync bed_env demo_handler demo_world = (Ok h', w')"
proof -
  have "(case handle_sync bed_env demo_handler demo_world of (Ok h, w) \<Rightarrow> True | _ \<Rightarrow> False)"
    by code_simp
  then show ?thesis by (auto split: prod.splits res.splits)
qed

lemma demo_sane: "listing_sane demo_handler"
  by (simp add: listing_sane_def demo_handler_def demo_archive_def listing_ok_def listing_of_def sublist_code)

lemma demo_db: "db_ok demo_world" "db_up demo_world"
  by (simp_all add: db_ok_def db_up_def demo_world_def demo_rows_def rows_ok_def row_key_def reads_complete_def)

end
