(* ===== verification/Submit_Correct.thy ===== *)
theory Submit_Correct
  imports Submit Push_Correct
begin

text \<open>
  A submission is a faithful snapshot. When the steps of the handler complete, the submission's file table
  equals the app's development files, and every file of it has, under the submission, the object the
  development file had. On every outcome the rows of all other namespaces are as before.
\<close>

section \<open>The rows\<close>

lemma fold_upd_pairs: "fold (\<lambda>e m. m(fst e \<mapsto> snd e)) kvs m = m ++ map_of (rev kvs)"
  by (induction kvs arbitrary: m) (auto simp: map_add_def fun_eq_iff split: option.splits)

definition snap_row :: "string \<Rightarrow> string \<Rightarrow> string \<times> string \<Rightarrow> ('s, 'm) world \<Rightarrow> unit res \<times> ('s, 'm) world" where
  "snap_row app sub e w = on (AddFile app sub (fst e) (snd e) w) (\<lambda>e w. (Fail snapshot_error, w)) (\<lambda>_ w. (Ok (), w))"

lemma MakeSnapshot_snap_row:
  "MakeSnapshot env app sub w =
     on (GetFiles env app [] w) (\<lambda>e w. (Fail snapshot_error, w)) (\<lambda>files w. for_each (snap_row app sub) (map_range env files) w)"
  by (simp only: MakeSnapshot_def snap_row_def [abs_def] case_prod_unfold)

lemma snap_row_frame:
  "db_frame w (snd (snap_row app sub e w)) \<and> other_rows app sub (w_rows (snd (snap_row app sub e w))) = other_rows app sub (w_rows w)"
proof -
  obtain r w' where op: "AddFile app sub (fst e) (snd e) w = (r, w')" by (cases "AddFile app sub (fst e) (snd e) w")
  show ?thesis
    using AddFile_frame [of w app sub "fst e" "snd e"] AddFile_other [OF op] op by (cases r) (simp_all add: snap_row_def)
qed

lemma db_frame_trans: "db_frame u v \<Longrightarrow> db_frame v w \<Longrightarrow> db_frame u w"
  by (cases u; cases v; cases w) (auto simp: db_frame_def)

text \<open>On every outcome the snapshot adds rows of its own namespace only.\<close>

lemma MakeSnapshot_frame:
  "db_frame w (snd (MakeSnapshot env app sub w)) \<and>
   other_rows app sub (w_rows (snd (MakeSnapshot env app sub w))) = other_rows app sub (w_rows w)"
proof -
  let ?Q = "\<lambda>v :: ('a, 'b) world. db_frame w v \<and> other_rows app sub (w_rows v) = other_rows app sub (w_rows w)"
  show ?thesis
    unfolding MakeSnapshot_snap_row
  proof (rule on_keeps [where Q = ?Q])
    show "?Q (snd (GetFiles env app [] w))" using GetFiles_frame [of w env app "[]"] by simp
    show "?Q (snd (for_each (snap_row app sub) (map_range env files) v))" if "?Q v" for files v
      by (rule for_each_keeps [where Q = ?Q, OF _ that]) (use snap_row_frame db_frame_trans in metis)
  qed simp
qed

lemma MakeSnapshot_table:
  assumes "range_law env" and "db_ok w" and "sub_id_ok sub" and "MakeSnapshot env app sub w = (Ok (), w')"
  shows "db_ok w'" and "ns_map app sub (w_rows w') = ns_map app sub (w_rows w) ++ ns_map app [] (w_rows w)"
proof -
  obtain files v where g: "GetFiles env app [] w = (Ok files, v)"
    and l: "for_each (snap_row app sub) (map_range env files) v = (Ok (), w')"
    using assms(4) by (auto simp: MakeSnapshot_snap_row on_eq_Ok)
  have gl: "db_ok v" "map_of files = ns_map app [] (w_rows w)" "gm_ok files"
    using dev_files.get_law [OF assms(2) g] by auto
  have rows: "w_rows v = w_rows w" using GetFiles_frame [of w env app "[]"] g by simp
  have "db_ok w' \<and> ns_map app sub (w_rows w') = fold (\<lambda>e m. m(fst e \<mapsto> snd e)) (map_range env files) (ns_map app sub (w_rows v))"
  proof (rule for_each_fold [where I = db_ok and obs = "\<lambda>w. ns_map app sub (w_rows w)", OF l gl(1)])
    fix e and x x' :: "('a, 'b) world" assume "db_ok x" and "snap_row app sub e x = (Ok (), x')"
    then show "db_ok x' \<and> ns_map app sub (w_rows x') = (ns_map app sub (w_rows x))(fst e \<mapsto> snd e)"
      using file_index.add_law [OF file_index_db [OF assms(3)], of x app "fst e" "snd e" x']
      by (auto simp: snap_row_def on_eq_Ok)
  qed
  then show "db_ok w'" and "ns_map app sub (w_rows w') = ns_map app sub (w_rows w) ++ ns_map app [] (w_rows w)"
    using range_gm [OF assms(1) gl(3)] gl(2) rows by (simp_all add: fold_upd_pairs map_of_rev_distinct)
qed

text \<open>Everything before the snapshot leaves the rows alone and takes its answers from the coming queries.\<close>

definition quiet :: "('s, 'm) world \<Rightarrow> ('s, 'm) world \<Rightarrow> bool" where
  "quiet w v \<longleftrightarrow> w_rows v = w_rows w \<and> set (w_dbq v) \<subseteq> set (w_dbq w)"

lemma quiet_refl [simp]: "quiet w w"
  by (simp add: quiet_def)

lemma quiet_trans: "quiet u v \<Longrightarrow> quiet v w \<Longrightarrow> quiet u w"
  by (auto simp: quiet_def)

lemma quiet_db_ok: "quiet w v \<Longrightarrow> db_ok w \<Longrightarrow> db_ok v"
  using db_ok_sub by (auto simp: quiet_def)

lemma quiet_work: "work_frame w v \<Longrightarrow> quiet w v"
  by (simp add: quiet_def work_frameD(1,2))

lemma quiet_select: "quiet w (snd (GetFiles env app sub w))" "quiet w (snd (GetFile env app sub n w))"
  using GetFiles_frame [of w env app sub] GetFile_frame [of w env app sub n] by (auto simp: quiet_def db_frame_def)

lemma quiet_cache: "quiet w (snd (Cache_Get env c k w))" "quiet w (snd (Cache_Set env c k b w))"
  by (intro quiet_work store_work_frame frame)+

lemma quiet_fs: "quiet w (CleanupFooters f w)" "quiet w (Cleanup d w)" "quiet w (snd (MakeBundleFooters env d version w))"
  by (intro quiet_work fs_work_frame frame)+

lemma quiet_NewCache: "quiet w (snd (NewCache env app sub w))"
  by (simp add: NewCache_def quiet_def split: sum.split)

lemmas quiet_steps = quiet_select quiet_cache quiet_fs quiet_NewCache quiet_work [OF FilesToTemp_frame]

lemma copyFiles_quiet: "quiet w (snd (copyFiles env h w))"
  unfolding copyFiles_def copy_one_def Let_def
  by (intro on_keeps [where Q = "quiet w"] for_each_keeps [where Q = "quiet w"])
    (auto intro: quiet_steps quiet_trans)

lemma sh_loadMetaData_quiet: "quiet w (snd (sh_loadMetaData env h w))"
  unfolding sh_loadMetaData_def
  by (intro on_keeps [where Q = "quiet w"]) (auto intro: quiet_steps quiet_trans split: sum.split)

lemma MakeBundleFootersTmp_quiet: "quiet w (snd (MakeBundleFootersTmp env app sub a version w))"
  unfolding MakeBundleFootersTmp_def
  by (intro andThen_keeps [where Q = "quiet w"] on_keeps [where Q = "quiet w"]) (auto intro: quiet_steps quiet_trans)

lemma put_footer_quiet: "quiet w (snd (put_footer env c f file key w))"
  unfolding put_footer_def SetBundleFooter_def
  by (auto split: sum.split intro!: on_keeps [where Q = "quiet w"] intro: quiet_steps quiet_trans [OF _ quiet_fs(1)])

lemma makeBundleFooter_quiet: "quiet w (snd (makeBundleFooter env h platform w))"
  unfolding makeBundleFooter_def
  by (intro andThen_keeps [where Q = "quiet w"])
    (auto split: option.split intro: quiet_steps quiet_trans [OF _ put_footer_quiet] quiet_trans [OF _ quiet_fs(1)]
      MakeBundleFootersTmp_quiet)

lemma sum_Ok:
  "(case x of Inl e \<Rightarrow> (Fail e, w) | Inr m \<Rightarrow> (Ok (g m), w)) = (Ok h', w') \<longleftrightarrow> (\<exists>m. x = Inr m \<and> h' = g m \<and> w' = w)"
  by (auto split: sum.splits)

lemma submit_steps_Ok:
  assumes "submit_steps env h r w = (Ok (), w')"
  obtains w1 h1 w2 w3 where "copyFiles env h w = (Ok (), w1)" and "sh_loadMetaData env h w1 = (Ok h1, w2)"
    and "makeBundleFooter env h1 (if PostFormValue r ''platform'' = [] then ''ios'' else PostFormValue r ''platform'') w2 = (Ok (), w3)"
    and "MakeSnapshot env (sh_appID h1) (sh_submissionID h1) w3 = (Ok (), w')"
    and "h1 = h\<lparr>sh_metadata := sh_metadata h1\<rparr>" and "quiet w w1" and "quiet w1 w2" and "quiet w2 w3"
proof -
  obtain w1 h1 w2 w3 where 1: "copyFiles env h w = (Ok (), w1)" and 2: "sh_loadMetaData env h w1 = (Ok h1, w2)"
    and 3: "makeBundleFooter env h1 (if PostFormValue r ''platform'' = [] then ''ios'' else PostFormValue r ''platform'') w2 = (Ok (), w3)"
    and 4: "MakeSnapshot env (sh_appID h1) (sh_submissionID h1) w3 = (Ok (), w')"
    using assms unfolding submit_steps_def Let_def andThen_eq_Ok by auto
  moreover have "\<exists>m. h1 = h\<lparr>sh_metadata := m\<rparr>"
    using 2 unfolding sh_loadMetaData_def on_eq_Ok sum_Ok by auto
  then have "h1 = h\<lparr>sh_metadata := sh_metadata h1\<rparr>" by auto
  moreover note this
  moreover have "quiet w w1" "quiet w1 w2" "quiet w2 w3"
    using copyFiles_quiet [of w env h] sh_loadMetaData_quiet [of w1 env h]
      makeBundleFooter_quiet [of w2 env h1 "if PostFormValue r ''platform'' = [] then ''ios'' else PostFormValue r ''platform''"] 1 2 3
    by simp_all
  ultimately show thesis using that by blast
qed

section \<open>Reading through the cache\<close>

text \<open>Two worlds with the same objects, and memcached in agreement with them.\<close>

definition same_store ::
  "('s \<Rightarrow> string \<Rightarrow> bytes option) \<Rightarrow> ('m \<Rightarrow> string \<Rightarrow> bytes option) \<Rightarrow> Cache \<Rightarrow> ('s, 'm) world \<Rightarrow> ('s, 'm) world \<Rightarrow> bool" where
  "same_store view mv c w v \<longleftrightarrow> coherent view mv c v \<and> view (w_s3 v) = view (w_s3 w)"

lemma same_store_cong:
  "w_s3 v' = w_s3 v \<Longrightarrow> w_mc v' = w_mc v \<Longrightarrow> same_store view mv c w v' = same_store view mv c w v"
  by (simp add: same_store_def coherent_def)

lemma same_store_cache:
  "c_mc c = c_mc c' \<Longrightarrow> c_s3 c = c_s3 c' \<Longrightarrow> same_store view mv c w v = same_store view mv c' w v"
  by (simp add: same_store_def coherent_def)

text \<open>The two caches of a submission share their services and their app and have different namespaces; the keys
  in use are plain, have no slash, and none of them is a footer's.\<close>

definition snapshot_pair :: "submitHandler \<Rightarrow> bool" where
  "snapshot_pair h \<longleftrightarrow>
     c_mc (sh_submissionCache h) = c_mc (sh_devCache h) \<and> c_s3 (sh_submissionCache h) = c_s3 (sh_devCache h) \<and>
     c_submissionID (sh_devCache h) = [] \<and> c_submissionID (sh_submissionCache h) \<noteq> [] \<and>
     slash \<notin> set (c_appID (sh_devCache h)) \<and> slash \<notin> set (c_appID (sh_submissionCache h)) \<and>
     slash \<notin> set (c_submissionID (sh_submissionCache h))"

definition snapshot_keys :: "('s, 'm) env \<Rightarrow> submitHandler \<Rightarrow> string set \<Rightarrow> bool" where
  "snapshot_keys env h K \<longleftrightarrow>
     (\<forall>k \<in> K. key_ok env (sh_devCache h) k \<and> key_ok env (sh_submissionCache h) k \<and> slash \<notin> set k \<and>
        \<not> prefix ''bundle-footer'' k)"

lemma newSubmitHandler_h:
  assumes "newSubmitHandler env app sub w = (Ok h, w')"
  shows "sh_appID h = app" "sh_submissionID h = sub" "NewCache env app [] v = (Ok (sh_devCache h), v)"
    "NewCache env app sub v = (Ok (sh_submissionCache h), v)"
  using assms by (auto simp: newSubmitHandler_def andThen_eq_Ok NewCache_def split: sum.splits)

lemma newSubmitHandler_sub: "id_ok sub \<Longrightarrow> sub_id_ok sub"
proof -
  have "\<not> plain_char quote" by (simp add: plain_char_def quote_def)
  then show "id_ok sub \<Longrightarrow> sub_id_ok sub"
    unfolding id_ok_def plain_key_def sub_id_ok_def list_all_iff by blast
qed

lemma footer_key_plain: "plain_key ''bundle-footer-ios''" "plain_key ''bundle-footer''"
  by (simp_all add: plain_key_def plain_char_def)

lemma newSubmitHandler_keys:
  assumes "newSubmitHandler env app sub w = (Ok h, w')" and "id_ok app" and "id_ok sub"
  shows "snapshot_pair h" and "id_ok k \<Longrightarrow> key_ok env (sh_devCache h) k"
    and "plain_key k \<Longrightarrow> key_ok env (sh_submissionCache h) k" and "id_ok k \<Longrightarrow> slash \<notin> set k"
    and "key_ok env (sh_submissionCache h) ''bundle-footer-ios''" "key_ok env (sh_submissionCache h) ''bundle-footer''"
proof -
  obtain b where b: "S3Wrapper_Open env = Inr b" using S3Wrapper_Open_Inr by blast
  have c: "sh_devCache h = \<lparr>c_appID = app, c_submissionID = [], c_mc = (getenv env ''SIPHON_ENV'' \<noteq> ''testing''), c_s3 = b\<rparr>"
    "sh_submissionCache h = \<lparr>c_appID = app, c_submissionID = sub, c_mc = (getenv env ''SIPHON_ENV'' \<noteq> ''testing''), c_s3 = b\<rparr>"
    using newSubmitHandler_h(3,4) [OF assms(1), of w] b by (simp_all add: NewCache_def)
  have i: "plain_key app" "plain_key sub" "slash \<notin> set app" "slash \<notin> set sub" "sub \<noteq> []"
    using assms(2,3) by (auto simp: id_ok_def plain_key_def)
  show "snapshot_pair h" using c i by (simp add: snapshot_pair_def)
  show "key_ok env (sh_devCache h) k" if "id_ok k"
    using that i plain_prefixed [of "sh_devCache h" k] b by (simp add: key_ok_def c id_ok_def)
  show sk: "key_ok env (sh_submissionCache h) k" if "plain_key k" for k
    using that i plain_prefixed [of "sh_submissionCache h" k] b by (simp add: key_ok_def c)
  show "id_ok k \<Longrightarrow> slash \<notin> set k" by (simp add: id_ok_def)
  show "key_ok env (sh_submissionCache h) ''bundle-footer-ios''" "key_ok env (sh_submissionCache h) ''bundle-footer''"
    by (intro sk footer_key_plain)+
qed

context cache_backend
begin

lemma Cache_Get_same:
  assumes "key_ok env c k" and "same_store view mv c w v"
  shows "same_store view mv c w (snd (Cache_Get env c k v))"
  using Cache_Get_view [OF assms(1), of v "fst (Cache_Get env c k v)" "snd (Cache_Get env c k v)"] assms(2)
  by (simp add: same_store_def)

lemma file_to_temp_same:
  assumes "key_ok env c (snd e)" and "same_store view mv c w v"
  shows "same_store view mv c w (snd (file_to_temp env archive c d e v))"
proof -
  let ?Q = "same_store view mv c w"
  have fs: "?Q (put_file p b u)" "?Q (Cleanup p u)" if "?Q u" for p b u
    using that same_store_cong [OF fs_frameD(3,4) [OF put_file_frame [of u p b]]]
      same_store_cong [OF fs_frameD(3,4) [OF fs_remove_frame(2) [of u p]]] by simp_all
  have get: "?Q (snd (case archive_content archive (fst e) (w_fs v) of Some fb \<Rightarrow> (Ok fb, v) | None \<Rightarrow> Cache_Get env c (snd e) v))"
    using assms Cache_Get_same by (simp split: option.split)
  show ?thesis
    unfolding file_to_temp_def Let_def case_prod_unfold
    by (rule on_keeps [where Q = ?Q, OF get]) (simp_all add: fs)
qed

lemma FilesToTemp_same:
  assumes "range_law env" and "\<And>n k. (n, k) \<in> set files \<Longrightarrow> key_ok env c k" and "same_store view mv c w v"
  shows "same_store view mv c w (snd (FilesToTemp env files archive c v))"
proof -
  let ?Q = "same_store view mv c w"
  have tmp: "?Q (snd (TempDir env pre v))" for pre
    using assms(3) same_store_cong [OF fs_frameD(3,4) [OF TempDir_frame [of v env pre]]] by simp
  show ?thesis
    unfolding FilesToTemp_def
  proof (rule or_default_keeps [where Q = ?Q, OF tmp], rule andThen_keeps [where Q = ?Q])
    fix d u assume u: "?Q u"
    show "?Q (snd (for_each (file_to_temp env archive c d) (map_range env files) u))"
    proof (rule for_each_keeps [where Q = ?Q, OF _ u])
      fix e x assume "e \<in> set (map_range env files)" and x: "?Q x"
      then have "(fst e, snd e) \<in> set files" by (simp add: range_set [OF assms(1)])
      then show "?Q (snd (file_to_temp env archive c d e x))" by (intro file_to_temp_same [OF assms(2) x])
    qed
  qed simp
qed

lemma GetFiles_same: "same_store view mv c w v \<Longrightarrow> same_store view mv c w (snd (GetFiles env app sub v))"
  using same_store_cong [OF db_frameD(1,2) [OF conjunct1 [OF GetFiles_frame [of v env app sub]]]] by simp

section \<open>The objects\<close>

lemma blob_other_ns:
  assumes "snapshot_pair h" and "slash \<notin> set k" "slash \<notin> set l"
    and "view (w_s3 v') = (view (w_s3 v))(object_url (c_s3 (sh_submissionCache h)) (prefixed (sh_submissionCache h) k) := x)"
  shows "blob view (sh_devCache h) v' l = blob view (sh_devCache h) v l"
proof -
  have "prefixed (sh_devCache h) l \<noteq> prefixed (sh_submissionCache h) k"
    using prefixed_inj [of "sh_devCache h" l "sh_submissionCache h" k] assms(1-3) by (auto simp: snapshot_pair_def)
  then show ?thesis using assms(1,4) by (auto simp: blob_def object_url_inj snapshot_pair_def)
qed

lemma copy_one_Ok:
  assumes "snapshot_pair h" and "copy_one env h e v = (Ok (), v')" and "coherent view mv (sh_devCache h) v"
    and "key_ok env (sh_devCache h) (snd e)" "key_ok env (sh_submissionCache h) (snd e)" and "slash \<notin> set (snd e)"
  shows "coherent view mv (sh_devCache h) v'" and "blob view (sh_devCache h) v (snd e) \<noteq> None"
    and "blob view (sh_submissionCache h) v' = (blob view (sh_submissionCache h) v)(snd e := blob view (sh_devCache h) v (snd e))"
    and "slash \<notin> set l \<Longrightarrow> blob view (sh_devCache h) v' l = blob view (sh_devCache h) v l"
proof -
  let ?d = "sh_devCache h" and ?s = "sh_submissionCache h" and ?k = "snd e"
  have co: "coherent view mv ?s = coherent view mv ?d"
    using assms(1) by (auto simp: coherent_def snapshot_pair_def fun_eq_iff)
  obtain b u where g: "Cache_Get env ?d ?k v = (Ok b, u)" and s: "Cache_Set env ?s ?k b u = (Ok (), v')"
    using assms(2) by (auto simp: copy_one_def Let_def on_eq_Ok)
  note gv = Cache_Get_view [OF assms(4) g assms(3)]
  have bd: "blob view ?d v ?k = Some b" using gv by simp
  have vs: "view (w_s3 u) = view (w_s3 v)" using gv by simp
  note sv = Cache_Set_view [OF assms(5) s]
  have v': "view (w_s3 v') = (view (w_s3 v))(object_url (c_s3 ?s) (prefixed ?s ?k) \<mapsto> b)" using sv(1) vs by auto
  show "coherent view mv ?d v'" using sv(2) gv co by simp
  show "blob view ?d v ?k \<noteq> None" using bd by simp
  show "blob view ?s v' = (blob view ?s v)(?k := blob view ?d v ?k)"
    using v' bd by (auto simp: blob_def object_url_inj)
  show "slash \<notin> set l \<Longrightarrow> blob view ?d v' l = blob view ?d v l"
    using blob_other_ns [OF assms(1,6) _ v'] by simp
qed

lemma copy_one_step:
  assumes "snapshot_pair h" and "snapshot_keys env h K" and "snd e \<in> K"
    and "coherent view mv (sh_devCache h) x \<and> (\<forall>k \<in> K. blob view (sh_devCache h) x k = blob view (sh_devCache h) w k)"
    and "copy_one env h e x = (Ok (), x')"
  shows "(coherent view mv (sh_devCache h) x' \<and> (\<forall>k \<in> K. blob view (sh_devCache h) x' k = blob view (sh_devCache h) w k)) \<and>
    blob view (sh_submissionCache h) x' = (blob view (sh_submissionCache h) x)(snd e := blob view (sh_devCache h) w (snd e)) \<and>
    blob view (sh_devCache h) w (snd e) \<noteq> None"
proof -
  have K: "key_ok env (sh_devCache h) (snd e)" "key_ok env (sh_submissionCache h) (snd e)" "slash \<notin> set (snd e)"
    using assms(2,3) by (auto simp: snapshot_keys_def)
  have d: "blob view (sh_devCache h) x (snd e) = blob view (sh_devCache h) w (snd e)" using assms(3,4) by blast
  note c = copy_one_Ok [OF assms(1,5) conjunct1 [OF assms(4)] K]
  have "blob view (sh_devCache h) x' k = blob view (sh_devCache h) w k" if k: "k \<in> K" for k
  proof -
    have "slash \<notin> set k" using k assms(2) by (auto simp: snapshot_keys_def)
    then show ?thesis using c(4) assms(4) k by simp
  qed
  then show ?thesis using c(1) c(2,3) [unfolded d] by blast
qed

lemma copyFiles_Ok:
  assumes "snapshot_pair h" and "range_law env" and "db_ok w" and "coherent view mv (sh_devCache h) w"
    and "snapshot_keys env h K" and "ran (app_files (sh_appID h) w) \<subseteq> K" and "copyFiles env h w = (Ok (), w')"
  shows "coherent view mv (sh_devCache h) w'"
    and "\<forall>k \<in> ran (app_files (sh_appID h) w). blob view (sh_submissionCache h) w' k = blob view (sh_devCache h) w k \<and>
      blob view (sh_devCache h) w k \<noteq> None"
    and "\<forall>k \<in> K. blob view (sh_devCache h) w' k = blob view (sh_devCache h) w k"
proof -
  let ?d = "sh_devCache h" and ?s = "sh_submissionCache h"
  let ?I = "\<lambda>v. coherent view mv ?d v \<and> (\<forall>k \<in> K. blob view ?d v k = blob view ?d w k)"
  obtain files v where g: "GetFiles env (sh_appID h) [] w = (Ok files, v)"
    and l: "for_each (copy_one env h) (map_range env files) v = (Ok (), w')"
    using assms(7) by (auto simp: copyFiles_def on_eq_Ok)
  have gl: "map_of files = app_files (sh_appID h) w" "gm_ok files"
    using dev_files.get_law [OF assms(3) g] by auto
  have "w_s3 v = w_s3 w" "w_mc v = w_mc w"
    using db_frameD(1,2) [OF conjunct1 [OF GetFiles_frame [of w env "sh_appID h" "[]"]]] g by auto
  then have same: "coherent view mv ?d v = coherent view mv ?d w" "blob view c v = blob view c w" for c
    by (simp_all add: coherent_def blob_def fun_eq_iff)
  have I0: "?I v" using assms(4) same by simp
  have ran: "snd ` set files = ran (app_files (sh_appID h) w)"
    using ran_distinct [OF gl(2)] gl(1) by simp
  have step: "?I x' \<and> blob view ?s x' = (blob view ?s x)(snd e := blob view ?d w (snd e)) \<and> blob view ?d w (snd e) \<noteq> None"
    if "e \<in> set (map_range env files)" "?I x" "copy_one env h e x = (Ok (), x')" for e x x'
  proof -
    have "snd e \<in> K" using that(1) range_set [OF assms(2), of files] ran assms(6) by blast
    from copy_one_step [OF assms(1,5) this that(2,3)] show ?thesis .
  qed
  have fold: "?I w' \<and> blob view ?s w' = fold (\<lambda>e m. m(snd e := blob view ?d w (snd e))) (map_range env files) (blob view ?s v)"
  proof (rule for_each_fold [where I = ?I and obs = "blob view ?s", OF l I0])
    fix e x x' assume "e \<in> set (map_range env files)" "?I x" "copy_one env h e x = (Ok (), x')"
    from step [OF this]
    show "?I x' \<and> blob view ?s x' = (blob view ?s x)(snd e := blob view ?d w (snd e))" by blast
  qed
  then show "coherent view mv ?d w'" "\<forall>k \<in> K. blob view ?d w' k = blob view ?d w k" by auto
  have "\<forall>e \<in> set (map_range env files). blob view ?d w (snd e) \<noteq> None"
  proof (rule for_each_all [where I = ?I, OF l I0])
    fix e x x' assume "e \<in> set (map_range env files)" "?I x" "copy_one env h e x = (Ok (), x')"
    from step [OF this] show "?I x' \<and> blob view ?d w (snd e) \<noteq> None" by blast
  qed
  then show "\<forall>k \<in> ran (app_files (sh_appID h) w). blob view ?s w' k = blob view ?d w k \<and> blob view ?d w k \<noteq> None"
    using fold unfolding ran [symmetric] fold_upd_from [where g = snd and f = "blob view ?d w"] range_set [OF assms(2)]
    by auto
qed

section \<open>The rest of the handler\<close>

lemma sh_loadMetaData_same:
  assumes "\<And>k. GetFile env (sh_appID h) [] MetadataName v = (Ok k, snd (GetFile env (sh_appID h) [] MetadataName v)) \<Longrightarrow>
      key_ok env (sh_submissionCache h) k"
    and "same_store view mv (sh_submissionCache h) w v"
  shows "same_store view mv (sh_submissionCache h) w (snd (sh_loadMetaData env h v))"
proof -
  let ?Q = "same_store view mv (sh_submissionCache h) w"
  have g: "?Q (snd (GetFile env (sh_appID h) [] MetadataName v))"
    using same_store_cong [OF db_frameD(1,2) [OF conjunct1 [OF GetFile_frame [of v env "sh_appID h" "[]" MetadataName]]]] assms(2)
    by simp
  show ?thesis
    unfolding sh_loadMetaData_def
  proof (rule on_keeps [where Q = ?Q, OF g])
    fix k u assume k: "GetFile env (sh_appID h) [] MetadataName v = (Ok k, u)" and u: "?Q u"
    have "?Q (snd (Cache_Get env (sh_submissionCache h) k u))" by (rule Cache_Get_same [OF assms(1) u]) (simp add: k)
    then show "?Q (snd (on (Cache_Get env (sh_submissionCache h) k u) (\<lambda>e w. (Fail sh_load_error, w)) (\<lambda>b w.
       case ParseMetadata b of Inl e \<Rightarrow> (Fail e, w) | Inr m \<Rightarrow> (Ok (h\<lparr>sh_metadata := m\<rparr>), w))))"
      by (rule on_keeps [where Q = ?Q]) (simp_all split: sum.split)
  qed simp
qed

lemma MakeBundleFootersTmp_same:
  assumes "range_law env" and "NewCache env app sub v = (Ok c, v)"
    and "\<And>k. k \<in> ran (ns_map app sub (w_rows v)) \<Longrightarrow> key_ok env c k" and "sub_id_ok sub" and "db_ok v"
    and "same_store view mv c w v"
  shows "same_store view mv c w (snd (MakeBundleFootersTmp env app sub archive version v))"
proof -
  let ?Q = "same_store view mv c w"
  have keep: "?Q (Cleanup d u)" if "?Q u" for d u
    using that same_store_cong [OF fs_frameD(3,4) [OF fs_remove_frame(2) [of u d]]] by simp
  have make: "?Q (snd (MakeBundleFooters env d version u))" if "?Q u" for d u
    using that same_store_cong [OF fs_frameD(3,4) [OF MakeBundleFooters_frame [of u env d version]]] by simp
  show ?thesis
    unfolding MakeBundleFootersTmp_def assms(2) andThen_simps
  proof (rule andThen_keeps [where Q = ?Q, OF GetFiles_same [OF assms(6)]])
    fix files u assume g: "GetFiles env app sub v = (Ok files, u)" and u: "?Q u"
    have "map_of files = ns_map app sub (w_rows v)" "gm_ok files"
      using GetFiles_Ok [OF g] assms(4,5) by (auto simp: sub_id_ok_def db_ok_def)
    then have k: "key_ok env c k" if "(n, k) \<in> set files" for n k
      using that assms(3) ran_distinct [of files] by (metis image_eqI snd_conv)
    show "?Q (snd (andThen (FilesToTemp env files archive c u) (\<lambda>d w.
        on (MakeBundleFooters env d version w) (\<lambda>e w. (Fail e, Cleanup d w)) (\<lambda>f w. (Ok f, Cleanup d w)))))"
    proof (rule andThen_keeps [where Q = ?Q, OF FilesToTemp_same [OF assms(1) k u]])
      show "?Q (snd (on (MakeBundleFooters env d version x) (\<lambda>e w. (Fail e, Cleanup d w)) (\<lambda>f w. (Ok f, Cleanup d w))))"
        if "?Q x" for d x
        by (rule on_keeps [where Q = ?Q, OF make [OF that]]) (simp_all add: keep)
    qed simp
  qed
qed

text \<open>Storing the footer changes one object, which is not a file's.\<close>

lemma put_footer_blobs:
  assumes "key_ok env c key" and "put_footer env c f file key v = (Ok (), v')" and "k \<noteq> key"
  shows "blob view c v' k = blob view c v k"
proof -
  obtain ftr u where s: "SetBundleFooter env c ftr key v = (Ok (), u)" and v': "v' = CleanupFooters f u"
    using assms(2) by (auto simp: put_footer_def on_eq_Ok split: sum.splits)
  have "w_s3 v' = w_s3 u" using fs_frameD(3) [OF CleanupFooters_frame [of u f]] v' by simp
  moreover have "view (w_s3 u) = (view (w_s3 v))(object_url (c_s3 c) (prefixed c key) \<mapsto> ftr)"
    using Cache_Set_view(1) [OF assms(1), of ftr v "Ok ()" u] s by (auto simp: SetBundleFooter_def)
  ultimately show ?thesis using assms(3) by (simp add: blob_def object_url_inj)
qed

lemma makeBundleFooter_blobs:
  assumes "range_law env" and "snapshot_pair h" and "NewCache env (sh_appID h) [] v = (Ok (sh_devCache h), v)" and "db_ok v"
    and "snapshot_keys env h K" and "ran (app_files (sh_appID h) v) \<subseteq> K" and "coherent view mv (sh_devCache h) v"
    and "key_ok env (sh_submissionCache h) ''bundle-footer-ios''" "key_ok env (sh_submissionCache h) ''bundle-footer''"
    and "makeBundleFooter env h platform v = (Ok (), v')" and "\<not> prefix ''bundle-footer'' k"
  shows "blob view (sh_submissionCache h) v' k = blob view (sh_submissionCache h) v k"
proof -
  let ?s = "sh_submissionCache h" and ?d = "sh_devCache h"
  obtain f u where m: "MakeBundleFootersTmp env (sh_appID h) [] None (md_BaseVersion (sh_metadata h)) v = (Ok f, u)"
    and r: "(case f of
         None \<Rightarrow> (Panic ''invalid memory address or nil pointer dereference'', u)
       | Some f \<Rightarrow>
           if platform = ''ios'' \<and> fp_IOS f \<noteq> [] then put_footer env ?s f (fp_IOS f) (BundleFooterFile platform) u
           else if platform = ''android'' \<and> fp_Android f \<noteq> [] then put_footer env ?s f (fp_Android f) ''bundle-footer'' u
           else (Fail (Errorf ''Problem building footer for platform.''), CleanupFooters f u)) = (Ok (), v')"
    using assms(10) by (auto simp: makeBundleFooter_def andThen_eq_Ok)
  have "same_store view mv ?d v u"
    using MakeBundleFootersTmp_same [OF assms(1,3) _ _ assms(4), of v None "md_BaseVersion (sh_metadata h)"]
      assms(5-7) m by (auto simp: snapshot_keys_def same_store_def)
  then have u: "blob view ?s u k = blob view ?s v k" by (simp add: same_store_def blob_def)
  have ne: "k \<noteq> ''bundle-footer-ios''" "k \<noteq> ''bundle-footer''" using assms(11) by auto
  show ?thesis
    using r u put_footer_blobs [OF assms(8) _ ne(1)] put_footer_blobs [OF assms(9) _ ne(2)]
    by (auto simp: BundleFooterFile_def split: option.splits if_splits)
qed

text \<open>A completed submission is a snapshot.\<close>

lemma submit_steps_snapshot:
  assumes "range_law env" and "db_ok w" and "newSubmitHandler env app sub w0 = (Ok h, w0')"
    and "coherent view mv (sh_devCache h) w" and "id_ok app" and "id_ok sub"
    and "\<forall>k \<in> ran (app_files app w). id_ok k \<and> \<not> prefix ''bundle-footer'' k"
    and "ns_map app sub (w_rows w) = Map.empty" and "submit_steps env h r w = (Ok (), w')"
  shows "ns_map app sub (w_rows w') = app_files app w"
    and "other_rows app sub (w_rows w') = other_rows app sub (w_rows w)"
    and "\<forall>k \<in> ran (app_files app w). blob view (sh_submissionCache h) w' k = blob view (sh_devCache h) w k \<and>
      blob view (sh_devCache h) w k \<noteq> None"
proof -
  let ?K = "ran (app_files app w)"
  note h = newSubmitHandler_h [OF assms(3)]
  have pair: "snapshot_pair h" and keys: "snapshot_keys env h ?K"
    and fk: "key_ok env (sh_submissionCache h) ''bundle-footer-ios''" "key_ok env (sh_submissionCache h) ''bundle-footer''"
    using newSubmitHandler_keys [OF assms(3,5,6)] assms(7) by (auto simp: snapshot_keys_def id_ok_def)
  obtain w1 h1 w2 w3 where 1: "copyFiles env h w = (Ok (), w1)" and 2: "sh_loadMetaData env h w1 = (Ok h1, w2)"
    and 3: "makeBundleFooter env h1 (if PostFormValue r ''platform'' = [] then ''ios'' else PostFormValue r ''platform'') w2 = (Ok (), w3)"
    and 4: "MakeSnapshot env (sh_appID h1) (sh_submissionID h1) w3 = (Ok (), w')"
    and h1: "h1 = h\<lparr>sh_metadata := sh_metadata h1\<rparr>" and q: "quiet w w1" "quiet w1 w2" "quiet w2 w3"
    using submit_steps_Ok [OF assms(9)] by blast
  have h1f: "sh_appID h1 = app" "sh_submissionID h1 = sub" "sh_devCache h1 = sh_devCache h" "sh_submissionCache h1 = sh_submissionCache h"
    using h by (subst h1; simp)+
  have q2: "quiet w w2" and q3: "quiet w w3" using q quiet_trans by blast+
  have rows: "w_rows w1 = w_rows w" "w_rows w2 = w_rows w" "w_rows w3 = w_rows w"
    using q(1) q2 q3 by (simp_all add: quiet_def)
  have db: "db_ok w1" "db_ok w2" "db_ok w3" using quiet_db_ok assms(2) q(1) q2 q3 by blast+
  note c = copyFiles_Ok [OF pair assms(1,2,4) keys _ 1]
  have ss: "same_store view mv (sh_submissionCache h) w1 w1"
    using c(1) pair h(1) by (simp add: same_store_def coherent_def snapshot_pair_def)
  have meta: "key_ok env (sh_submissionCache h) k"
    if "GetFile env (sh_appID h) [] MetadataName w1 = (Ok k, snd (GetFile env (sh_appID h) [] MetadataName w1))" for k
  proof -
    have "app_files app w1 MetadataName = Some k"
      using GetFile_Ok [OF that] db(1) h(1) by (auto simp: db_ok_def MetadataName_def like_plain_def)
    then have "k \<in> ?K" using rows(1) by (auto simp: ran_def)
    then show ?thesis using keys by (auto simp: snapshot_keys_def)
  qed
  have s2: "same_store view mv (sh_submissionCache h) w1 w2"
    using sh_loadMetaData_same [OF meta ss] 2 by simp
  then have co2: "coherent view mv (sh_devCache h1) w2" and b2: "blob view (sh_submissionCache h) w2 = blob view (sh_submissionCache h) w1"
    using pair h1f by (auto simp: same_store_def coherent_def snapshot_pair_def blob_def fun_eq_iff)
  have b3: "blob view (sh_submissionCache h) w3 k = blob view (sh_submissionCache h) w2 k" if "k \<in> ?K" for k
    using makeBundleFooter_blobs [OF assms(1) _ _ db(2) _ _ co2 _ _ 3, of ?K k] that pair keys fk h h1f rows assms(7)
    by (auto simp: snapshot_pair_def snapshot_keys_def)
  have fr: "db_frame w3 w'" "other_rows app sub (w_rows w') = other_rows app sub (w_rows w3)"
    using MakeSnapshot_frame [of w3 env app sub] 4 h1f by simp_all
  have b4: "blob view (sh_submissionCache h) w' = blob view (sh_submissionCache h) w3"
    using db_frameD(1) [OF fr(1)] by (simp add: blob_def fun_eq_iff)
  show "ns_map app sub (w_rows w') = app_files app w"
    using MakeSnapshot_table(2) [OF assms(1) db(3) newSubmitHandler_sub [OF assms(6)]] 4 h1f rows assms(8) by simp
  show "other_rows app sub (w_rows w') = other_rows app sub (w_rows w)" using fr(2) rows by simp
  show "\<forall>k \<in> ?K. blob view (sh_submissionCache h) w' k = blob view (sh_devCache h) w k \<and> blob view (sh_devCache h) w k \<noteq> None"
    using c(2) b2 b3 b4 h(1) by auto
qed

end

section \<open>The checks\<close>

text \<open>The two existence queries look at the rows and change nothing.\<close>

lemma resourceExists_frame:
  assumes "resourceExists col v w = (x, w')"
  shows "w' = w\<lparr>w_dbq := w_dbq w'\<rparr>" and "x = Ok b \<Longrightarrow> b = (\<exists>r \<in> set (w_rows w). column_is col v r)"
proof -
  obtain q u where q: "db_next w = (q, u)" by (cases "db_next w")
  have u: "u = w\<lparr>w_dbq := tl (w_dbq w)\<rparr>" by (rule db_next_fields [OF q])
  have "w' = u" using assms q by (auto simp: resourceExists_def split: db_outcome.splits nat.splits)
  then show "w' = w\<lparr>w_dbq := w_dbq w'\<rparr>" using u by simp
  show "x = Ok b \<Longrightarrow> b = (\<exists>r \<in> set (w_rows w). column_is col v r)"
    using assms q u by (auto simp: resourceExists_def filter_empty_conv split: db_outcome.splits nat.splits)
qed

text \<open>A refused submission: the answer is the only effect.\<close>

definition answered :: "('s, 'm) world \<Rightarrow> ('s, 'm) world \<Rightarrow> bool" where
  "answered w w' \<longleftrightarrow> w' = w\<lparr>w_dbq := w_dbq w', w_rsp := w_rsp w'\<rparr>"

lemma answered_http_Error: "v = w\<lparr>w_dbq := q\<rparr> \<Longrightarrow> answered w (http_Error m c v)"
  by (simp add: answered_def http_Error_def http_write_def set_ctype_def Let_def)

lemma Submit_cases:
  assumes "ctx_get r AppIDKey w = Some app" and "sub = PostFormValue r ''submission_id''"
  obtains "answered w (snd (Submit env r w))"
  | h v where "Submit env r w = submit_handle env h r v" and "newSubmitHandler env app sub v = (Ok h, v)" and "v = w\<lparr>w_dbq := w_dbq v\<rparr>"
      and "app \<noteq> []" and "sub \<noteq> []" and "\<forall>x \<in> set (w_rows w). r_sub x \<noteq> Some sub" and "\<exists>x \<in> set (w_rows w). r_app x = app"
      and "ctx_get r SubmissionIDKey w = Some sub"
proof (cases "app = [] \<or> sub = []")
  case True
  then have "snd (Submit env r w) = http_Error ''App ID and submission ID are required.'' 400 w"
    using assms by (auto simp: Submit_def ctx_string_def Let_def)
  then show ?thesis using that(1) answered_http_Error [where v = w and w = w and q = "w_dbq w"] by simp
next
  case False
  obtain x1 w1 where 1: "SubmissionExists sub w = (x1, w1)" by (cases "SubmissionExists sub w")
  note f1 = resourceExists_frame [OF 1 [unfolded SubmissionExists_def]]
  obtain x2 w2 where 2: "AppExists app w1 = (x2, w2)" by (cases "AppExists app w1")
  note f2 = resourceExists_frame [OF 2 [unfolded AppExists_def]]
  have w2: "w2 = w\<lparr>w_dbq := w_dbq w2\<rparr>" and rows: "w_rows w1 = w_rows w" by (subst f2(1), subst f1(1), simp) (subst f1(1), simp)
  obtain h where h: "newSubmitHandler env app sub w2 = (Ok h, w2)"
    using S3Wrapper_Open_Inr [of env] by (auto simp: newSubmitHandler_def NewCache_def)
  have ctx: "ctx_get r SubmissionIDKey w2 = ctx_get r SubmissionIDKey w" by (subst w2) (simp add: ctx_get_def)
  have run: "Submit env r w =
     on (x1, w1) (\<lambda>e w. (Ok (), http_Error ''Internal error.'' 500 w)) (\<lambda>exists w.
     if exists then (Ok (), http_Error ''Submission ID already exists.'' 400 w)
     else
     on (AppExists app w) (\<lambda>e w. (Ok (), http_Error ''Internal error.'' 500 w)) (\<lambda>exists w.
     if \<not> exists then (Ok (), http_Error ''App ID does not exist.'' 400 w)
     else if ctx_get r SubmissionIDKey w \<noteq> Some sub then (Ok (), http_Error ''Submission ID does not match the handshake.'' 400 w)
     else on (newSubmitHandler env app sub w) (\<lambda>e w. (Ok (), http_Error ''Internal error.'' 500 w)) (\<lambda>h w. submit_handle env h r w)))"
    using False assms(1) 1 by (simp add: Submit_def ctx_string_def Let_def assms(2) [symmetric])
  show ?thesis
  proof (cases "x1 = Ok False \<and> x2 = Ok True \<and> ctx_get r SubmissionIDKey w = Some sub")
    case True
    then have "Submit env r w = submit_handle env h r w2" using run 2 h ctx by simp
    moreover have "\<forall>x \<in> set (w_rows w). r_sub x \<noteq> Some sub" "\<exists>x \<in> set (w_rows w). r_app x = app"
      using f1(2) [of False] f2(2) [of True] True rows by auto
    ultimately show ?thesis using that(2) [OF _ h w2] True False by blast
  next
    case False
    have ne: "x1 \<noteq> Panic p" "x2 \<noteq> Panic p" for p
      using 1 2 by (auto simp: SubmissionExists_def AppExists_def resourceExists_def split: prod.splits db_outcome.splits nat.splits)
    have "answered w (snd (Submit env r w))"
      using False ne 2 ctx answered_http_Error [OF f1(1)] answered_http_Error [OF w2] unfolding run
      by (cases x1; cases x2) (auto split: if_splits)
    then show ?thesis by (rule that(1))
  qed
qed

lemma submit_handle_other:
  "other_rows (sh_appID h) (sh_submissionID h) (w_rows (snd (submit_handle env h r w))) =
   other_rows (sh_appID h) (sh_submissionID h) (w_rows w)"
proof -
  let ?Q = "\<lambda>v :: ('a, 'b) world. other_rows (sh_appID h) (sh_submissionID h) (w_rows v) = other_rows (sh_appID h) (sh_submissionID h) (w_rows w)"
  have q: "?Q v" if "quiet u v" "?Q u" for u v using that by (simp add: quiet_def)
  have ids: "sh_appID h1 = sh_appID h \<and> sh_submissionID h1 = sh_submissionID h" if "sh_loadMetaData env h u = (Ok h1, v)" for h1 u v
    using that unfolding sh_loadMetaData_def on_eq_Ok sum_Ok by auto
  have "?Q (snd (submit_steps env h r w))"
    unfolding submit_steps_def Let_def
  proof (rule andThen_keeps [where Q = ?Q, OF q [OF copyFiles_quiet refl]], goal_cases)
    case (1 _ u)
    show ?case
    proof (rule andThen_keeps [where Q = ?Q, OF q [OF sh_loadMetaData_quiet 1(2)]], goal_cases)
      case (1 h1 v)
      show ?case
      proof (rule andThen_keeps [where Q = ?Q, OF q [OF makeBundleFooter_quiet 1(2)]], goal_cases)
        case (1 _ x)
        then show ?case using MakeSnapshot_frame [of x env "sh_appID h" "sh_submissionID h"] ids [OF \<open>sh_loadMetaData env h u = (Ok h1, v)\<close>] by simp
      qed
    qed
  qed
  then show ?thesis unfolding submit_handle_def by (intro on_keeps [where Q = ?Q]) (simp_all add: sh_internalError_def)
qed

lemma answered_rows: "answered w v \<Longrightarrow> w_rows v = w_rows w \<and> w_s3 v = w_s3 w \<and> w_mc v = w_mc w \<and> w_fs v = w_fs w"
  by (cases w; cases v) (simp add: answered_def)

lemma dbq_rows: "v = w\<lparr>w_dbq := q\<rparr> \<Longrightarrow> w_rows v = w_rows w"
  by simp

lemma Submit_other:
  assumes "ctx_get r AppIDKey w = Some app" and "sub = PostFormValue r ''submission_id''"
  shows "other_rows app sub (w_rows (snd (Submit env r w))) = other_rows app sub (w_rows w)"
proof (rule Submit_cases [OF assms, of env])
  assume "answered w (snd (Submit env r w))"
  then show ?thesis by (simp add: answered_rows)
next
  fix h v assume run: "Submit env r w = submit_handle env h r v" and h: "newSubmitHandler env app sub v = (Ok h, v)"
    and v: "v = w\<lparr>w_dbq := w_dbq v\<rparr>"
  show ?thesis
    using submit_handle_other [of h env r v] newSubmitHandler_h(1,2) [OF h] dbq_rows [OF v] by (simp add: run)
qed

text \<open>A submission that has rows is never changed again.\<close>

lemma Submit_immutable:
  assumes "ctx_get r AppIDKey w = Some app" and "x \<in> set (w_rows w)" and "r_sub x = Some (PostFormValue r ''submission_id'')"
  shows "answered w (snd (Submit env r w))"
  by (rule Submit_cases [OF assms(1) refl, of env]) (use assms in auto)

lemma Submit_mismatch:
  assumes "ctx_get r AppIDKey w = Some app" and "ctx_get r SubmissionIDKey w \<noteq> Some (PostFormValue r ''submission_id'')"
  shows "answered w (snd (Submit env r w))"
  by (rule Submit_cases [OF assms(1) refl, of env]) (use assms in auto)

end
