(* ===== verification/Pull_Correct.thy ===== *)
theory Pull_Correct
  imports Pull Submit_Correct
begin

text \<open>
  What a pull does: it leaves the file system, the rows and the objects exactly as it found them; the assets
  it puts in the archive are those the client lacks, with the content the store has for them.
\<close>

section \<open>Names of assets\<close>

lemma gm_fold_subset: "set (fold (\<lambda>(k, v). gm_set k v) kvs m) \<subseteq> set kvs \<union> set m"
  by (induction kvs arbitrary: m) (fastforce dest: set_gm_set)+

lemma split_on_append_plain:
  "c \<notin> set p \<Longrightarrow> split_on c (a @ p) = butlast (split_on c a) @ [last (split_on c a) @ p]"
proof (induction a)
  case (Cons x a)
  obtain y ys where y: "split_on c a = y # ys" by (meson list.exhaust split_on_ne)
  show ?case using Cons y by (cases ys) auto
qed (simp add: split_on_unsplit)

lemma asset_suffix:
  assumes "l \<in> set assetsLike" and "sql_like l n"
  shows "\<exists>p. suffix p n \<and> slash \<notin> set p \<and> 2 < length p"
proof -
  have "\<exists>p. l = CHR ''%'' # p \<and> like_plain p \<and> slash \<notin> set p \<and> 2 < length p"
    using assms(1) by (auto simp: assetsLike_def like_plain_def)
  then show ?thesis using assms(2) sql_like_suffix by blast
qed

text \<open>The name of a stored asset that has no \<^verbatim>\<open>../\<close> in it has no \<^verbatim>\<open>..\<close> component at all.\<close>

lemma asset_comps:
  assumes "\<exists>l \<in> set assetsLike. sql_like l n" and "\<not> sublist ''../'' n"
  shows "''..'' \<notin> set (comps n)"
proof -
  obtain p where p: "suffix p n" "slash \<notin> set p" "2 < length p" using asset_suffix assms(1) by blast
  then obtain a where "n = a @ p" by (auto simp: suffix_def)
  then have "length (last (split_on slash n)) > 2" using split_on_append_plain [OF p(2), of a] p(3) by simp
  then have "last (split_on slash n) \<noteq> ''..''" by auto
  moreover have "''..'' \<notin> set (butlast (split_on slash n))" by (rule no_updir_butlast [OF assms(2)])
  ultimately have "''..'' \<notin> set (split_on slash n)"
    by (metis append_butlast_last_id in_set_conv_decomp set_ConsD split_on_ne Un_iff set_append empty_iff list.set(1))
  then show ?thesis by (auto simp: comps_def)
qed

lemma images_comps:
  assumes "''..'' \<notin> set (comps n)"
  shows "comps (path_Join [''images'', n]) = ''images'' # comps n"
proof -
  have i: "comps (''images'' @ slash # n) = ''images'' # comps n"
    using comps_append_slash [of "''images''" n] by (simp add: comps_def)
  have "\<not> rooted (''images'' @ slash # n)" by (simp add: rooted_def)
  then show ?thesis
    using assms i by (simp add: path_Join_def comps_Clean elim_dotdot_id)
qed

text \<open>Where an asset is written.\<close>

definition asset_path :: "pullArchive \<Rightarrow> string \<Rightarrow> path" where
  "asset_path a n = comps (pa_tempDir a) @ [assetsDir, ''images''] @ comps n"

lemma asset_path_comps:
  assumes "plain_dir (pa_tempDir a)" and "''..'' \<notin> set (comps n)"
  shows "comps (path_Join [pa_tempDir a, assetsDir, path_Join [''images'', n]]) = asset_path a n"
    and "''..'' \<notin> set (asset_path a n)"
proof -
  have d: "rooted (pa_tempDir a)" "''..'' \<notin> set (comps (pa_tempDir a))" using assms(1) by (auto simp: plain_dir_def)
  have "comps assetsDir = [assetsDir]" by (simp add: assetsDir_def comps_def)
  moreover have "assetsDir \<noteq> ''..''" by (simp add: assetsDir_def)
  ultimately show "comps (path_Join [pa_tempDir a, assetsDir, path_Join [''images'', n]]) = asset_path a n"
    and "''..'' \<notin> set (asset_path a n)"
    using d assms(2) by (simp_all add: comps_path_Join3 images_comps elim_dotdot_id asset_path_def)
qed

section \<open>The file system\<close>

text \<open>Removing a temporary directory in which only files and directories were made restores what was there.\<close>

lemma RemoveAll_restores:
  assumes "temp_law env" and "temp_name env pre fs = Inr d" and "confined (comps d) (fs(comps d \<mapsto> NDir)) fs'"
  shows "os_RemoveAll fs' d = fs"
proof -
  have t: "plain_dir d" "comps d \<noteq> []" "\<And>q. prefix (comps d) q \<Longrightarrow> fs q = None" "dir_chain fs (butlast (comps d))"
    using assms(1,2) unfolding temp_law_def by blast+
  have nd: "''..'' \<notin> set (butlast (comps d))" using t(1) by (auto simp: plain_dir_def dest: in_set_butlastD)
  have out: "fs' q = fs q" if "\<not> prefix (comps d) q" for q
    using confined_outside [OF assms(3), of q] that by (auto simp: strict_prefix_def)
  have up: "\<not> prefix (comps d) q" if "prefix q (butlast (comps d))" for q
    using that t(2) prefix_length_le by (metis diff_less le_trans length_0_conv length_butlast length_greater_0_conv not_less zero_less_one)
  have ch: "fs' ([] @ q) = Some NDir" if "prefix q (butlast (comps d))" "q \<noteq> []" for q
    using t(4) that out up by (auto simp: dir_chain_def)
  have "walk max_links fs' [] (butlast (comps d) @ []) = walk max_links fs' ([] @ butlast (comps d)) []"
    by (rule walk_dirs) (use ch nd in auto)
  moreover have "node_at fs' (butlast (comps d)) = Some NDir"
    using ch [of "butlast (comps d)"] by (auto simp: node_at_def)
  ultimately have "resolve_entry fs' d = Inr (comps d)"
    using t(2) rooted_ne t(1) by (auto simp: resolve_entry_def plain_dir_def)
  then have "os_RemoveAll fs' d = (\<lambda>r. if prefix (comps d) r then None else fs' r)"
    by (simp add: os_RemoveAll_def)
  also have "\<dots> = fs" using out t(3) by (auto simp: fun_eq_iff)
  finally show ?thesis .
qed

lemma top_file_comps:
  assumes "plain_dir d" and "is_comp n" and "n \<noteq> ''..''"
  shows "comps (path_Join [d, n]) = comps d @ [n]"
  using path_Join_below [OF assms(1), of n] assms(2,3) by (simp add: comps_single)

text \<open>The invariant of the handler: only the temporary directory has changed.\<close>

definition pull_work :: "pullArchive \<Rightarrow> ('s, 'm) world \<Rightarrow> ('s, 'm) world \<Rightarrow> bool" where
  "pull_work a w v \<longleftrightarrow> confined (comps (pa_tempDir a)) (w_fs w) (w_fs v) \<and> w_rows v = w_rows w"

lemma pull_work_trans: "pull_work a u v \<Longrightarrow> pull_work a v w \<Longrightarrow> pull_work a u w"
  using confined_trans by (auto simp: pull_work_def)

lemma pull_work_same: "w_fs v' = w_fs v \<Longrightarrow> w_rows v' = w_rows v \<Longrightarrow> pull_work a w v \<Longrightarrow> pull_work a w v'"
  by (simp add: pull_work_def)

lemma pull_work_clear:
  "pull_work a w v \<Longrightarrow> clear_below (w_fs w) (comps (pa_tempDir a)) \<Longrightarrow> clear_below (w_fs v) (comps (pa_tempDir a))"
  using confined_clear by (auto simp: pull_work_def)

lemma write_top_work:
  assumes "plain_dir (pa_tempDir a)" and "clear_below (w_fs w) (comps (pa_tempDir a))" and "is_comp n" and "n \<noteq> ''..''"
    and "os_WriteFile (w_fs w) (path_Join [pa_tempDir a, n]) b = Inr fs"
  shows "pull_work a w (w\<lparr>w_fs := fs\<rparr>)"
proof -
  note c = top_file_comps [OF assms(1,3,4)]
  have "''..'' \<notin> set (comps (path_Join [pa_tempDir a, n]))" using c assms(1,4) by (auto simp: plain_dir_def)
  then show ?thesis
    using conjunct1 [OF os_WriteFile_confined [OF assms(2) c _ assms(5)]] by (simp add: pull_work_def)
qed

lemma Cache_Get_work: "pull_work a w v \<Longrightarrow> pull_work a w (snd (Cache_Get env c k v))"
  by (rule pull_work_same [OF store_frameD(3,1) [OF Cache_Get_frame]])

lemma put_asset_work:
  assumes "plain_dir (pa_tempDir a)" and "clear_below (w_fs w) (comps (pa_tempDir a))" and "''..'' \<notin> set (comps p)"
    and "prefix (comps (pa_tempDir a)) (comps p)" and "put_asset p b w = (r, w')"
  shows "pull_work a w w'" and "r = Ok () \<Longrightarrow> w_fs w' (comps p) = Some (NFile b)"
proof -
  let ?d = "comps (pa_tempDir a)"
  obtain x fs where m: "os_MkdirAll (w_fs w) (path_Dir p) = (x, fs)" by (cases "os_MkdirAll (w_fs w) (path_Dir p)")
  have pd: "prefix (comps (path_Dir p)) (comps p)" by (rule path_Dir_prefix(1) [OF assms(3)])
  have "prefix (comps (path_Dir p)) ?d \<or> prefix ?d (comps (path_Dir p))" by (meson pd assms(4) prefix_same_cases)
  moreover have "''..'' \<notin> set (comps (path_Dir p))" using pd assms(3) by (meson set_mono_prefix subsetD)
  ultimately have mk: "confined ?d (w_fs w) fs"
    using os_MkdirAll_confined [OF assms(2) _ _ _ m] assms(1) by (auto simp: plain_dir_def)
  obtain cs where cs: "comps p = ?d @ cs" using assms(4) by (auto simp: prefix_def)
  have wr: "confined ?d fs fs' \<and> fs' (comps p) = Some (NFile b)" if "os_WriteFile fs p b = Inr fs'" for fs'
    using os_WriteFile_confined [OF confined_clear [OF mk assms(2)] cs assms(3) that] unfolding cs by blast
  show "pull_work a w w'"
    using assms(5) mk wr confined_trans [OF mk] by (auto simp: put_asset_def m pull_work_def split: option.splits sum.splits)
  show "r = Ok () \<Longrightarrow> w_fs w' (comps p) = Some (NFile b)"
    using assms(5) wr by (auto simp: put_asset_def m split: option.splits sum.splits)
qed

lemma write_asset_work:
  assumes "plain_dir (pa_tempDir a)" and "clear_below (w_fs w) (comps (pa_tempDir a))" and "''..'' \<notin> set (comps (fst e))"
    and "pull_work a w v"
  shows "pull_work a w (snd (write_asset env a assetHashes e v))"
proof -
  let ?p = "path_Join [pa_tempDir a, assetsDir, path_Join [''images'', fst e]]"
  note c = asset_path_comps [OF assms(1,3)]
  have p: "''..'' \<notin> set (comps ?p)" "prefix (comps (pa_tempDir a)) (comps ?p)" using c by (simp_all add: asset_path_def)
  have one: "pull_work a w (snd (put_asset ?p b u))" if u: "pull_work a w u" for b u
    using put_asset_work(1) [OF assms(1) pull_work_clear [OF u assms(2)] p, of b "fst (put_asset ?p b u)" "snd (put_asset ?p b u)"]
      pull_work_trans [OF u] by simp
  show ?thesis
  proof (cases "map_of assetHashes (path_Join [''images'', fst e]) = Some (snd e)")
    case False
    then have "write_asset env a assetHashes e v = andThen (Cache_Get env (pa_cache a) (snd e) v) (\<lambda>b w. put_asset ?p b w)"
      by (simp add: write_asset_def case_prod_unfold)
    moreover have "pull_work a w (snd (andThen (Cache_Get env (pa_cache a) (snd e) v) (\<lambda>b w. put_asset ?p b w)))"
      by (rule andThen_keeps [where Q = "pull_work a w"]) (simp_all add: Cache_Get_work assms(4) one)
    ultimately show ?thesis by simp
  qed (simp add: write_asset_def case_prod_unfold assms(4))
qed

lemma writeAssets_work:
  assumes "range_law env" and "plain_dir (pa_tempDir a)" and "clear_below (w_fs w) (comps (pa_tempDir a))"
    and "\<And>n. n \<in> fst ` set (pa_assetFiles a) \<Longrightarrow> ''..'' \<notin> set (comps n)" and "pull_work a w v"
  shows "pull_work a w (snd (writeAssets env a assetHashes v))"
  unfolding writeAssets_def
proof (rule for_each_keeps [where Q = "pull_work a w", OF _ assms(5)])
  fix e v assume "e \<in> set (map_range env (pa_assetFiles a))" and "pull_work a w v"
  then show "pull_work a w (snd (write_asset env a assetHashes e v))"
    by (intro write_asset_work assms) (simp_all add: range_set [OF assms(1)])
qed

lemma listing_name: "is_comp assetsListingFile" "assetsListingFile \<noteq> ''..''" "is_comp ''bundle-footer''"
  by (simp_all add: assetsListingFile_def is_comp_def)

lemma writeAssetsListing_work:
  assumes "plain_dir (pa_tempDir a)" and "clear_below (w_fs w) (comps (pa_tempDir a))" and "pull_work a w v"
  shows "pull_work a w (snd (writeAssetsListing env a v))"
  using write_top_work [OF assms(1) pull_work_clear [OF assms(3,2)] listing_name(1,2)] pull_work_trans [OF assms(3)] assms(3)
  by (auto simp: writeAssetsListing_def Let_def split: sum.split)

lemma writeBundleFooter_work:
  assumes "plain_dir (pa_tempDir a)" and "clear_below (w_fs w) (comps (pa_tempDir a))" and "pull_work a w v"
  shows "pull_work a w (snd (writeBundleFooter env a platform v))"
proof -
  have wr: "pull_work a w (snd (case os_WriteFile (w_fs u) (path_Join [pa_tempDir a, ''bundle-footer'']) b of
         Inl e \<Rightarrow> (Fail (fs_error e), u) | Inr fs \<Rightarrow> (Ok (), u\<lparr>w_fs := fs\<rparr>)))" if u: "pull_work a w u" for b u
    using write_top_work [OF assms(1) pull_work_clear [OF u assms(2)] listing_name(3), of b] pull_work_trans [OF u] u
    by (auto split: sum.split)
  show ?thesis
    unfolding writeBundleFooter_def GetBundleFooter_def
    by (intro andThen_keeps [where Q = "pull_work a w"] on_keeps [where Q = "pull_work a w"])
      (simp_all add: Cache_Get_work assms(3) wr)
qed

lemma select_files_scan:
  assumes "select_files env app sub ok w = (Ok f, w')" and "sub_id_ok sub"
  obtains rs where "set rs \<subseteq> {r \<in> set (w_rows w). in_ns app sub r \<and> ok (r_name r)}" and "f = scan_rows rs"
proof -
  obtain q v where q: "db_next w = (q, v)" by (cases "db_next w")
  let ?rs = "filter (\<lambda>r. r_app r = app \<and> sub_is sub r \<and> ok (r_name r)) (w_rows w)"
  have "f = scan_rows ?rs \<or> (\<exists>n. f = scan_rows (take n ?rs))"
    using assms q sql_clause_subClause [of sub env]
    by (auto simp: select_files_def sub_id_ok_def Let_def split: db_outcome.splits)
  moreover have "set ?rs \<subseteq> {r \<in> set (w_rows w). in_ns app sub r \<and> ok (r_name r)}" by (auto simp: in_ns_def)
  moreover have "set (take n ?rs) \<subseteq> set ?rs" for n by (rule set_take_subset)
  ultimately show ?thesis using that by (metis (no_types, lifting) subset_trans)
qed

lemma getAssetFiles_Ok:
  assumes "getAssetFiles env a v = (Ok a', v')" and "sub_id_ok (pa_submissionID a)"
  shows "a' = a\<lparr>pa_assetFiles := pa_assetFiles a'\<rparr>"
    and "\<forall>e \<in> set (pa_assetFiles a'). \<exists>r \<in> set (w_rows v). in_ns (pa_appID a) (pa_submissionID a) r \<and> r_name r = fst e \<and>
      r_hash r = snd e \<and> (\<exists>l \<in> set assetsLike. sql_like l (fst e))"
proof -
  obtain f where f: "GetSliceFilteredFiles env (pa_appID a) (pa_submissionID a) assetsLike v = (Ok f, v')" and a': "a' = a\<lparr>pa_assetFiles := f\<rparr>"
    using assms(1) by (auto simp: getAssetFiles_def andThen_eq_Ok)
  show "a' = a\<lparr>pa_assetFiles := pa_assetFiles a'\<rparr>" using a' by simp
  have ne: "assetsLike \<noteq> []" by (simp add: assetsLike_def)
  obtain rs where rs: "set rs \<subseteq> {r \<in> set (w_rows v). in_ns (pa_appID a) (pa_submissionID a) r \<and> (\<exists>l \<in> set assetsLike. sql_like l (r_name r))}"
    and fs: "f = scan_rows rs"
    using select_files_scan [of env "pa_appID a" "pa_submissionID a" _ v f v'] f ne assms(2)
    by (auto simp: GetSliceFilteredFiles_def)
  have "set f \<subseteq> (\<lambda>r. (r_name r, r_hash r)) ` set rs"
    using gm_fold_subset [of "map (\<lambda>r. (r_name r, r_hash r)) rs" "[]"] by (simp add: fs scan_rows_def gm_of_def)
  then show "\<forall>e \<in> set (pa_assetFiles a'). \<exists>r \<in> set (w_rows v). in_ns (pa_appID a) (pa_submissionID a) r \<and> r_name r = fst e \<and>
      r_hash r = snd e \<and> (\<exists>l \<in> set assetsLike. sql_like l (fst e))"
    using rs a' by fastforce
qed

lemma db_work:
  "pull_work a w v \<Longrightarrow> pull_work a w (snd (assertNotEmpty env a' v))"
  "pull_work a w v \<Longrightarrow> pull_work a w (snd (getAssetFiles env a' v))"
proof -
  assume v: "pull_work a w v"
  have "pull_work a w (snd (GetFiles env app sub v))" for app sub
    using GetFiles_frame [of v env app sub] db_frameD(3) v by (intro pull_work_same [OF _ _ v]) auto
  then show "pull_work a w (snd (assertNotEmpty env a' v))"
    unfolding assertNotEmpty_def by (intro andThen_keeps [where Q = "pull_work a w"]) auto
  have "pull_work a w (snd (select_files env app sub ok v))" for app sub ok
    using select_files_frame [of v env app sub ok] db_frameD(3) v by (intro pull_work_same [OF _ _ v]) auto
  moreover have "assetsLike \<noteq> []" by (simp add: assetsLike_def)
  ultimately show "pull_work a w (snd (getAssetFiles env a' v))"
    unfolding getAssetFiles_def GetSliceFilteredFiles_def by (intro andThen_keeps [where Q = "pull_work a w"]) auto
qed

lemma response_work:
  "pull_work a w v \<Longrightarrow> pull_work a w (snd (pull_error e v))"
  "pull_work a w v \<Longrightarrow> pull_work a w (http_Error m c v)"
  "pull_work a w v \<Longrightarrow> pull_work a w (snd (writeZip env a' v))"
  by (simp_all add: pull_work_def pull_error_def writeZip_def Let_def case_prod_unfold)

text \<open>The names in the namespace of the request do not lead upwards; a push guarantees it.\<close>

definition names_safe :: "string \<Rightarrow> string \<Rightarrow> row list \<Rightarrow> bool" where
  "names_safe app sub rows \<longleftrightarrow> (\<forall>r \<in> set rows. in_ns app sub r \<longrightarrow> \<not> sublist ''../'' (r_name r))"

lemma pull_body_work:
  assumes "range_law env" and "plain_dir (pa_tempDir a)" and "clear_below (w_fs w) (comps (pa_tempDir a))"
    and "sub_id_ok (pa_submissionID a)" and "names_safe (pa_appID a) (pa_submissionID a) (w_rows w)"
  shows "pull_work a w (snd (pull_body env a assetHashes platform w))"
proof -
  let ?Q = "pull_work a w"
  have rest: "?Q (snd (on (writeAssetsListing env a' v) pull_error (\<lambda>_ w.
      on (writeAssets env a' assetHashes w) pull_error (\<lambda>_ w.
      on (writeBundleFooter env a' platform w) pull_error (\<lambda>_ w.
      on (writeZip env a' w) pull_error (\<lambda>_ w. (Ok (), w)))))))"
    if g: "getAssetFiles env a u = (Ok a', v)" and u: "?Q u" and v: "?Q v" for a' u v
  proof -
    note a' = getAssetFiles_Ok [OF g assms(4)]
    have t: "pa_tempDir a' = pa_tempDir a" by (subst a'(1)) simp
    have Q: "pull_work a' w = ?Q" by (simp add: pull_work_def t fun_eq_iff)
    have names: "''..'' \<notin> set (comps n)" if n: "n \<in> fst ` set (pa_assetFiles a')" for n
    proof -
      obtain e where e: "e \<in> set (pa_assetFiles a')" "n = fst e" using n by blast
      then obtain r where "r \<in> set (w_rows w)" "in_ns (pa_appID a) (pa_submissionID a) r" "r_name r = n"
        and "\<exists>l \<in> set assetsLike. sql_like l n"
        using a'(2) u unfolding pull_work_def by fastforce
      then show ?thesis using assms(5) unfolding names_safe_def by (intro asset_comps) blast+
    qed
    have l: "?Q (snd (writeAssetsListing env a' v))"
      using writeAssetsListing_work [of a' w v env] assms(2,3) v by (simp add: t Q)
    have s: "?Q (snd (writeAssets env a' assetHashes x))" if "?Q x" for x
      using writeAssets_work [OF assms(1), of a' w x assetHashes] names assms(2,3) that by (simp add: t Q)
    have f: "?Q (snd (writeBundleFooter env a' platform x))" if "?Q x" for x
      using writeBundleFooter_work [of a' w x env platform] assms(2,3) that by (simp add: t Q)
    show ?thesis
      by (intro on_keeps [where Q = ?Q] l s f response_work; (assumption | simp))
  qed
  have Q0: "?Q w" by (simp add: pull_work_def)
  show ?thesis
    unfolding pull_body_def
  proof (rule on_keeps [where Q = ?Q, OF db_work(1) [OF Q0]], goal_cases)
    case (1 _ u)
    show ?case by (rule on_keeps [where Q = ?Q, OF db_work(2) [OF 1(2)]], rule rest [OF _ 1(2)]) (auto intro: response_work)
  qed (auto intro: response_work)
qed

text \<open>A pull leaves the file system and the rows exactly as it found them.\<close>

lemma Pull_restores:
  assumes "range_law env" and "temp_law env" and "sub_id_ok (FormValue r ''submission_id'')"
    and "\<And>app. ctx_get r AppIDKey w = Some app \<Longrightarrow> names_safe app (FormValue r ''submission_id'') (w_rows w)"
  shows "w_fs (snd (Pull env r w)) = w_fs w \<and> w_rows (snd (Pull env r w)) = w_rows w"
proof -
  let ?sub = "FormValue r ''submission_id''"
  let ?same = "\<lambda>v. w_fs v = w_fs w \<and> w_rows v = w_rows w"
  have run: "?same (snd (on (newPullArchive env app ?sub w)
        (\<lambda>e w. (Panic ''invalid memory address or nil pointer dereference'', w))
        (\<lambda>a w. let (x, w) = pull_body env a hs platform w in (x, pa_close a w))))"
    if app: "ctx_get r AppIDKey w = Some app" for app hs platform
  proof (cases "temp_name env ''pull-archive'' (w_fs w)")
    case (Inl e)
    then show ?thesis by (simp add: newPullArchive_def TempDir_def)
  next
    case (Inr d)
    let ?w = "w\<lparr>w_fs := (w_fs w)(comps d \<mapsto> NDir)\<rparr>"
    have t: "TempDir env ''pull-archive'' w = (Ok d, ?w)" using Inr by (simp add: TempDir_def)
    note cl = TempDir_clear [OF assms(2) t]
    obtain b where b: "S3Wrapper_Open env = Inr b" using S3Wrapper_Open_Inr by blast
    then obtain a where a: "newPullArchive env app ?sub w = (Ok a, ?w)" and
      f: "pa_tempDir a = d" "pa_appID a = app" "pa_submissionID a = ?sub"
      by (simp add: newPullArchive_def t NewCache_def)
    have "pull_work a ?w (snd (pull_body env a hs platform ?w))"
      by (rule pull_body_work [OF assms(1)]) (use cl f assms(3) assms(4) [OF app] in auto)
    then have c: "confined (comps d) ((w_fs w)(comps d \<mapsto> NDir)) (w_fs (snd (pull_body env a hs platform ?w)))"
      and rows: "w_rows (snd (pull_body env a hs platform ?w)) = w_rows w"
      by (simp_all add: pull_work_def f)
    show ?thesis
      using RemoveAll_restores [OF assms(2) Inr c] rows
      by (simp add: a f pa_close_def fs_remove_def Let_def case_prod_unfold)
  qed
  show ?thesis
  proof (cases "ctx_get r AppIDKey w")
    case None
    then show ?thesis by (simp add: Pull_def ctx_string_def Let_def split: sum.split)
  next
    case (Some app)
    then show ?thesis
      using run [OF Some]
      by (cases "parseAssetHashes r"; cases "?sub \<noteq> [] \<and> ctx_get r SubmissionIDKey w \<noteq> Some ?sub")
        (simp_all add: Pull_def ctx_string_def Let_def)
  qed
qed

section \<open>What the archive holds\<close>

text \<open>Writing an asset changes nothing that exists, except the file itself.\<close>

lemma put_asset_only:
  assumes "plain_dir (pa_tempDir a)" and "clear_below (w_fs w) (comps (pa_tempDir a))" and "''..'' \<notin> set (comps p)"
    and "prefix (comps (pa_tempDir a)) (comps p)" and "put_asset p b w = (Ok (), w')" and "w_fs w q \<noteq> None" and "q \<noteq> comps p"
  shows "w_fs w' q = w_fs w q"
proof -
  let ?d = "comps (pa_tempDir a)"
  obtain fs fs' where m: "os_MkdirAll (w_fs w) (path_Dir p) = (None, fs)" and r: "os_WriteFile fs p b = Inr fs'" and w': "w' = w\<lparr>w_fs := fs'\<rparr>"
    using assms(5) by (auto simp: put_asset_def split: prod.splits option.splits sum.splits)
  have pd: "prefix (comps (path_Dir p)) (comps p)" by (rule path_Dir_prefix(1) [OF assms(3)])
  have nd: "''..'' \<notin> set (comps (path_Dir p))" using pd assms(3) by (meson set_mono_prefix subsetD)
  have dp: "prefix (comps (path_Dir p)) ?d \<or> prefix ?d (comps (path_Dir p))" by (meson pd assms(4) prefix_same_cases)
  have mk: "confined ?d (w_fs w) fs"
    using os_MkdirAll_confined [OF assms(2) dp nd _ m] assms(1) by (auto simp: plain_dir_def)
  obtain cs where cs: "comps p = ?d @ cs" using assms(4) by (auto simp: prefix_def)
  have "fs' = fs(comps p \<mapsto> NFile b)"
    using os_WriteFile_confined [OF confined_clear [OF mk assms(2)] cs assms(3) r] unfolding cs by blast
  moreover have "fs q = w_fs w q" by (rule os_MkdirAll_keeps [OF m assms(6)])
  ultimately show ?thesis using w' assms(7) by simp
qed

text \<open>An asset the client lacks, or has in another version.\<close>

definition asset_due :: "gomap \<Rightarrow> string \<times> string \<Rightarrow> bool" where
  "asset_due hs e \<longleftrightarrow> map_of hs (path_Join [''images'', fst e]) \<noteq> Some (snd e)"

lemma write_asset_cases:
  assumes "write_asset env a hs e v = (Ok (), v')"
  obtains "\<not> asset_due hs e" and "v' = v"
  | b u where "asset_due hs e" and "Cache_Get env (pa_cache a) (snd e) v = (Ok b, u)"
      and "put_asset (path_Join [pa_tempDir a, assetsDir, path_Join [''images'', fst e]]) b u = (Ok (), v')"
  using assms by (auto simp: write_asset_def asset_due_def case_prod_unfold Let_def andThen_eq_Ok split: if_splits)

context cache_backend
begin

lemma write_asset_content:
  assumes "plain_dir (pa_tempDir a)" and "clear_below (w_fs v) (comps (pa_tempDir a))" and "''..'' \<notin> set (comps (fst e))"
    and "key_ok env (pa_cache a) (snd e)" and "coherent view mv (pa_cache a) v" and "write_asset env a hs e v = (Ok (), v')"
  shows "coherent view mv (pa_cache a) v' \<and> view (w_s3 v') = view (w_s3 v) \<and>
      (asset_due hs e \<longrightarrow> (\<exists>b. blob view (pa_cache a) v (snd e) = Some b \<and> w_fs v' (asset_path a (fst e)) = Some (NFile b))) \<and>
      (\<forall>q. w_fs v q \<noteq> None \<longrightarrow> q \<noteq> asset_path a (fst e) \<longrightarrow> w_fs v' q = w_fs v q)"
  using assms(6)
proof (cases rule: write_asset_cases)
  case 1
  then show ?thesis using assms(5) by simp
next
  case (2 b u)
  let ?p = "path_Join [pa_tempDir a, assetsDir, path_Join [''images'', fst e]]"
  note c = asset_path_comps [OF assms(1,3)]
  have p: "''..'' \<notin> set (comps ?p)" "prefix (comps (pa_tempDir a)) (comps ?p)" using c by (simp_all add: asset_path_def)
  note g = Cache_Get_view [OF assms(4) 2(2) assms(5)]
  have fs: "w_fs u = w_fs v" using store_frameD(3) [OF Cache_Get_frame [of v env "pa_cache a" "snd e"]] 2(2) by simp
  have cl: "clear_below (w_fs u) (comps (pa_tempDir a))" using assms(2) fs by simp
  have "w_s3 v' = w_s3 u" "w_mc v' = w_mc u"
    using 2(3) by (auto simp: put_asset_def split: prod.splits option.splits sum.splits)
  then have "coherent view mv (pa_cache a) v'" "view (w_s3 v') = view (w_s3 v)" using g by (auto simp: coherent_def)
  moreover have "w_fs v' (asset_path a (fst e)) = Some (NFile b)" using put_asset_work(2) [OF assms(1) cl p 2(3)] c(1) by simp
  moreover have "\<forall>q. w_fs v q \<noteq> None \<longrightarrow> q \<noteq> asset_path a (fst e) \<longrightarrow> w_fs v' q = w_fs v q"
    using put_asset_only [OF assms(1) cl p 2(3)] fs c(1) by simp
  ultimately show ?thesis using g by blast
qed

lemma writeAssets_content:
  assumes "plain_dir (pa_tempDir a)" and "clear_below (w_fs v) (comps (pa_tempDir a))"
    and "\<And>e. e \<in> set es \<Longrightarrow> ''..'' \<notin> set (comps (fst e)) \<and> key_ok env (pa_cache a) (snd e)"
    and "distinct (map (\<lambda>e. comps (fst e)) es)" and "coherent view mv (pa_cache a) v"
    and "for_each (write_asset env a hs) es v = (Ok (), v')"
  shows "(\<forall>e \<in> set es. asset_due hs e \<longrightarrow>
      (\<exists>b. blob view (pa_cache a) v (snd e) = Some b \<and> w_fs v' (asset_path a (fst e)) = Some (NFile b))) \<and>
    (\<forall>q. w_fs v q \<noteq> None \<longrightarrow> q \<notin> (\<lambda>e. asset_path a (fst e)) ` set es \<longrightarrow> w_fs v' q = w_fs v q)"
  using assms
proof (induction es arbitrary: v)
  case (Cons e es)
  obtain u where 1: "write_asset env a hs e v = (Ok (), u)" and 2: "for_each (write_asset env a hs) es u = (Ok (), v')"
    using Cons.prems(6) by (auto simp: andThen_eq_Ok)
  have e: "''..'' \<notin> set (comps (fst e))" "key_ok env (pa_cache a) (snd e)" using Cons.prems(3) by auto
  from write_asset_content [OF Cons.prems(1,2) e Cons.prems(5) 1]
  have c: "coherent view mv (pa_cache a) u" "view (w_s3 u) = view (w_s3 v)"
    "asset_due hs e \<longrightarrow> (\<exists>b. blob view (pa_cache a) v (snd e) = Some b \<and> w_fs u (asset_path a (fst e)) = Some (NFile b))"
    "\<forall>q. w_fs v q \<noteq> None \<longrightarrow> q \<noteq> asset_path a (fst e) \<longrightarrow> w_fs u q = w_fs v q"
    by blast+
  have "pull_work a v u" using write_asset_work [OF Cons.prems(1,2) e(1), of v env hs] 1 by (simp add: pull_work_def)
  then have cl: "clear_below (w_fs u) (comps (pa_tempDir a))" by (rule pull_work_clear [OF _ Cons.prems(2)])
  have IH: "(\<forall>x \<in> set es. asset_due hs x \<longrightarrow>
      (\<exists>b. blob view (pa_cache a) u (snd x) = Some b \<and> w_fs v' (asset_path a (fst x)) = Some (NFile b))) \<and>
    (\<forall>q. w_fs u q \<noteq> None \<longrightarrow> q \<notin> (\<lambda>e. asset_path a (fst e)) ` set es \<longrightarrow> w_fs v' q = w_fs u q)"
    by (rule Cons.IH [OF Cons.prems(1) cl _ _ c(1) 2]) (use Cons.prems(3,4) in auto)
  have b: "blob view (pa_cache a) u = blob view (pa_cache a) v" using c(2) by (simp add: blob_def fun_eq_iff)
  have "asset_path a (fst e) \<notin> (\<lambda>e. asset_path a (fst e)) ` set es" using Cons.prems(4) by (auto simp: asset_path_def)
  then have "asset_due hs e \<Longrightarrow> \<exists>b. blob view (pa_cache a) v (snd e) = Some b \<and> w_fs v' (asset_path a (fst e)) = Some (NFile b)"
    using c(3) IH by fastforce
  moreover have "w_fs v' q = w_fs v q" if "w_fs v q \<noteq> None" "q \<notin> (\<lambda>e. asset_path a (fst e)) ` set (e # es)" for q
    using c(4) IH that by auto
  ultimately show ?case using IH b by auto
qed simp

end

end
