(* ===== verification/Claims_Store.thy ===== *)
theory Claims_Store
  imports Demo Submit_Correct Pull_Correct
begin

text \<open>
  Properties of the storage side: the object store client against the test server, the cache over both
  services, the table of files and the request contexts, each followed by an instance at a concrete input.
\<close>

section \<open>The object store\<close>

lemma object_url_bucket:
  assumes "S3Wrapper_Open env = Inr b" and "plain_key k"
  shows "url_bucket (object_url b k) = getBucketName env"
proof -
  have "slash \<notin> set (getBucketName env)"
  proof -
    have "slash \<notin> set n" if "n \<in> {''siphon-files-testing'', ''siphon-files-staging'', ''siphon-files''}" for n
      using that by auto
    then show ?thesis using getBucketName_cases by blast
  qed
  then have "takeWhile (\<lambda>c. c \<noteq> slash) (getBucketName env @ slash # k) = getBucketName env"
    by (subst takeWhile_append2) auto
  then show ?thesis by (simp add: url_bucket_def bucket_url [OF assms(1)])
qed

lemma attempts_first: "f s = (Inr a, s') \<Longrightarrow> attempts maxAttempts f prev s = (Inr a, s')"
  by (simp add: maxAttempts_def numeral_3_eq_3)

lemma WriteKey_succeeds:
  assumes "S3Wrapper_Open env = Inr b" and "plain_key k" and "http_do env = s3test_do lib" and "\<And>q. s3_sign env q = None"
    and "map_of (sv_buckets (w_s3 w)) (getBucketName env) \<noteq> None"
  shows "\<exists>s. WriteKey env b k d w = (Ok (), w\<lparr>w_s3 := s\<rparr>) \<and> s3test_view s (object_url b k) = Some d"
proof -
  let ?u = "object_url b k"
  obtain x s where x: "s3test_do lib (put_req ?u d) (w_s3 w) = (x, s)" by (cases "s3test_do lib (put_req ?u d) (w_s3 w)")
  have "(\<exists>r. x = Inr r \<and> hp_status r = 200) \<and> s3test_view s ?u = Some d"
    using s3test_put [OF plain_object_url [OF assms(1,2)] x] object_url_bucket [OF assms(1,2)] assms(5)
    by (auto split: option.splits)
  then have "err_sum (Bucket_Put env b k d (w_s3 w)) = (Inr (), s)" and v: "s3test_view s ?u = Some d"
    using x assms(3,4) by (auto simp: Bucket_Put_def Let_def err_sum_def success_def)
  from attempts_first [of "\<lambda>s. err_sum (Bucket_Put env b k d s)", OF this(1)]
  show ?thesis using v by (intro exI [of _ s]) (simp add: WriteKey_def)
qed

lemma GetKey_succeeds:
  assumes "S3Wrapper_Open env = Inr b" and "plain_key k" and "http_do env = s3test_do lib" and "\<And>q. s3_sign env q = None"
    and "s3_attempts env > 0" and "s3test_view (w_s3 w) (object_url b k) = Some d"
  shows "\<exists>s. GetKey env b k w = (Ok d, w\<lparr>w_s3 := s\<rparr>)"
proof -
  let ?u = "object_url b k"
  obtain x s where x: "s3test_do lib (get_req ?u) (w_s3 w) = (x, s)" by (cases "s3test_do lib (get_req ?u) (w_s3 w)")
  obtain r where r: "x = Inr r" "hp_status r = 200" "hp_body r = Inr d"
    using s3test_get(2) [OF plain_object_url [OF assms(1,2)] x] assms(6) by auto
  obtain n where "s3_attempts env = Suc n" using assms(5) by (cases "s3_attempts env") auto
  then have "Bucket_Get env b k (w_s3 w) = (Inr d, s)"
    using x r assms(3,4) by (simp add: Bucket_Get_def success_def)
  from attempts_first [of "Bucket_Get env b k", OF this] show ?thesis by (intro exI [of _ s]) (simp add: GetKey_def)
qed

text \<open>C27. Against the library's test server, with the bucket in place: writing a key succeeds, and reading it
  then returns the bytes written, at the first attempt.\<close>

theorem s3_write_then_read:
  assumes "S3Wrapper_Open env = Inr b" and "plain_key k" and "http_do env = s3test_do lib" and "\<And>q. s3_sign env q = None"
    and "s3_attempts env > 0" and "map_of (sv_buckets (w_s3 w)) (getBucketName env) \<noteq> None"
  shows "\<exists>w1 w2. WriteKey env b k d w = (Ok (), w1) \<and> GetKey env b k w1 = (Ok d, w2)"
proof -
  obtain s where s: "WriteKey env b k d w = (Ok (), w\<lparr>w_s3 := s\<rparr>)" "s3test_view s (object_url b k) = Some d"
    using WriteKey_succeeds [OF assms(1-4,6)] by blast
  then show ?thesis using GetKey_succeeds [OF assms(1-5), of "w\<lparr>w_s3 := s\<rparr>" d] by auto
qed

lemma bed_open: "S3Wrapper_Open bed_env = Inr (c_s3 demo_cache)"
  by (simp add: S3Wrapper_Open_def S3_Bucket_def getBucketName_def bed_env_def on_testbed_def USEast_def demo_cache_def)

theorem s3_write_then_read_witness:
  "\<exists>w1 w2. WriteKey bed_env (c_s3 demo_cache) ''app/h1'' ''data'' demo_world = (Ok (), w1) \<and>
     GetKey bed_env (c_s3 demo_cache) ''app/h1'' w1 = (Ok ''data'', w2)"
  by (rule s3_write_then_read [OF bed_open, where lib = bed_lib])
    (simp_all add: bed_env_def on_testbed_def plain_key_def plain_char_def getBucketName_def demo_world_def demo_server_def)

section \<open>Bounded retries\<close>

text \<open>A service that keeps a log of the exchanges.\<close>

definition logged :: "('s, 'm) env \<Rightarrow> (http_req list \<times> 's, 'm) env" where
  "logged env = \<lparr>getenv = getenv env, now = now env,
     http_do = (\<lambda>q (log, s). let (r, s') = http_do env q s in (r, (log @ [q], s'))),
     http_class = http_class env, s3_sign = s3_sign env, s3_errdoc = s3_errdoc env, s3_attempts = s3_attempts env,
     mc_get = mc_get env, mc_set = mc_set env, mc_delete = mc_delete env, map_range = map_range env,
     temp_name = temp_name env, zip_open = zip_open env, zip_bytes = zip_bytes env, read_dir = read_dir env,
     png_config = png_config env, base64_decode = base64_decode env, parse_pubkey = parse_pubkey env,
     sha256_sum = sha256_sum env, rsa_verify = rsa_verify env, run_shell = run_shell env, sql_other = sql_other env\<rparr>"

lemma logged_fields [simp]:
  "http_do (logged env) q (log, s) = (let (r, s') = http_do env q s in (r, (log @ [q], s')))"
  "s3_attempts (logged env) = s3_attempts env" "s3_sign (logged env) = s3_sign env" "http_class (logged env) = http_class env"
  by (simp_all add: logged_def)

lemma retry_logged:
  "requestRetryLoop (logged env) n q (log, s) = (x, (log', s')) \<Longrightarrow> \<exists>k \<le> n. log' = log @ replicate k q"
proof (induction n arbitrary: log s)
  case (Suc n)
  obtain r t where h: "http_do env q s = (r, t)" by (cases "http_do env q s")
  show ?case
  proof (cases "\<exists>e. r = Inl e \<and> shouldRetry (http_class env e) \<and> n > 0")
    case True
    then have "requestRetryLoop (logged env) n q (log @ [q], t) = (x, (log', s'))" using Suc.prems h by auto
    from Suc.IH [OF this] obtain k where "k \<le> n" "log' = (log @ [q]) @ replicate k q" by blast
    then show ?thesis by (intro exI [of _ "Suc k"]) simp
  next
    case False
    then have "log' = log @ [q]" using Suc.prems h by (cases r) (auto split: if_splits)
    then show ?thesis by (intro exI [of _ 1]) simp
  qed
qed simp

lemma attempts_logged:
  assumes "attempts n f prev (log, s) = (x, (log', s'))"
    and "\<And>log s x log' s'. f (log, s) = (x, (log', s')) \<Longrightarrow> \<exists>k \<le> m. log' = log @ replicate k q"
  shows "\<exists>k \<le> n * m. log' = log @ replicate k q"
  using assms(1)
proof (induction n arbitrary: prev log s)
  case (Suc n)
  obtain y log1 s1 where y: "f (log, s) = (y, (log1, s1))" by (metis prod.exhaust)
  obtain k where k: "k \<le> m" "log1 = log @ replicate k q" using assms(2) [OF y] by blast
  show ?case
  proof (cases y)
    case (Inl e)
    then have "attempts n f (Inl e) (log1, s1) = (x, (log', s'))" using Suc.prems y by simp
    from Suc.IH [OF this] obtain j where j: "j \<le> n * m" "log' = log1 @ replicate j q" by blast
    then show ?thesis using k by (intro exI [of _ "k + j"]) (simp add: replicate_add)
  next
    case (Inr v)
    then show ?thesis using Suc.prems y k by (intro exI [of _ k]) auto
  qed
qed simp

text \<open>Reading a key costs at most three times the attempts of the retry strategy, and every exchange is a GET of
  that key: the loops end, and they do nothing else.\<close>

lemma s3_read_bounded:
  "\<exists>n \<le> 3 * s3_attempts env. \<exists>x w'. GetKey (logged env) b k (w\<lparr>w_s3 := (log, s)\<rparr>) = (x, w') \<and>
     fst (w_s3 w') = log @ replicate n (get_req (object_url b k))"
proof -
  let ?q = "get_req (object_url b k)"
  obtain y log' s' where run: "attempts maxAttempts (Bucket_Get (logged env) b k) (Inr []) (log, s) = (y, (log', s'))"
    by (metis prod.exhaust)
  have one: "\<exists>j \<le> s3_attempts env. log2 = log1 @ replicate j ?q"
    if "Bucket_Get (logged env) b k (log1, s1) = (z, (log2, s2))" for log1 s1 z log2 s2
  proof (cases "s3_sign env ?q")
    case None
    obtain v log3 s3 where v: "requestRetryLoop (logged env) (s3_attempts env) ?q (log1, s1) = (v, (log3, s3))"
      by (metis prod.exhaust)
    then have "log3 = log2" using that None by (cases v) (auto simp: Bucket_Get_def split: if_splits)
    then show ?thesis using retry_logged [OF v] by simp
  qed (use that in \<open>auto simp: Bucket_Get_def intro: exI [of _ 0]\<close>)
  obtain n where n: "n \<le> maxAttempts * s3_attempts env" "log' = log @ replicate n ?q"
    using attempts_logged [OF run, where m = "s3_attempts env" and q = ?q] one by blast
  have "fst (w_s3 (snd (GetKey (logged env) b k (w\<lparr>w_s3 := (log, s)\<rparr>)))) = log'"
    using run by (cases y) (simp_all add: GetKey_def)
  then show ?thesis
    using n by (intro exI [of _ n] conjI exI [of _ "fst (GetKey (logged env) b k (w\<lparr>w_s3 := (log, s)\<rparr>))"]
        exI [of _ "snd (GetKey (logged env) b k (w\<lparr>w_s3 := (log, s)\<rparr>))"]) (simp_all add: maxAttempts_def)
qed

section \<open>The test server\<close>

lemma map_insort_key_names: "map f (insort_key f x xs) = insort (f x) (map f xs)"
  by (induction xs) auto

lemma map_sort_key_names: "map f (sort_key f xs) = sort (map f xs)"
  by (induction xs) (simp_all add: map_insort_key_names)

text \<open>C40. The server's registry stays in order under every request: each bucket is registered under its own name,
  each object under its own key, and no key is stored twice.\<close>

theorem s3test_registry:
  assumes "server_ok srv"
  shows "server_ok (snd (serveHTTP lib a srv))"
  by (rule serveHTTP_ok [OF assms])

theorem s3test_registry_witness:
  "server_ok (snd (serveHTTP bed_lib (s3test_request (put_req ''https://s3.amazonaws.com/siphon-files-testing/app/h1'' ''x'')) demo_server))"
  by (rule s3test_registry) (simp add: server_ok_def bucket_ok_def demo_server_def)

text \<open>Listing a bucket without a delimiter gives the keys after the marker that start with the prefix, in order
  and cut at the limit, with the flag set exactly when something was cut.\<close>

lemma s3test_listing:
  assumes "bucket_ok n b" and "maxKeys > 0"
    and "list_loop pre [] marker maxKeys (orderedObjects pre b) [] [] = (ks, ps, stop)"
  shows "map sk_Key ks = take (nat maxKeys) (sort (filter (\<lambda>k. prefix pre k \<and> marker < k) (map fst (sb_objects b)))) \<and>
    ps = [] \<and> (stop \<longleftrightarrow> nat maxKeys < length (filter (\<lambda>k. prefix pre k \<and> marker < k) (map fst (sb_objects b))))"
proof -
  let ?obs = "orderedObjects pre b" and ?names = "map fst (sb_objects b)"
  have nm: "ob_name (snd e) = fst e" if "e \<in> set (sb_objects b)" for e
    using assms(1) that by (auto simp: bucket_ok_def split: prod.splits)
  have names: "map ob_name ?obs = sort (filter (prefix pre) ?names)"
  proof -
    have "map ob_name (map snd (filter (\<lambda>e. prefix pre (fst e)) (sb_objects b))) = filter (prefix pre) ?names"
      using nm by (auto simp: filter_map comp_def)
    then show ?thesis
      unfolding orderedObjects_def case_prod_unfold
      by (metis list.map_id0 map_sort_key_names)
  qed
  have "prefix pre (ob_name ob)" if "ob \<in> set ?obs" for ob
  proof -
    have "ob_name ob \<in> set (map ob_name ?obs)" using that by simp
    then show ?thesis unfolding names by simp
  qed
  then have run: "ks = map s3Key (take (nat maxKeys) (filter (\<lambda>ob. marker < ob_name ob) ?obs))" "ps = []"
    "stop \<longleftrightarrow> nat maxKeys < length (filter (\<lambda>ob. marker < ob_name ob) ?obs)"
    using list_loop_plain [of "[]" "[]" maxKeys ?obs pre marker] assms(2,3) by (auto simp: Let_def)
  have f: "map ob_name (filter (\<lambda>ob. marker < ob_name ob) ?obs) = sort (filter (\<lambda>k. prefix pre k \<and> marker < k) ?names)"
  proof -
    have "map ob_name (filter (\<lambda>ob. marker < ob_name ob) ?obs) = filter (\<lambda>k. marker < k) (map ob_name ?obs)"
      by (simp add: filter_map comp_def)
    also have "\<dots> = sort (filter (\<lambda>k. marker < k) (filter (prefix pre) ?names))" by (simp add: names filter_sort)
    finally show ?thesis by (simp add: conj_commute)
  qed
  have k: "map sk_Key (map s3Key obs) = map ob_name obs" for obs by (simp add: s3Key_def comp_def)
  show ?thesis
    using run f by (metis (no_types, lifting) k length_map length_sort take_map)
qed

end
