(* ===== verification/Mux.thy ===== *)
theory Mux
  imports World Go_Json
begin

text \<open>
  The router library, \<^verbatim>\<open>github.com/gorilla/mux\<close>: the parsing of a template into a regular expression
  (\<^verbatim>\<open>regexp.go\<close>), the building of a route with path, host, query, method and function matchers
  (\<^verbatim>\<open>route.go\<close>), matching and the extraction of variables, the cleaning of paths (\<^verbatim>\<open>mux.go\<close>). Header and
  scheme matchers, sub-routers, names and URL building are left out, so a router has no parent here; the
  template quoted in an error is left out too.

  A compiled expression is the list of its pieces. What a pattern between braces can match at a place is the
  list of lengths it would try there, best first; the default patterns of the library are modelled here, a
  pattern that a template gives itself is a parameter (\<open>rx\<close>, \<open>None\<close> when it does not compile).
\<close>

section \<open>Regular expressions\<close>

type_synonym rx = "string \<Rightarrow> (string \<Rightarrow> nat list) option"

text \<open>Literal text, a named group with its pattern, a pattern outside a group, an optional slash.\<close>

datatype piece = Lit string | Group string | Plain string | OptSlash

definition pathPattern :: string where "pathPattern = ''[^/]+''"
definition hostPattern :: string where "hostPattern = ''[^.]+''"
definition queryPattern :: string where "queryPattern = ''[^?&]*''"

text \<open>The lengths from longest to shortest that a repeated class of characters can take.\<close>

definition class_lengths :: "nat \<Rightarrow> (char \<Rightarrow> bool) \<Rightarrow> string \<Rightarrow> nat list" where
  "class_lengths least cls s = rev [least..<Suc (length (takeWhile cls s))]"

definition lengths :: "rx \<Rightarrow> string \<Rightarrow> string \<Rightarrow> nat list" where
  "lengths rx patt s =
     (if patt = pathPattern then class_lengths 1 (\<lambda>c. c \<noteq> slash) s
      else if patt = hostPattern then class_lengths 1 (\<lambda>c. c \<noteq> CHR ''.'') s
      else if patt = queryPattern then class_lengths 0 (\<lambda>c. c \<noteq> CHR ''?'' \<and> c \<noteq> CHR ''&'') s
      else case rx patt of None \<Rightarrow> [] | Some f \<Rightarrow> f s)"

definition compiles :: "rx \<Rightarrow> string \<Rightarrow> bool" where
  "compiles rx patt \<longleftrightarrow> patt \<in> {pathPattern, hostPattern, queryPattern} \<or> rx patt \<noteq> None"

fun first_some :: "('a \<Rightarrow> 'b option) \<Rightarrow> 'a list \<Rightarrow> 'b option" where
  "first_some f [] = None"
| "first_some f (x # xs) = (case f x of Some y \<Rightarrow> Some y | None \<Rightarrow> first_some f xs)"

text \<open>\<^verbatim>\<open>FindStringSubmatch\<close> of an expression that starts with \<^verbatim>\<open>^\<close>, and ends with \<^verbatim>\<open>$\<close> if \<open>anchored\<close>: what the
  groups matched.\<close>

fun submatch :: "rx \<Rightarrow> bool \<Rightarrow> piece list \<Rightarrow> string \<Rightarrow> string list option" where
  "submatch rx anchored [] s = (if anchored \<and> s \<noteq> [] then None else Some [])"
| "submatch rx anchored (Lit l # ps) s = (if prefix l s then submatch rx anchored ps (drop (length l) s) else None)"
| "submatch rx anchored (OptSlash # ps) s =
     (if prefix ''/'' s then
        (case submatch rx anchored ps (drop 1 s) of Some g \<Rightarrow> Some g | None \<Rightarrow> submatch rx anchored ps s)
      else submatch rx anchored ps s)"
| "submatch rx anchored (Plain patt # ps) s =
     first_some (\<lambda>n. submatch rx anchored ps (drop n s)) (lengths rx patt s)"
| "submatch rx anchored (Group patt # ps) s =
     first_some (\<lambda>n. map_option (\<lambda>g. take n s # g) (submatch rx anchored ps (drop n s))) (lengths rx patt s)"

section \<open>Templates\<close>

text \<open>\<^verbatim>\<open>braceIndices\<close>: position \<open>i\<close>, depth, start of the group, and the indices so far.\<close>

fun brace_loop :: "string \<Rightarrow> nat \<Rightarrow> nat \<Rightarrow> nat \<Rightarrow> nat list \<Rightarrow> nat list option" where
  "brace_loop [] i level idx idxs = (if level \<noteq> 0 then None else Some idxs)"
| "brace_loop (c # s) i level idx idxs =
     (if c = CHR ''{'' then brace_loop s (i + 1) (level + 1) (if level = 0 then i else idx) idxs
      else if c = CHR ''}'' then
        (if level = 1 then brace_loop s (i + 1) 0 idx (idxs @ [idx, i + 1])
         else if level = 0 then None
         else brace_loop s (i + 1) (level - 1) idx idxs)
      else brace_loop s (i + 1) level idx idxs)"

definition braceIndices :: "string \<Rightarrow> error + nat list" where
  "braceIndices s =
     (case brace_loop s 0 0 0 [] of None \<Rightarrow> Inl (Errorf ''mux: unbalanced braces'') | Some idxs \<Rightarrow> Inr idxs)"

record routeRegexp =
  rr_template :: string
  rr_matchHost :: bool
  rr_matchQuery :: bool
  rr_strictSlash :: bool
  rr_pieces :: "piece list"
  rr_anchored :: bool
  rr_reverse :: string
  rr_varsN :: "string list"
  rr_varsR :: "string list"

text \<open>The loop over the groups; \<open>e\<close> is where the last one stopped. It gives the pieces, the reverse template, the
  names and the patterns of the variables, and where the last group stopped.\<close>

fun group_loop ::
  "rx \<Rightarrow> string \<Rightarrow> string \<Rightarrow> nat \<Rightarrow> nat list \<Rightarrow> error + piece list \<times> string \<times> string list \<times> string list \<times> nat" where
  "group_loop rx dflt tpl e (a # b # idxs) =
     (let raw = take (a - e) (drop e tpl);
          inner = take (b - 1 - (a + 1)) (drop (a + 1) tpl);
          name = takeWhile (\<lambda>c. c \<noteq> CHR '':'') inner;
          patt = (if CHR '':'' \<in> set inner then drop (length name + 1) inner else dflt) in
      if name = [] \<or> patt = [] then Inl (Errorf ''mux: missing name or pattern'')
      else if \<not> compiles rx patt then Inl (Errorf ''error parsing regexp'')
      else case group_loop rx dflt tpl b idxs of
        Inl err \<Rightarrow> Inl err
      | Inr (ps, rvs, ns, rs, e') \<Rightarrow>
          Inr (Lit raw # Group patt # ps, raw @ ''%s'' @ rvs, name # ns, patt # rs, e'))"
| "group_loop rx dflt tpl e _ = Inr ([], [], [], [], e)"

text \<open>A query template without an equals sign has no second half to index.\<close>

definition newRouteRegexp :: "rx \<Rightarrow> string \<Rightarrow> bool \<Rightarrow> bool \<Rightarrow> bool \<Rightarrow> bool \<Rightarrow> routeRegexp res" where
  "newRouteRegexp rx template matchHost matchPrefix0 matchQuery strictSlash0 =
     (case braceIndices template of
        Inl e \<Rightarrow> Fail e
      | Inr idxs \<Rightarrow>
          let dflt = (if matchQuery then queryPattern else if matchHost then hostPattern else pathPattern);
              matchPrefix = (matchPrefix0 \<and> (matchQuery \<or> \<not> matchHost));
              strictSlash = (strictSlash0 \<and> \<not> (matchPrefix \<or> matchHost \<or> matchQuery));
              endSlash = (strictSlash \<and> suffix ''/'' template);
              tpl = (if endSlash then butlast template else template) in
          case group_loop rx dflt tpl 0 idxs of
            Inl e \<Rightarrow> Fail e
          | Inr (ps, rvs, ns, rs, e) \<Rightarrow>
              if matchQuery \<and> CHR ''='' \<notin> set template then Panic ''index out of range''
              else
                let raw = drop e tpl;
                    emptyVal = (matchQuery \<and> tl (dropWhile (\<lambda>c. c \<noteq> CHR ''='') template) = []) in
                Ok \<lparr>rr_template = template, rr_matchHost = matchHost, rr_matchQuery = matchQuery,
                    rr_strictSlash = strictSlash,
                    rr_pieces = ps @ [Lit raw] @ (if strictSlash then [OptSlash] else []) @ (if emptyVal then [Plain dflt] else []),
                    rr_anchored = (\<not> matchPrefix), rr_reverse = rvs @ raw @ (if endSlash then ''/'' else []),
                    rr_varsN = ns, rr_varsR = rs\<rparr>)"

definition getHost :: "request \<Rightarrow> string" where
  "getHost r = (case rq_abs_host r of Some h \<Rightarrow> h | None \<Rightarrow> takeWhile (\<lambda>c. c \<noteq> CHR '':'') (rq_host r))"

definition getUrlQuery :: "routeRegexp \<Rightarrow> request \<Rightarrow> string" where
  "getUrlQuery rr r =
     (if \<not> rr_matchQuery rr then []
      else
        let key = takeWhile (\<lambda>c. c \<noteq> CHR ''='') (rr_template rr) in
        case map_of (rq_query r) key of None \<Rightarrow> [] | Some v \<Rightarrow> key @ ''='' @ v)"

text \<open>The part of the request an expression looks at.\<close>

definition subject :: "routeRegexp \<Rightarrow> request \<Rightarrow> string" where
  "subject rr r =
     (if \<not> rr_matchHost rr then (if rr_matchQuery rr then getUrlQuery rr r else rq_path r) else getHost r)"

definition routeRegexp_Match :: "rx \<Rightarrow> routeRegexp \<Rightarrow> request \<Rightarrow> bool" where
  "routeRegexp_Match rx rr r \<longleftrightarrow> submatch rx (rr_anchored rr) (rr_pieces rr) (subject rr r) \<noteq> None"

section \<open>Routes\<close>

datatype matcher = RegexpMatcher routeRegexp | MethodMatcher "string list" | FuncMatcher "request \<Rightarrow> bool"

record routeRegexpGroup =
  gr_host :: "routeRegexp option"
  gr_path :: "routeRegexp option"
  gr_queries :: "routeRegexp list"

record 'h Route =
  rt_handler :: "'h option"
  rt_matchers :: "matcher list"
  rt_regexp :: "routeRegexpGroup option"
  rt_strictSlash :: bool
  rt_buildOnly :: bool
  rt_err :: "error option"

definition newRoute :: "bool \<Rightarrow> 'h Route" where
  "newRoute strictSlash = \<lparr>rt_handler = None, rt_matchers = [], rt_regexp = None, rt_strictSlash = strictSlash,
     rt_buildOnly = False, rt_err = None\<rparr>"

definition addMatcher :: "matcher \<Rightarrow> 'h Route \<Rightarrow> 'h Route" where
  "addMatcher m r = (if rt_err r = None then r\<lparr>rt_matchers := rt_matchers r @ [m]\<rparr> else r)"

definition TrimRight_slash :: "string \<Rightarrow> string" where
  "TrimRight_slash s = rev (dropWhile (\<lambda>c. c = slash) (rev s))"

definition uniqueVars :: "string list \<Rightarrow> string list \<Rightarrow> error option" where
  "uniqueVars s1 s2 =
     (if \<exists>v \<in> set s1. v \<in> set s2 then Some (Errorf ''mux: duplicated route variable'') else None)"

definition opt_unique :: "routeRegexp \<Rightarrow> routeRegexp option \<Rightarrow> error option" where
  "opt_unique rr q = (case q of None \<Rightarrow> None | Some q' \<Rightarrow> uniqueVars (rr_varsN rr) (rr_varsN q'))"

text \<open>For a route of a router without a parent: the group starts empty.\<close>

definition getRegexpGroup :: "'h Route \<Rightarrow> routeRegexpGroup" where
  "getRegexpGroup r = (case rt_regexp r of None \<Rightarrow> \<lparr>gr_host = None, gr_path = None, gr_queries = []\<rparr> | Some g \<Rightarrow> g)"

definition addRegexpMatcher :: "rx \<Rightarrow> string \<Rightarrow> bool \<Rightarrow> bool \<Rightarrow> bool \<Rightarrow> 'h Route \<Rightarrow> unit res \<times> 'h Route" where
  "addRegexpMatcher rx tpl0 matchHost matchPrefix matchQuery r0 =
     (case rt_err r0 of
        Some e \<Rightarrow> (Fail e, r0)
      | None \<Rightarrow>
          let g = getRegexpGroup r0; r = r0\<lparr>rt_regexp := Some g\<rparr>; is_path = (\<not> matchHost \<and> \<not> matchQuery) in
          if is_path \<and> \<not> prefix ''/'' tpl0 then (Fail (Errorf ''mux: path must start with a slash''), r)
          else
            let tpl = (case gr_path g of Some p \<Rightarrow> if is_path then TrimRight_slash (rr_template p) @ tpl0 else tpl0 | None \<Rightarrow> tpl0) in
            case newRouteRegexp rx tpl matchHost matchPrefix matchQuery (rt_strictSlash r) of
              Fail e \<Rightarrow> (Fail e, r)
            | Panic p \<Rightarrow> (Panic p, r)
            | Ok rr \<Rightarrow>
                if list_ex (\<lambda>q. uniqueVars (rr_varsN rr) (rr_varsN q) \<noteq> None) (gr_queries g) then
                  (Fail (Errorf ''mux: duplicated route variable''), r)
                else if matchHost then
                  (case opt_unique rr (gr_path g) of
                     Some e \<Rightarrow> (Fail e, r)
                   | None \<Rightarrow> (Ok (), addMatcher (RegexpMatcher rr) (r\<lparr>rt_regexp := Some (g\<lparr>gr_host := Some rr\<rparr>)\<rparr>)))
                else
                  (case opt_unique rr (gr_host g) of
                     Some e \<Rightarrow> (Fail e, r)
                   | None \<Rightarrow>
                       (Ok (), addMatcher (RegexpMatcher rr)
                          (r\<lparr>rt_regexp := Some (if matchQuery then g\<lparr>gr_queries := gr_queries g @ [rr]\<rparr>
                                                else g\<lparr>gr_path := Some rr\<rparr>)\<rparr>))))"

definition with_err :: "unit res \<times> 'h Route \<Rightarrow> 'h Route res" where
  "with_err x = (case x of
     (Ok _, r) \<Rightarrow> Ok (r\<lparr>rt_err := None\<rparr>) | (Fail e, r) \<Rightarrow> Ok (r\<lparr>rt_err := Some e\<rparr>) | (Panic p, r) \<Rightarrow> Panic p)"

definition Route_Path :: "rx \<Rightarrow> string \<Rightarrow> 'h Route \<Rightarrow> 'h Route res" where
  "Route_Path rx tpl r = with_err (addRegexpMatcher rx tpl False False False r)"

definition Route_PathPrefix :: "rx \<Rightarrow> string \<Rightarrow> 'h Route \<Rightarrow> 'h Route res" where
  "Route_PathPrefix rx tpl r = with_err (addRegexpMatcher rx tpl False True False r)"

definition Route_Host :: "rx \<Rightarrow> string \<Rightarrow> 'h Route \<Rightarrow> 'h Route res" where
  "Route_Host rx tpl r = with_err (addRegexpMatcher rx tpl True False False r)"

definition Route_Handler :: "'h \<Rightarrow> 'h Route \<Rightarrow> 'h Route" where
  "Route_Handler h r = (if rt_err r = None then r\<lparr>rt_handler := Some h\<rparr> else r)"

definition Route_Methods :: "string list \<Rightarrow> 'h Route \<Rightarrow> 'h Route" where
  "Route_Methods methods r = addMatcher (MethodMatcher (map (map ascii_upper) methods)) r"

definition Route_MatcherFunc :: "(request \<Rightarrow> bool) \<Rightarrow> 'h Route \<Rightarrow> 'h Route" where
  "Route_MatcherFunc f r = addMatcher (FuncMatcher f) r"

definition BuildOnly :: "'h Route \<Rightarrow> 'h Route" where
  "BuildOnly r = r\<lparr>rt_buildOnly := True\<rparr>"

section \<open>Matching\<close>

text \<open>What a match hands on: a handler of the program or the library's redirect to a path, and the variables.\<close>

datatype 'h target = Handler 'h | Redirect string

record 'h RouteMatch =
  rm_Handler :: "'h target option"
  rm_Vars :: gomap

definition matcher_Match :: "rx \<Rightarrow> request \<Rightarrow> matcher \<Rightarrow> bool" where
  "matcher_Match rx r m =
     (case m of RegexpMatcher rr \<Rightarrow> routeRegexp_Match rx rr r | MethodMatcher ms \<Rightarrow> rq_method r \<in> set ms | FuncMatcher f \<Rightarrow> f r)"

definition set_vars :: "rx \<Rightarrow> request \<Rightarrow> routeRegexp \<Rightarrow> gomap \<Rightarrow> gomap" where
  "set_vars rx r rr vs =
     (case submatch rx (rr_anchored rr) (rr_pieces rr) (subject rr r) of
        None \<Rightarrow> vs
      | Some g \<Rightarrow> fold (\<lambda>(k, v). gm_set k v) (zip (rr_varsN rr) g) vs)"

definition strict_redirect :: "rx \<Rightarrow> request \<Rightarrow> routeRegexp \<Rightarrow> 'h target option \<Rightarrow> 'h target option" where
  "strict_redirect rx r rr h =
     (let p1 = suffix ''/'' (rq_path r); p2 = suffix ''/'' (rr_template rr) in
      if routeRegexp_Match rx rr r \<and> rr_strictSlash rr \<and> p1 \<noteq> p2
      then Some (Redirect (if p1 then butlast (rq_path r) else rq_path r @ ''/'')) else h)"

definition setMatch :: "rx \<Rightarrow> request \<Rightarrow> routeRegexpGroup \<Rightarrow> 'h RouteMatch \<Rightarrow> 'h RouteMatch" where
  "setMatch rx r g m =
     (let vs = (case gr_host g of None \<Rightarrow> rm_Vars m | Some rr \<Rightarrow> set_vars rx r rr (rm_Vars m));
          vs = (case gr_path g of None \<Rightarrow> vs | Some rr \<Rightarrow> set_vars rx r rr vs);
          h = (case gr_path g of None \<Rightarrow> rm_Handler m | Some rr \<Rightarrow> strict_redirect rx r rr (rm_Handler m)) in
      \<lparr>rm_Handler = h, rm_Vars = fold (set_vars rx r) (gr_queries g) vs\<rparr>)"

definition Route_Match :: "rx \<Rightarrow> request \<Rightarrow> 'h Route \<Rightarrow> 'h RouteMatch \<Rightarrow> bool \<times> 'h RouteMatch" where
  "Route_Match rx r rt m =
     (if rt_buildOnly rt \<or> rt_err rt \<noteq> None then (False, m)
      else if \<not> list_all (matcher_Match rx r) (rt_matchers rt) then (False, m)
      else
        let m = m\<lparr>rm_Handler := (case rm_Handler m of None \<Rightarrow> map_option Handler (rt_handler rt) | Some h \<Rightarrow> Some h)\<rparr> in
        (True, case rt_regexp rt of None \<Rightarrow> m | Some g \<Rightarrow> setMatch rx r g m))"

text \<open>\<^verbatim>\<open>Router.Match\<close>: the first route that matches.\<close>

fun Router_Match :: "rx \<Rightarrow> request \<Rightarrow> 'h Route list \<Rightarrow> 'h RouteMatch \<Rightarrow> bool \<times> 'h RouteMatch" where
  "Router_Match rx r [] m = (False, m)"
| "Router_Match rx r (rt # rts) m =
     (case Route_Match rx r rt m of (True, m') \<Rightarrow> (True, m') | (False, m') \<Rightarrow> Router_Match rx r rts m')"

definition no_match :: "'h RouteMatch" where
  "no_match = \<lparr>rm_Handler = None, rm_Vars = []\<rparr>"

definition Router_Handle :: "rx \<Rightarrow> string \<Rightarrow> 'h \<Rightarrow> 'h Route res" where
  "Router_Handle rx path h =
     (case Route_Path rx path (newRoute False) of
        Ok r \<Rightarrow> Ok (Route_Handler h r) | Fail e \<Rightarrow> Fail e | Panic p \<Rightarrow> Panic p)"

definition cleanPath :: "string \<Rightarrow> string" where
  "cleanPath p0 =
     (if p0 = [] then ''/''
      else
        let p = (if prefix ''/'' p0 then p0 else slash # p0); np = Clean p in
        if suffix ''/'' p \<and> np \<noteq> ''/'' then np @ ''/'' else np)"

section \<open>What a template with one variable matches\<close>

lemma first_some_None: "(\<And>x. x \<in> set xs \<Longrightarrow> f x = None) \<Longrightarrow> first_some f xs = None"
  by (induction xs) auto

lemma submatch_rest: "submatch rx True [Lit l] s = (if s = l then Some [] else None)"
  by (auto simp: prefix_def)

lemma submatch_var:
  "submatch rx True [Group pathPattern, Lit (slash # l)] s =
     (let v = takeWhile (\<lambda>c. c \<noteq> slash) s in if v \<noteq> [] \<and> s = v @ slash # l then Some [v] else None)"
proof -
  define v where "v = takeWhile (\<lambda>c. c \<noteq> slash) s"
  let ?f = "\<lambda>n. map_option (\<lambda>g. take n s # g) (submatch rx True [Lit (slash # l)] (drop n s))"
  have f: "?f n = (if drop n s = slash # l then Some [take n s] else None)" for n by (simp only: submatch_rest) simp
  have short: "?f n = None" if "n < length v" for n
  proof -
    have "v ! n \<in> set v" using that by simp
    then have "v ! n \<noteq> slash" unfolding v_def by (auto dest: set_takeWhileD)
    then have "s ! n \<noteq> slash" using that unfolding v_def by (simp add: takeWhile_nth)
    moreover have "n < length s" using that length_takeWhile_le [of _ s] by (metis less_le_trans v_def)
    ultimately have "drop n s \<noteq> slash # l" by (metis hd_drop_conv_nth list.sel(1))
    then show ?thesis unfolding f by simp
  qed
  have at: "?f (length v) = (if s = v @ slash # l then Some [v] else None)"
  proof -
    have t: "take (length v) s = v" unfolding v_def by (rule takeWhile_eq_take [symmetric])
    then have s: "s = v @ drop (length v) s" using append_take_drop_id [of "length v" s] by simp
    have "drop (length v) s = slash # l \<longleftrightarrow> s = v @ slash # l"
    proof
      assume "drop (length v) s = slash # l"
      with s show "s = v @ slash # l" by simp
    next
      assume "s = v @ slash # l"
      then show "drop (length v) s = slash # l" by (metis append_eq_conv_conj)
    qed
    then show ?thesis unfolding f using t by simp
  qed
  have "first_some ?f (rev [1..<Suc (length v)]) = (if v \<noteq> [] \<and> s = v @ slash # l then Some [v] else None)"
  proof (cases "v = []")
    case False
    have rest: "first_some ?f (rev [1..<length v]) = None" by (rule first_some_None) (use short in auto)
    have "[1..<Suc (length v)] = [1..<length v] @ [length v]" using False by (simp add: Suc_le_eq upt_Suc_append)
    then have "first_some ?f (rev [1..<Suc (length v)]) = (case ?f (length v) of Some y \<Rightarrow> Some y | None \<Rightarrow> first_some ?f (rev [1..<length v]))"
      by (simp only: rev_append rev.simps append.simps first_some.simps)
    then show ?thesis unfolding at rest using False by (cases "s = v @ slash # l") simp_all
  qed simp
  then show ?thesis unfolding submatch.simps(5) lengths_def class_lengths_def v_def [symmetric] Let_def by simp
qed

text \<open>A route for \<open>pre{name}/\<close> matches exactly \<open>pre\<close>, a non-empty value without a slash, and a slash.\<close>

definition var_regexp :: "string \<Rightarrow> string \<Rightarrow> routeRegexp" where
  "var_regexp pre name = \<lparr>rr_template = pre @ ''{'' @ name @ ''}/'', rr_matchHost = False, rr_matchQuery = False, rr_strictSlash = False,
     rr_pieces = [Lit pre, Group pathPattern, Lit ''/''], rr_anchored = True, rr_reverse = pre @ ''%s/'', rr_varsN = [name],
     rr_varsR = [pathPattern]\<rparr>"

definition segment :: "string \<Rightarrow> bool" where
  "segment v \<longleftrightarrow> v \<noteq> [] \<and> slash \<notin> set v"

lemma takeWhile_segment: "slash \<notin> set v \<Longrightarrow> takeWhile (\<lambda>c. c \<noteq> slash) (v @ slash # l) = v"
  by (induction v) auto

lemma var_regexp_submatch:
  "submatch rx True [Lit pre, Group pathPattern, Lit ''/''] path = Some g \<longleftrightarrow>
     (\<exists>v. segment v \<and> path = pre @ v @ ''/'' \<and> g = [v])"
proof -
  have "submatch rx True [Lit pre, Group pathPattern, Lit ''/''] path =
      (if prefix pre path then submatch rx True [Group pathPattern, Lit ''/''] (drop (length pre) path) else None)"
    by (simp only: submatch.simps(2))
  then show ?thesis
    unfolding submatch_var Let_def segment_def
    by (auto simp: prefix_def takeWhile_segment dest: set_takeWhileD split: if_splits)
qed

lemma var_regexp_Match: "routeRegexp_Match rx (var_regexp pre name) r \<longleftrightarrow> (\<exists>v. segment v \<and> rq_path r = pre @ v @ ''/'')"
  using var_regexp_submatch [of rx pre "rq_path r"] by (auto simp: routeRegexp_Match_def var_regexp_def subject_def)

definition path_route :: "routeRegexp \<Rightarrow> string list \<Rightarrow> 'h \<Rightarrow> 'h Route" where
  "path_route rr ms h =
     \<lparr>rt_handler = Some h, rt_matchers = [RegexpMatcher rr, MethodMatcher ms],
      rt_regexp = Some \<lparr>gr_host = None, gr_path = Some rr, gr_queries = []\<rparr>, rt_strictSlash = False, rt_buildOnly = False, rt_err = None\<rparr>"

lemma path_route_Match:
  assumes "\<not> rr_strictSlash rr"
  shows "Route_Match rx r (path_route rr ms h) no_match =
     (if rq_method r \<in> set ms \<and> routeRegexp_Match rx rr r
      then (True, \<lparr>rm_Handler = Some (Handler h), rm_Vars = set_vars rx r rr []\<rparr>) else (False, no_match))"
  using assms
  by (auto simp: Route_Match_def path_route_def matcher_Match_def no_match_def setMatch_def strict_redirect_def Let_def)

lemma var_vars: "segment v \<Longrightarrow> rq_path r = pre @ v @ ''/'' \<Longrightarrow> set_vars rx r (var_regexp pre name) [] = [(name, v)]"
  using var_regexp_submatch [of rx pre "rq_path r" "[v]"] by (simp add: set_vars_def var_regexp_def subject_def)

text \<open>A template without braces matches itself.\<close>

definition lit_regexp :: "string \<Rightarrow> routeRegexp" where
  "lit_regexp p = \<lparr>rr_template = p, rr_matchHost = False, rr_matchQuery = False, rr_strictSlash = False, rr_pieces = [Lit p],
     rr_anchored = True, rr_reverse = p, rr_varsN = [], rr_varsR = []\<rparr>"

lemma lit_regexp_Match: "routeRegexp_Match rx (lit_regexp p) r \<longleftrightarrow> rq_path r = p"
  by (auto simp: routeRegexp_Match_def lit_regexp_def subject_def prefix_def)

lemma lit_vars: "set_vars rx r (lit_regexp p) [] = []"
  by (simp add: set_vars_def lit_regexp_def split: option.split)

text \<open>What \<^verbatim>\<open>Handle(...).Methods(...)\<close> builds for templates of the two kinds.\<close>

lemma brace_loop_plain:
  "CHR ''{'' \<notin> set p \<Longrightarrow> CHR ''}'' \<notin> set p \<Longrightarrow> brace_loop (p @ s) i l k idxs = brace_loop s (i + length p) l k idxs"
  by (induction p arbitrary: i) auto

lemma newRouteRegexp_lit:
  assumes "CHR ''{'' \<notin> set p" "CHR ''}'' \<notin> set p"
  shows "newRouteRegexp rx p False False False False = Ok (lit_regexp p)"
  using brace_loop_plain [OF assms, of "[]"] by (simp add: newRouteRegexp_def braceIndices_def lit_regexp_def)

lemma newRouteRegexp_var:
  assumes "CHR ''{'' \<notin> set pre" "CHR ''}'' \<notin> set pre" "CHR ''{'' \<notin> set name" "CHR ''}'' \<notin> set name"
    and "CHR '':'' \<notin> set name" "name \<noteq> []"
  shows "newRouteRegexp rx (pre @ ''{'' @ name @ ''}/'') False False False False = Ok (var_regexp pre name)"
proof -
  let ?b = "length pre + length name + 2"
  have "brace_loop (pre @ ''{'' @ name @ ''}/'') 0 0 0 [] = Some [length pre, ?b]"
    using brace_loop_plain [OF assms(1,2)] brace_loop_plain [OF assms(3,4)] by simp
  then have b: "braceIndices (pre @ ''{'' @ name @ ''}/'') = Inr [length pre, ?b]" by (simp add: braceIndices_def)
  have n: "takeWhile (\<lambda>c. c \<noteq> CHR '':'') name = name" using assms(5) by (auto simp: takeWhile_eq_all_conv)
  have "group_loop rx pathPattern (pre @ ''{'' @ name @ ''}/'') 0 [length pre, ?b] =
      Inr ([Lit pre, Group pathPattern], pre @ ''%s'', [name], [pathPattern], ?b)"
    using assms(5,6) by (simp add: compiles_def Let_def pathPattern_def n)
  then show ?thesis using b by (simp add: newRouteRegexp_def var_regexp_def Let_def del: group_loop.simps)
qed

lemma Handle_Methods:
  assumes "newRouteRegexp rx tpl False False False False = Ok rr" and "prefix ''/'' tpl"
  shows "Router_Handle rx tpl h = Ok r \<Longrightarrow> Route_Methods ms r = path_route rr (map (map ascii_upper) ms) h"
    and "\<exists>r. Router_Handle rx tpl h = Ok r"
proof -
  have "Router_Handle rx tpl h = Ok (Route_Handler h (addMatcher (RegexpMatcher rr)
      ((newRoute False)\<lparr>rt_regexp := Some \<lparr>gr_host = None, gr_path = Some rr, gr_queries = []\<rparr>\<rparr>)))"
    using assms by (simp add: Router_Handle_def Route_Path_def addRegexpMatcher_def with_err_def getRegexpGroup_def
        newRoute_def opt_unique_def addMatcher_def Let_def)
  then show "Router_Handle rx tpl h = Ok r \<Longrightarrow> Route_Methods ms r = path_route rr (map (map ascii_upper) ms) h"
    and "\<exists>r. Router_Handle rx tpl h = Ok r"
    by (auto simp: Route_Methods_def Route_Handler_def addMatcher_def newRoute_def path_route_def)
qed

section \<open>Cleaning\<close>

lemma Clean_rooted_comps: "rooted p \<Longrightarrow> Clean p = slash # join ''/'' (elim_dotdot True [] (comps p))"
  by (simp add: Clean_def)

lemma elim_idem: "elim_dotdot True [] (elim_dotdot True [] cs) = elim_dotdot True [] cs"
proof -
  have "''..'' \<notin> set (elim_dotdot True st cs)" if "''..'' \<notin> set st" for st
    using that elim_dotdot_rooted by blast
  then show ?thesis using elim_dotdot_id by force
qed

lemma suffix_last: "suffix [c] x \<longleftrightarrow> x \<noteq> [] \<and> last x = c"
  by (cases x rule: rev_cases) (auto simp: suffix_def)

lemma join_ne: "cs \<noteq> [] \<Longrightarrow> (\<And>c. c \<in> set cs \<Longrightarrow> c \<noteq> []) \<Longrightarrow> join ''/'' cs \<noteq> []"
  by (cases cs; cases "tl cs") auto

text \<open>A clean path is one that starts with a slash and has no empty, dot or dot-dot part.\<close>

lemma cleanPath_shape:
  "\<exists>cs. (\<forall>c \<in> set cs. is_comp c \<and> c \<noteq> ''..'') \<and>
     (cleanPath p = slash # join ''/'' cs \<or> cs \<noteq> [] \<and> cleanPath p = slash # join ''/'' cs @ ''/'')"
proof -
  define q where "q = (if prefix ''/'' p then p else slash # p)"
  let ?cs = "elim_dotdot True [] (comps q)"
  have r: "rooted q" by (simp add: rooted_def q_def)
  have cs: "\<forall>c \<in> set ?cs. is_comp c \<and> c \<noteq> ''..''"
    using elim_dotdot_is_comp [of _ True q] elim_dotdot_rooted [of "[]" "comps q"] by auto
  have "Clean q = ''/'' \<longleftrightarrow> ?cs = []"
  proof -
    have "join ''/'' ?cs = [] \<longleftrightarrow> ?cs = []" using join_ne [of ?cs] cs unfolding is_comp_def by (metis join.simps(1))
    then show ?thesis unfolding Clean_rooted_comps [OF r] by simp
  qed
  moreover have "p = [] \<Longrightarrow> comps q = []" by (simp add: q_def)
  ultimately show ?thesis
    using cs Clean_rooted_comps [OF r] by (intro exI [of _ ?cs]) (auto simp: cleanPath_def Let_def q_def [symmetric])
qed

lemma cleanPath_fix:
  assumes "\<forall>c \<in> set cs. is_comp c \<and> c \<noteq> ''..''"
  shows "cleanPath (slash # join ''/'' cs) = slash # join ''/'' cs"
    and "cs \<noteq> [] \<Longrightarrow> cleanPath (slash # join ''/'' cs @ ''/'') = slash # join ''/'' cs @ ''/''"
proof -
  have e: "elim_dotdot True [] cs = cs" using assms elim_dotdot_id [of cs True "[]"] by auto
  have c: "comps (slash # join ''/'' cs) = cs" using comps_join assms by simp
  have j: "\<not> suffix ''/'' (slash # join ''/'' cs)" if "cs \<noteq> []"
  proof -
    have "last (join ''/'' cs) = last (last cs) \<and> join ''/'' cs \<noteq> []"
      using that assms by (induction "''/''::string" cs rule: join.induct) (auto simp: is_comp_def)
    moreover have "is_comp (last cs)" using that assms last_in_set by blast
    then have "last (last cs) \<noteq> slash" unfolding is_comp_def by (metis last_in_set)
    ultimately show ?thesis by (simp add: suffix_last)
  qed
  have k: "Clean (slash # join ''/'' cs) = slash # join ''/'' cs" using c e by (simp add: Clean_def rooted_def)
  show "cleanPath (slash # join ''/'' cs) = slash # join ''/'' cs"
    using j k by (cases "cs = []") (auto simp: cleanPath_def Let_def)
  assume "cs \<noteq> []"
  have "comps ((slash # join ''/'' cs) @ slash # []) = cs" using comps_append_slash c by (metis append_Nil2 comps_Nil)
  then have "Clean (slash # join ''/'' cs @ ''/'') = slash # join ''/'' cs" by (simp add: Clean_def rooted_def e)
  moreover have "slash # join ''/'' cs \<noteq> ''/''" using join_ne [of cs] \<open>cs \<noteq> []\<close> assms by (auto simp: is_comp_def)
  ultimately show "cleanPath (slash # join ''/'' cs @ ''/'') = slash # join ''/'' cs @ ''/''"
    by (simp add: cleanPath_def Let_def suffix_def)
qed

lemma cleanPath_idem: "cleanPath (cleanPath p) = cleanPath p"
  using cleanPath_shape [of p] cleanPath_fix by metis

end
