(* ===== verification/Gzip.thy ===== *)
theory Gzip
  imports World Metadata
begin

text \<open>
  The compression wrapper around every handler, \<^verbatim>\<open>github.com/nytimes/gziphandler\<close>: the parsing of the
  \<^verbatim>\<open>Accept-Encoding\<close> header, and the handler that sends what the inner one writes through a compressor.

  Of a q-value only whether it is positive is kept, which is all the handler asks for. The compressor is a
  parameter: \<open>gz\<close> is the stream for some bytes once it is closed, \<open>gz_open\<close> what has reached the response when
  a panic of the inner handler skips the closing.
\<close>

section \<open>Accept-Encoding\<close>

definition trim_space :: "string \<Rightarrow> string" where
  "trim_space s =
     (let sp = (\<lambda>c. c \<in> {CHR '' '', CHR 0x09, CHR 0x0A, CHR 0x0B, CHR 0x0C, CHR 0x0D}) in
      rev (dropWhile sp (rev (dropWhile sp s))))"

text \<open>Whether the 64-bit value of a number that \<^verbatim>\<open>strconv.ParseFloat\<close> accepts is positive: a magnitude up to half
  of the smallest denormal rounds to zero.\<close>

definition float_positive :: "string \<Rightarrow> bool" where
  "float_positive s \<longleftrightarrow>
     \<not> prefix ''-'' s \<and>
     (if special_float s then fold_norm s \<noteq> ''nan''
      else case read_float s of
        None \<Rightarrow> False
      | Some (ints, frac, e) \<Rightarrow>
          let m = digits_val (ints @ frac); k = e - int (length frac) in
          if 0 \<le> k then m > 0 else int m * 2 ^ 1075 > 10 ^ nat (- k))"

text \<open>The loop over the parts of a coding: the coding, whether its q-value is positive, whether there is an
  error. Every part sets the q-value back to one, a later \<^verbatim>\<open>q=\<close> overwrites the error of an earlier one.\<close>

fun coding_parts :: "bool \<Rightarrow> string list \<Rightarrow> string \<times> bool \<times> bool \<Rightarrow> string \<times> bool \<times> bool" where
  "coding_parts is_first [] st = st"
| "coding_parts is_first (part # parts) (coding, q, err) =
     (let part = trim_space part in
      coding_parts False parts
        (if is_first then (to_lower part, True, err)
         else if prefix ''q='' part then
           let v = drop 2 part in (coding, ParseFloat_ok v \<and> float_positive v, \<not> ParseFloat_ok v)
         else (coding, True, err)))"

definition parseCoding :: "string \<Rightarrow> string \<times> bool \<times> bool" where
  "parseCoding s =
     (let (coding, q, err) = coding_parts True (split_on (CHR '';'') s) ([], False, False) in
      (coding, q, err \<or> coding = []))"

text \<open>The codings without an error; the error for the others is dropped by the caller.\<close>

definition parseEncodings :: "string \<Rightarrow> (string \<times> bool) list" where
  "parseEncodings s =
     fold (\<lambda>ss c. case parseCoding ss of (coding, q, err) \<Rightarrow> if err then c else gm_set coding q c) (split_on (CHR '','') s) []"

definition acceptsGzip :: "request \<Rightarrow> bool" where
  "acceptsGzip r \<longleftrightarrow> map_of (parseEncodings (lookup_str ''Accept-Encoding'' (rq_header r))) ''gzip'' = Some True"

section \<open>The handler\<close>

definition set_header :: "string \<Rightarrow> string \<Rightarrow> ('s, 'm) world \<Rightarrow> ('s, 'm) world" where
  "set_header k v w =
     (let r = w_rsp w in if rs_status r = None then w\<lparr>w_rsp := r\<lparr>rs_header := gm_set k v (rs_header r)\<rparr>\<rparr> else w)"

text \<open>The inner handler sees an empty body; what it wrote is put through the compressor. Closing the compressor
  writes to the response, so a header that has not gone out goes out then.\<close>

definition GzipHandler :: "(bytes \<Rightarrow> bytes) \<Rightarrow> (bytes \<Rightarrow> bytes) \<Rightarrow> ('s, 'm) handler \<Rightarrow> ('s, 'm) handler" where
  "GzipHandler gz gz_open h r w =
     (let w = set_header ''Vary'' ''Accept-Encoding'' w in
      if acceptsGzip r then
        let w = set_header ''Content-Encoding'' ''gzip'' w; body = rs_body (w_rsp w);
            (x, w') = h r (w\<lparr>w_rsp := (w_rsp w)\<lparr>rs_body := []\<rparr>\<rparr>); rsp = w_rsp w' in
        case x of
          Panic p \<Rightarrow> (x, w'\<lparr>w_rsp := rsp\<lparr>rs_body := body @ gz_open (rs_body rsp)\<rparr>\<rparr>)
        | _ \<Rightarrow> (x, w'\<lparr>w_rsp := rsp\<lparr>rs_status := Some (case rs_status rsp of None \<Rightarrow> 200 | Some c \<Rightarrow> c),
                                      rs_body := body @ gz (rs_body rsp)\<rparr>\<rparr>)
      else h r w)"

section \<open>What the wrapper leaves alone\<close>

lemma set_header_fields [simp]:
  "w_rows (set_header k v w) = w_rows w" "w_dbq (set_header k v w) = w_dbq w"
  "w_s3 (set_header k v w) = w_s3 w" "w_mc (set_header k v w) = w_mc w" "w_fs (set_header k v w) = w_fs w"
  "w_ctx (set_header k v w) = w_ctx w" "w_web (set_header k v w) = w_web w" "w_puts (set_header k v w) = w_puts w"
  "w_amqp (set_header k v w) = w_amqp w" "w_msgs (set_header k v w) = w_msgs w"
  by (simp_all add: set_header_def Let_def)

text \<open>Everything but the response is as if the inner handler had run alone, on a world that differs in the
  response only.\<close>

lemma GzipHandler_inner:
  "\<exists>rsp rsp'. GzipHandler gz gz_open h r w =
     (fst (h r (w\<lparr>w_rsp := rsp\<rparr>)), (snd (h r (w\<lparr>w_rsp := rsp\<rparr>)))\<lparr>w_rsp := rsp'\<rparr>)"
proof (cases "acceptsGzip r")
  case False
  have "GzipHandler gz gz_open h r w = h r (w\<lparr>w_rsp := w_rsp (set_header ''Vary'' ''Accept-Encoding'' w)\<rparr>)"
    using False by (simp add: GzipHandler_def set_header_def Let_def)
  then show ?thesis
    by (intro exI [of _ "w_rsp (set_header ''Vary'' ''Accept-Encoding'' w)"]
        exI [of _ "w_rsp (snd (h r (w\<lparr>w_rsp := w_rsp (set_header ''Vary'' ''Accept-Encoding'' w)\<rparr>)))"]) simp
next
  case True
  let ?v = "set_header ''Content-Encoding'' ''gzip'' (set_header ''Vary'' ''Accept-Encoding'' w)"
  let ?rsp = "(w_rsp ?v)\<lparr>rs_body := []\<rparr>"
  have v: "?v\<lparr>w_rsp := ?rsp\<rparr> = w\<lparr>w_rsp := ?rsp\<rparr>" by (simp add: set_header_def Let_def)
  obtain x w' where x: "h r (w\<lparr>w_rsp := ?rsp\<rparr>) = (x, w')" by fastforce
  have g: "GzipHandler gz gz_open h r w = (case x of
      Panic p \<Rightarrow> (x, w'\<lparr>w_rsp := (w_rsp w')\<lparr>rs_body := rs_body (w_rsp ?v) @ gz_open (rs_body (w_rsp w'))\<rparr>\<rparr>)
    | _ \<Rightarrow> (x, w'\<lparr>w_rsp := (w_rsp w')\<lparr>rs_status := Some (case rs_status (w_rsp w') of None \<Rightarrow> 200 | Some c \<Rightarrow> c),
                                      rs_body := rs_body (w_rsp ?v) @ gz (rs_body (w_rsp w'))\<rparr>\<rparr>))"
    unfolding GzipHandler_def Let_def v x using True by simp
  have "\<exists>rsp'. GzipHandler gz gz_open h r w = (x, w'\<lparr>w_rsp := rsp'\<rparr>)"
    unfolding g by (cases x) (simp_all, (rule exI, rule refl)+)
  then show ?thesis using x by (metis fst_conv snd_conv)
qed

end
