(* ===== verification/Router.thy ===== *)
theory Router
  imports Mux Gzip Push_Correct Pull_Correct Submit_Correct Healthcheck
begin

text \<open>
  The server as a whole: the routes of \<^verbatim>\<open>siphon/bundler/routes.go\<close> in the router of \<^verbatim>\<open>gorilla/mux\<close>, each
  handler behind the compression wrapper and, but for the health check, behind the handshake check.
  \<open>ServeHTTP\<close> is the router's entry point. The variables of the matched route are handed over in the
  request (in the source, in the request's context under the router's own keys); the context is cleared when
  the handler is done, also when it panics.

  The parameters beside \<open>env\<close>: the compressor, the regular expressions a template could give, and the text of
  a URL with its path replaced.
\<close>

section \<open>Start\<close>

definition filesTable :: string where "filesTable = ''files''"

definition OpenDB_url :: "('s, 'm) env \<Rightarrow> string" where
  "OpenDB_url env =
     ''postgres://'' @ getenv env ''POSTGRES_BUNDLER_ENV_POSTGRES_USER'' @ '':'' @
     getenv env ''POSTGRES_BUNDLER_ENV_POSTGRES_PASSWORD'' @ ''@'' @
     getenv env ''POSTGRES_BUNDLER_PORT_5432_TCP_ADDR'' @ ''/'' @
     getenv env ''POSTGRES_BUNDLER_ENV_POSTGRES_DB'' @ ''?sslmode=disable''"

text \<open>A statement of the schema: the rows are closed before the error is looked at, so a statement that fails
  ends in a nil pointer and not in the message that was meant.\<close>

definition create_query :: "('s, 'm) world \<Rightarrow> unit res \<times> ('s, 'm) world" where
  "create_query w =
     (case db_next w of
        (Q_fail e, w) \<Rightarrow> (Panic ''invalid memory address or nil pointer dereference'', w)
      | (Q_lost e, w) \<Rightarrow> (Panic ''invalid memory address or nil pointer dereference'', w)
      | (_, w) \<Rightarrow> (Ok (), w))"

definition column_indices :: "gomap" where
  "column_indices = [(''files_app_id_index'', ''app_id''), (''files_name_index'', ''name''),
     (''files_submission_id_index'', ''submission_id'')]"

definition CreateTables :: "('s, 'm) env \<Rightarrow> ('s, 'm) world \<Rightarrow> unit res \<times> ('s, 'm) world" where
  "CreateTables env w =
     andThen (create_query w) (\<lambda>_ w.
     andThen (create_query w) (\<lambda>_ w.
       for_each (\<lambda>_. create_query) (map_range env column_indices) w))"

section \<open>Routes\<close>

text \<open>\<^verbatim>\<open>router.Handle(path, h).Methods(...)\<close> appends a route; a route whose template is bad is kept with its error and never
  matches.\<close>

definition add_route :: "rx \<Rightarrow> string \<Rightarrow> string list \<Rightarrow> 'h \<Rightarrow> 'h Route list res \<Rightarrow> 'h Route list res" where
  "add_route rx path methods h rts =
     (case rts of
        Ok rs \<Rightarrow> (case Router_Handle rx path h of
            Ok r \<Rightarrow> Ok (rs @ [Route_Methods methods r]) | Fail e \<Rightarrow> Fail e | Panic p \<Rightarrow> Panic p)
      | x \<Rightarrow> x)"

definition initRouter ::
  "('s, 'm) env \<Rightarrow> (bytes \<Rightarrow> bytes) \<Rightarrow> (bytes \<Rightarrow> bytes) \<Rightarrow> rx \<Rightarrow> ('s, 'm) handler Route list res" where
  "initRouter env gz gz_open rx =
     add_route rx ''/v1/healthcheck/'' [''GET''] (GzipHandler gz gz_open (Healthcheck env))
    (add_route rx ''/v1/submit/{app_id}/'' [''POST''] (GzipHandler gz gz_open (AuthMiddleware env (Submit env)))
    (add_route rx ''/v1/pull/{app_id}/'' [''POST''] (GzipHandler gz gz_open (AuthMiddleware env (Pull env)))
    (add_route rx ''/v1/push/{app_id}/'' [''GET'', ''POST''] (GzipHandler gz gz_open (AuthMiddleware env (Push env)))
    (Ok []))))"

definition redirect :: "string \<Rightarrow> ('s, 'm) world \<Rightarrow> ('s, 'm) world" where
  "redirect url w =
     (let w = set_header ''Location'' url w; r = w_rsp w in
      w\<lparr>w_rsp := r\<lparr>rs_status := Some (case rs_status r of None \<Rightarrow> 301 | Some c \<Rightarrow> c)\<rparr>\<rparr>)"

definition ServeHTTP ::
  "rx \<Rightarrow> (request \<Rightarrow> string \<Rightarrow> string) \<Rightarrow> ('s, 'm) handler Route list \<Rightarrow> ('s, 'm) handler" where
  "ServeHTTP rx url_string routes r w =
     (if cleanPath (rq_path r) \<noteq> rq_path r then (Ok (), redirect (url_string r (cleanPath (rq_path r))) w)
      else
        let (found, m) = Router_Match rx r routes no_match;
            r' = r\<lparr>rq_vars := rm_Vars m\<rparr>;
            (x, w') = (case (if found then rm_Handler m else None) of
                None \<Rightarrow> (Ok (), http_Error ''404 page not found'' 404 w)
              | Some (Redirect p) \<Rightarrow> (Ok (), redirect (url_string r p) w)
              | Some (Handler h) \<Rightarrow> h r' w) in
        (x, w'\<lparr>w_ctx := context_Clear (rq_id r) (w_ctx w')\<rparr>))"

text \<open>\<^verbatim>\<open>Start\<close>: the schema, the bucket, then the router on an address, with TLS unless testing.\<close>

definition listen_address :: "('s, 'm) env \<Rightarrow> string \<times> bool" where
  "listen_address env = (if getenv env ''SIPHON_ENV'' = ''testing'' then ('':8000'', False) else ('':443'', True))"

definition Start :: "('s, 'm) env \<Rightarrow> ('s, 'm) world \<Rightarrow> (string \<times> bool) res \<times> ('s, 'm) world" where
  "Start env w =
     andThen (CreateTables env w) (\<lambda>_ w.
     or_default () (CreateBuckets env w) (\<lambda>_ w. (Ok (listen_address env), w)))"

section \<open>Dispatch\<close>

text \<open>The routes the router holds.\<close>

definition bundler_routes ::
  "('s, 'm) env \<Rightarrow> (bytes \<Rightarrow> bytes) \<Rightarrow> (bytes \<Rightarrow> bytes) \<Rightarrow> ('s, 'm) handler Route list" where
  "bundler_routes env gz gz_open =
     [path_route (var_regexp ''/v1/push/'' ''app_id'') [''GET'', ''POST''] (GzipHandler gz gz_open (AuthMiddleware env (Push env))),
      path_route (var_regexp ''/v1/pull/'' ''app_id'') [''POST''] (GzipHandler gz gz_open (AuthMiddleware env (Pull env))),
      path_route (var_regexp ''/v1/submit/'' ''app_id'') [''POST''] (GzipHandler gz gz_open (AuthMiddleware env (Submit env))),
      path_route (lit_regexp ''/v1/healthcheck/'') [''GET''] (GzipHandler gz gz_open (Healthcheck env))]"

lemma add_route_Ok:
  assumes "newRouteRegexp rx tpl False False False False = Ok rr" and "prefix ''/'' tpl"
  shows "add_route rx tpl ms h (Ok rs) = Ok (rs @ [path_route rr (map (map ascii_upper) ms) h])"
proof -
  obtain r where r: "Router_Handle rx tpl h = Ok r" using Handle_Methods(2) [OF assms, of h] by blast
  then show ?thesis using Handle_Methods(1) [OF assms r] by (simp add: add_route_def)
qed

lemma initRouter_routes: "initRouter env gz gz_open rx = Ok (bundler_routes env gz gz_open)"
proof -
  have v: "newRouteRegexp rx (pre @ ''{app_id}/'') False False False False = Ok (var_regexp pre ''app_id'')"
    if "CHR ''{'' \<notin> set pre" "CHR ''}'' \<notin> set pre" for pre
    using newRouteRegexp_var [OF that, of "''app_id''" rx] by simp
  have t: "newRouteRegexp rx ''/v1/push/{app_id}/'' False False False False = Ok (var_regexp ''/v1/push/'' ''app_id'')"
    "newRouteRegexp rx ''/v1/pull/{app_id}/'' False False False False = Ok (var_regexp ''/v1/pull/'' ''app_id'')"
    "newRouteRegexp rx ''/v1/submit/{app_id}/'' False False False False = Ok (var_regexp ''/v1/submit/'' ''app_id'')"
    using v [of "''/v1/push/''"] v [of "''/v1/pull/''"] v [of "''/v1/submit/''"] by simp_all
  have h: "newRouteRegexp rx ''/v1/healthcheck/'' False False False False = Ok (lit_regexp ''/v1/healthcheck/'')"
    by (rule newRouteRegexp_lit) simp_all
  have up: "map (map ascii_upper) [''GET'', ''POST''] = [''GET'', ''POST'']" "map (map ascii_upper) [''POST''] = [''POST'']"
    "map (map ascii_upper) [''GET''] = [''GET'']"
    by code_simp+
  have r: "prefix ''/'' ''/v1/push/{app_id}/''" "prefix ''/'' ''/v1/pull/{app_id}/''" "prefix ''/'' ''/v1/submit/{app_id}/''"
    "prefix ''/'' ''/v1/healthcheck/''"
    by simp_all
  show ?thesis
    unfolding initRouter_def bundler_routes_def
      add_route_Ok [OF t(1) r(1)] add_route_Ok [OF t(2) r(2)] add_route_Ok [OF t(3) r(3)] add_route_Ok [OF h r(4)] up append.simps
    by (rule refl)
qed

text \<open>Which handler a request reaches. The paths of the four routes are disjoint, so the order does not matter.\<close>

definition app_path :: "string \<Rightarrow> string \<Rightarrow> string" where
  "app_path action app = ''/v1/'' @ action @ ''/'' @ app @ ''/''"

definition endpoints ::
  "('s, 'm) env \<Rightarrow> (string \<times> string list \<times> ('s, 'm) handler) list" where
  "endpoints env = [(''push'', [''GET'', ''POST''], Push env), (''pull'', [''POST''], Pull env), (''submit'', [''POST''], Submit env)]"

lemma strict_simps: "\<not> rr_strictSlash (var_regexp pre n)" "\<not> rr_strictSlash (lit_regexp p)"
  by (simp_all add: var_regexp_def lit_regexp_def)

lemmas match_simps = path_route_Match [OF strict_simps(1)] path_route_Match [OF strict_simps(2)] var_regexp_Match lit_regexp_Match lit_vars

text \<open>A request for an app: the three handlers by action and method.\<close>

lemma dispatch_app:
  assumes "segment app" and "rq_path r = app_path action app" and "(action, ms, h) \<in> set (endpoints env)"
  shows "Router_Match rx r (bundler_routes env gz gz_open) no_match =
    (if rq_method r \<in> set ms
     then (True, \<lparr>rm_Handler = Some (Handler (GzipHandler gz gz_open (AuthMiddleware env h))), rm_Vars = [(''app_id'', app)]\<rparr>)
     else (False, no_match))"
  using assms
  by (auto simp: bundler_routes_def match_simps endpoints_def app_path_def
      intro!: var_vars)

lemma dispatch_health:
  assumes "rq_path r = ''/v1/healthcheck/''"
  shows "Router_Match rx r (bundler_routes env gz gz_open) no_match =
    (if rq_method r = ''GET'' then (True, \<lparr>rm_Handler = Some (Handler (GzipHandler gz gz_open (Healthcheck env))), rm_Vars = []\<rparr>)
     else (False, no_match))"
  using assms by (auto simp: bundler_routes_def match_simps)

lemma dispatch_other:
  assumes "\<And>action app. action \<in> set validActions \<Longrightarrow> segment app \<Longrightarrow> rq_path r \<noteq> app_path action app"
    and "rq_path r \<noteq> ''/v1/healthcheck/''"
  shows "Router_Match rx r (bundler_routes env gz gz_open) no_match = (False, no_match)"
proof -
  have "rq_path r \<noteq> ''/v1/push/'' @ app @ ''/''" "rq_path r \<noteq> ''/v1/pull/'' @ app @ ''/''" "rq_path r \<noteq> ''/v1/submit/'' @ app @ ''/''"
    if "segment app" for app
    using assms(1) [OF _ that, of "''push''"] assms(1) [OF _ that, of "''pull''"] assms(1) [OF _ that, of "''submit''"]
    by (simp_all add: app_path_def validActions_def)
  then show ?thesis using assms(2) by (simp add: bundler_routes_def match_simps)
qed

end
