(* ===== verification/Router_Correct.thy ===== *)
theory Router_Correct
  imports Router
begin

text \<open>
  What a request can do to the file table, over the whole server: a request that changes it went to the push
  or the submit endpoint of an app with a handshake for that app and that action, and the rows of every other
  app are as before. The request's context is empty afterwards.
\<close>

section \<open>Handlers that only read\<close>

lemma pull_steps_rows [rows_same]:
  "w_rows (snd (assertNotEmpty env a w)) = w_rows w" "w_rows (snd (getAssetFiles env a w)) = w_rows w"
  "w_rows (snd (writeAssetsListing env a w)) = w_rows w" "w_rows (snd (writeZip env a w)) = w_rows w"
  "w_rows (snd (pull_error e w)) = w_rows w" "w_rows (pa_close a w) = w_rows w" "w_rows (snd (put_asset p b w)) = w_rows w"
  "w_rows (snd (newPullArchive env app sub w)) = w_rows w"
proof -
  let ?Q = "\<lambda>v :: ('a, 'b) world. w_rows v = w_rows w"
  show "w_rows (snd (assertNotEmpty env a w)) = w_rows w"
    unfolding assertNotEmpty_def by (intro andThen_keeps [where Q = ?Q]) (auto simp: rows_same)
  have "assetsLike \<noteq> []" by (simp add: assetsLike_def)
  then show "w_rows (snd (getAssetFiles env a w)) = w_rows w"
    unfolding getAssetFiles_def GetSliceFilteredFiles_def
    by (intro andThen_keeps [where Q = ?Q]) (simp_all add: select_files_frame)
  show "w_rows (snd (newPullArchive env app sub w)) = w_rows w"
    unfolding newPullArchive_def
  proof (rule andThen_keeps [where Q = ?Q])
    fix d v assume v: "?Q v"
    show "?Q (snd (andThen (NewCache env app sub v) (\<lambda>cache w.
       (Ok \<lparr>pa_appID = app, pa_submissionID = sub, pa_tempDir = d, pa_assetFiles = [], pa_cache = cache\<rparr>, w))))"
      by (intro andThen_keeps [where Q = ?Q]) (simp_all add: rows_same v)
  qed (simp add: rows_same)
  show "w_rows (snd (writeZip env a w)) = w_rows w" by (simp add: writeZip_def Let_def case_prod_unfold)
  show "w_rows (snd (pull_error e w)) = w_rows w" by (simp add: pull_error_def)
  show "w_rows (pa_close a w) = w_rows w" by (simp add: pa_close_def rows_same)
  show "w_rows (snd (put_asset p b w)) = w_rows w" "w_rows (snd (writeAssetsListing env a w)) = w_rows w"
    by (auto simp: put_asset_def writeAssetsListing_def Let_def split: prod.split option.split sum.split)
qed

lemma pull_loops_rows [rows_same]:
  "w_rows (snd (writeAssets env a hs w)) = w_rows w" "w_rows (snd (writeBundleFooter env a pl w)) = w_rows w"
proof -
  let ?Q = "\<lambda>v :: ('a, 'b) world. w_rows v = w_rows w"
  have "?Q (snd (write_asset env a hs e v))" if "?Q v" for e v
    unfolding write_asset_def Let_def case_prod_unfold using that
    by (auto intro!: andThen_keeps [where Q = ?Q] simp: rows_same)
  then show "w_rows (snd (writeAssets env a hs w)) = w_rows w"
    unfolding writeAssets_def by (intro for_each_keeps [where Q = ?Q]) auto
  show "w_rows (snd (writeBundleFooter env a pl w)) = w_rows w"
    unfolding writeBundleFooter_def GetBundleFooter_def
    by (intro andThen_keeps [where Q = ?Q] on_keeps [where Q = ?Q]) (auto simp: rows_same split: sum.split)
qed

lemma pull_body_rows [rows_same]: "w_rows (snd (pull_body env a hs pl w)) = w_rows w"
  unfolding pull_body_def
  by (intro on_keeps [where Q = "\<lambda>v. w_rows v = w_rows w"]) (simp_all add: rows_same)

lemma Pull_rows [rows_same]: "w_rows (snd (Pull env r w)) = w_rows w"
proof -
  let ?Q = "\<lambda>v :: ('a, 'b) world. w_rows v = w_rows w"
  have "?Q (snd (on (newPullArchive env app sub w) (\<lambda>e w. (Panic p, w)) (\<lambda>a w. let (x, w) = pull_body env a hs pl w in (x, pa_close a w))))"
    for app sub hs pl p
    by (intro on_keeps [where Q = ?Q]) (simp_all add: rows_same Let_def case_prod_unfold)
  then show ?thesis by (simp add: Pull_def ctx_string_def Let_def split: sum.split option.split)
qed

lemma GetKey_rows [rows_same]: "w_rows (snd (GetKey env b k w)) = w_rows w"
  using S3_store_frame(3) store_frameD(1) by blast

lemma MakeJSONHashes_rows [rows_same]: "w_rows (snd (MakeJSONHashes env app w)) = w_rows w"
  by (simp add: MakeJSONHashes_def rows_same)

lemma Healthcheck_rows [rows_same]: "w_rows (snd (Healthcheck env r w)) = w_rows w"
proof -
  have say: "w_rows (snd (health_say s v)) = w_rows v" for s and v :: "('a, 'b) world" by (simp add: health_say_def)
  show ?thesis
    unfolding Healthcheck_def Let_def
    by (intro on_keeps [where Q = "\<lambda>v. w_rows v = w_rows w"])
      (auto simp: rows_same say split: sum.split intro!: on_keeps [where Q = "\<lambda>v. w_rows v = w_rows w"])
qed

section \<open>A request\<close>

definition serve ::
  "('s, 'm) env \<Rightarrow> (bytes \<Rightarrow> bytes) \<Rightarrow> (bytes \<Rightarrow> bytes) \<Rightarrow> rx \<Rightarrow> (request \<Rightarrow> string \<Rightarrow> string) \<Rightarrow> ('s, 'm) handler" where
  "serve env gz gz_open rx url_string r w =
     (case initRouter env gz gz_open rx of
        Ok routes \<Rightarrow> ServeHTTP rx url_string routes r w | Fail e \<Rightarrow> (Fail e, w) | Panic p \<Rightarrow> (Panic p, w))"

lemma serve_routes: "serve env gz gz_open rx url_string r w = ServeHTTP rx url_string (bundler_routes env gz gz_open) r w"
  by (simp add: serve_def initRouter_routes)

lemma redirect_fields [simp]: "w_rows (redirect u w) = w_rows w" "w_ctx (redirect u w) = w_ctx w"
  by (simp_all add: redirect_def Let_def)

text \<open>The handler the router chose, and the world without the context.\<close>

lemma ServeHTTP_handler:
  assumes "cleanPath (rq_path r) = rq_path r"
    and "Router_Match rx r routes no_match = (True, \<lparr>rm_Handler = Some (Handler h), rm_Vars = vs\<rparr>)"
  shows "w_rows (snd (ServeHTTP rx url_string routes r w)) = w_rows (snd (h (r\<lparr>rq_vars := vs\<rparr>) w))"
  using assms by (simp add: ServeHTTP_def Let_def case_prod_unfold)

lemma ServeHTTP_none:
  assumes "Router_Match rx r routes no_match = (False, no_match)"
  shows "w_rows (snd (ServeHTTP rx url_string routes r w)) = w_rows w"
  using assms by (simp add: ServeHTTP_def Let_def)

lemma ServeHTTP_redirect:
  "cleanPath (rq_path r) \<noteq> rq_path r \<Longrightarrow> w_rows (snd (ServeHTTP rx url_string routes r w)) = w_rows w"
  by (simp add: ServeHTTP_def)

lemma ServeHTTP_clears:
  assumes "\<And>k. ctx_get r k w = None"
  shows "ctx_get r k (snd (ServeHTTP rx url_string routes r w)) = None"
  using assms by (simp add: ServeHTTP_def Let_def case_prod_unfold ctx_get_def)

lemma authentic_vars [simp]:
  "authentic env (r\<lparr>rq_vars := vs\<rparr>) fs obj = authentic env r fs obj"
  by (simp add: authentic_def FormValue_def)

text \<open>Behind the compression and the handshake check: nothing happens to the table unless the handshake allows it.\<close>

lemma guarded_rows:
  assumes "\<And>obj v. authentic env r (w_fs w) obj \<Longrightarrow> authorized r obj \<Longrightarrow> w_rows v = w_rows w \<Longrightarrow>
      ctx_get r AppIDKey v = Some (hs_AppID obj) \<Longrightarrow> Q (w_rows (snd (h r v)))"
    and "Q (w_rows w)"
  shows "Q (w_rows (snd (GzipHandler gz gz_open (AuthMiddleware env h) r w)))"
proof -
  obtain rsp rsp' where g: "GzipHandler gz gz_open (AuthMiddleware env h) r w =
      (fst (AuthMiddleware env h r (w\<lparr>w_rsp := rsp\<rparr>)), (snd (AuthMiddleware env h r (w\<lparr>w_rsp := rsp\<rparr>)))\<lparr>w_rsp := rsp'\<rparr>)"
    using GzipHandler_inner [of gz gz_open "AuthMiddleware env h" r w] by blast
  let ?w = "w\<lparr>w_rsp := rsp\<rparr>"
  have "Q (w_rows (snd (AuthMiddleware env h r ?w)))"
  proof (cases "\<exists>obj. authentic env r (w_fs ?w) obj \<and> authorized r obj")
    case True
    then obtain obj where o: "authentic env r (w_fs ?w) obj" "authorized r obj" by blast
    have "w_rows (identify env r obj ?w) = w_rows w" "ctx_get r AppIDKey (identify env r obj ?w) = Some (hs_AppID obj)"
      using o(2) by (auto simp: identify_def Let_def authorized_def ctx_keys)
    then show ?thesis using assms(1) [of obj "identify env r obj ?w"] o AuthMiddleware_runs [OF o, of h] by simp
  next
    case False
    obtain x w' where x: "AuthMiddleware env h r ?w = (x, w')" by fastforce
    have "rejected r ?w w'" using AuthMiddleware_refuses [OF False x] by blast
    then have "w_rows w' = w_rows w" by (cases w; cases w') (simp add: rejected_def)
    then show ?thesis using x assms(2) by simp
  qed
  then show ?thesis by (simp add: g)
qed

text \<open>The action of the handshake is the one of the path.\<close>

lemma action_of_path:
  assumes "a \<in> set validActions" "prefix (action_path a) (app_path b app)" "b \<in> set validActions"
  shows "a = b"
  using assms by (auto simp: validActions_def action_path_def app_path_def)

definition foreign :: "string \<Rightarrow> row list \<Rightarrow> row list" where
  "foreign app rows = filter (\<lambda>x. r_app x \<noteq> app) rows"

lemma foreign_other_rows: "other_rows app sub a = other_rows app sub b \<Longrightarrow> foreign app a = foreign app b"
proof -
  have "foreign app x = filter (\<lambda>x. r_app x \<noteq> app) (other_rows app sub x)" for x
    by (induction x) (auto simp: foreign_def other_rows_def in_ns_def)
  then show "other_rows app sub a = other_rows app sub b \<Longrightarrow> foreign app a = foreign app b" by simp
qed

definition may_write :: "('s, 'm) env \<Rightarrow> request \<Rightarrow> fsys \<Rightarrow> string \<Rightarrow> bool" where
  "may_write env r fs app \<longleftrightarrow>
     (\<exists>action \<in> {''push'', ''submit''}. \<exists>obj. segment app \<and> rq_path r = app_path action app \<and> rq_method r = ''POST'' \<and>
        authentic env r fs obj \<and> hs_Action obj = action \<and> hs_AppID obj = app)"

lemma push_get_rows: "rq_method r = ''GET'' \<Longrightarrow> w_rows (snd (Push env r w)) = w_rows w"
proof -
  assume g: "rq_method r = ''GET''"
  have "w_rows (snd (writeHashesResponse env app w)) = w_rows w" for app
    unfolding writeHashesResponse_def Let_def
    by (rule on_keeps [where Q = "\<lambda>v. w_rows v = w_rows w"]) (auto simp: rows_same)
  then show ?thesis using g by (auto simp: Push_def ctx_string_def split: option.split)
qed

text \<open>What holds of the table and is kept by the two handlers that write, run for an app that the handshake allows, is kept
  by the endpoint, and by the server.\<close>

lemma endpoint_keeps:
  fixes env :: "('s, 'm) env"
  assumes "(action, ms, h) \<in> set (endpoints env)" and "segment app" and "rq_path r = app_path action app" and "rq_method r \<in> set ms"
    and "Q (w_rows w)"
    and push: "\<And>r' v. may_write env r (w_fs w) app \<Longrightarrow> w_rows v = w_rows w \<Longrightarrow> ctx_get r' AppIDKey v = Some app \<Longrightarrow> Q (w_rows (snd (Push env r' v)))"
    and submit: "\<And>r' v. may_write env r (w_fs w) app \<Longrightarrow> w_rows v = w_rows w \<Longrightarrow> ctx_get r' AppIDKey v = Some app \<Longrightarrow> Q (w_rows (snd (Submit env r' v)))"
  shows "Q (w_rows (snd (GzipHandler gz gz_open (AuthMiddleware env h) (r\<lparr>rq_vars := [(''app_id'', app)]\<rparr>) w)))"
    (is "Q (w_rows (snd (GzipHandler gz gz_open (AuthMiddleware env h) ?r w)))")
proof (rule guarded_rows [where Q = Q, OF _ assms(5)])
  fix obj and v :: "('s, 'm) world"
  assume a: "authentic env ?r (w_fs w) obj" and z: "authorized ?r obj" and v: "w_rows v = w_rows w"
    and c: "ctx_get ?r AppIDKey v = Some (hs_AppID obj)"
  have act: "action \<in> set validActions" using assms(1) by (auto simp: endpoints_def validActions_def)
  have app: "hs_AppID obj = app" "hs_Action obj = action"
    using z assms(3) action_of_path [OF _ _ act, of "hs_Action obj" app] by (auto simp: authorized_def lookup_str_def)
  have may: "action \<in> {''push'', ''submit''} \<Longrightarrow> rq_method r = ''POST'' \<Longrightarrow> may_write env r (w_fs w) app"
    using a app assms(2,3) by (auto simp: may_write_def)
  consider "h = Push env" "rq_method r = ''GET''" | "h = Push env" "action = ''push''" "rq_method r = ''POST''"
    | "h = Pull env" | "h = Submit env" "action = ''submit''" "rq_method r = ''POST''"
    using assms(1,4) by (auto simp: endpoints_def)
  then show "Q (w_rows (snd (h ?r v)))"
  proof cases
    case 1
    then show ?thesis using push_get_rows [of ?r env v] v assms(5) by simp
  next
    case 2
    then show ?thesis using push [OF may v c [unfolded app(1)]] by simp
  next
    case 3
    then show ?thesis using Pull_rows [of env ?r v] v assms(5) by simp
  next
    case 4
    then show ?thesis using submit [OF may v c [unfolded app(1)]] by simp
  qed
qed

lemma serve_keeps:
  assumes "Q (w_rows w)"
    and push: "\<And>app r' v. may_write env r (w_fs w) app \<Longrightarrow> w_rows v = w_rows w \<Longrightarrow> ctx_get r' AppIDKey v = Some app \<Longrightarrow> Q (w_rows (snd (Push env r' v)))"
    and submit: "\<And>app r' v. may_write env r (w_fs w) app \<Longrightarrow> w_rows v = w_rows w \<Longrightarrow> ctx_get r' AppIDKey v = Some app \<Longrightarrow> Q (w_rows (snd (Submit env r' v)))"
  shows "Q (w_rows (snd (serve env gz gz_open rx url_string r w)))"
proof (cases "cleanPath (rq_path r) = rq_path r")
  case False
  then show ?thesis using assms(1) by (simp add: serve_routes ServeHTTP_redirect)
next
  case clean: True
  note run = ServeHTTP_handler [OF clean, of rx "bundler_routes env gz gz_open" _ _ url_string w]
  consider (app) action ms h app where "(action, ms, h) \<in> set (endpoints env)" "segment app" "rq_path r = app_path action app"
    | (health) "rq_path r = ''/v1/healthcheck/''"
    | (other) "\<And>action app. action \<in> set validActions \<Longrightarrow> segment app \<Longrightarrow> rq_path r \<noteq> app_path action app" "rq_path r \<noteq> ''/v1/healthcheck/''"
  proof -
    have "\<exists>ms h. (action, ms, h) \<in> set (endpoints env)" if "action \<in> set validActions" for action
      using that by (auto simp: endpoints_def validActions_def)
    then show thesis using app health other by blast
  qed
  then show ?thesis
  proof cases
    case app
    have "Q (w_rows (snd (GzipHandler gz gz_open (AuthMiddleware env h) (r\<lparr>rq_vars := [(''app_id'', app)]\<rparr>) w)))" if "rq_method r \<in> set ms"
      by (rule endpoint_keeps [where Q = Q, OF app that assms(1)]) (use push submit in blast)+
    then show ?thesis
      using run dispatch_app [OF app(2,3,1), of rx gz gz_open] assms(1)
      by (cases "rq_method r \<in> set ms") (simp_all add: serve_routes ServeHTTP_none)
  next
    case health
    have "w_rows (snd (GzipHandler gz gz_open (Healthcheck env) r' w)) = w_rows w" for r'
      using GzipHandler_inner [of gz gz_open "Healthcheck env" r' w] by (auto simp: Healthcheck_rows)
    then show ?thesis
      using run dispatch_health [OF health, of rx env gz gz_open] assms(1)
      by (cases "rq_method r = ''GET''") (simp_all add: serve_routes ServeHTTP_none)
  next
    case other
    then show ?thesis using dispatch_other [of r rx env gz gz_open] assms(1) by (simp add: serve_routes ServeHTTP_none)
  qed
qed

lemma serve_rows:
  assumes "range_law env" and "rows_ok (w_rows w)" and "\<forall>x \<in> set (w_rows w). row_safe x"
  shows "w_rows (snd (serve env gz gz_open rx url_string r w)) = w_rows w \<or>
    (\<exists>app. may_write env r (w_fs w) app \<and> foreign app (w_rows (snd (serve env gz gz_open rx url_string r w))) = foreign app (w_rows w))"
proof (rule serve_keeps [where Q = "\<lambda>rows. rows = w_rows w \<or> (\<exists>app. may_write env r (w_fs w) app \<and> foreign app rows = foreign app (w_rows w))"],
    goal_cases)
  case (2 app r' v)
  have "push_inv app (w_rows w) (w_rows v)" using assms(2,3) 2(2) by (simp add: push_inv_def)
  from Push_inv [OF assms(1) 2(3) this] have "foreign app (w_rows (snd (Push env r' v))) = foreign app (w_rows w)"
    unfolding push_inv_def using foreign_other_rows by blast
  then show ?case using 2(1) by blast
next
  case (3 app r' v)
  from foreign_other_rows [OF Submit_other [OF 3(3) refl, of env]] show ?case using 3(1,2) by metis
qed simp

end
