(* ===== verification/Server_Runs.thy ===== *)
theory Server_Runs
  imports Router_Correct
begin

text \<open>
  The server over time. Between requests anything may happen outside the table (memcached drops entries, objects
  come and go, the file system changes, the next queries fail or succeed), and every request may meet another
  environment. Whatever the sequence, the table stays well-formed with safe names, and the rows of a
  submission never change once there is one.
\<close>

section \<open>What one request keeps\<close>

definition table_ok :: "row list \<Rightarrow> bool" where
  "table_ok rows \<longleftrightarrow> rows_ok rows \<and> (\<forall>x \<in> set rows. row_safe x)"

definition submitted :: "string \<Rightarrow> row list \<Rightarrow> row list" where
  "submitted s rows = filter (\<lambda>x. r_sub x = Some s) rows"

lemma submitted_other_rows:
  assumes "other_rows app sub a = other_rows app sub b" and "s \<noteq> []" and "s \<noteq> sub"
  shows "submitted s a = submitted s b"
proof -
  have "submitted s x = filter (\<lambda>y. r_sub y = Some s) (other_rows app sub x)" for x
    using assms(2,3) by (induction x) (auto simp: submitted_def other_rows_def in_ns_def sub_is_def)
  then show ?thesis using assms(1) by simp
qed

text \<open>The files a query for an app gives are rows of it, also when the answer was cut off.\<close>

lemma GetFiles_from_rows:
  assumes "GetFiles env app [] w = (Ok files, w')"
  shows "\<forall>e \<in> set files. \<exists>x \<in> set (w_rows w). r_name x = fst e \<and> r_hash x = snd e"
proof -
  obtain rs where rs: "set rs \<subseteq> {r \<in> set (w_rows w). in_ns app [] r \<and> sql_like ''%'' (r_name r)}" "files = scan_rows rs"
    using select_files_scan [of env app "[]" _ w files w'] assms by (auto simp: GetFiles_def GetFilteredFiles_def)
  have "set files \<subseteq> (\<lambda>r. (r_name r, r_hash r)) ` set rs"
    using gm_fold_subset [of "map (\<lambda>r. (r_name r, r_hash r)) rs" "[]"] by (simp add: rs(2) scan_rows_def gm_of_def)
  then show ?thesis using rs(1) by fastforce
qed

lemma MakeSnapshot_table_ok:
  fixes env :: "('s, 'm) env"
  assumes "range_law env" and "table_ok (w_rows w)"
  shows "table_ok (w_rows (snd (MakeSnapshot env app sub w)))"
  unfolding MakeSnapshot_snap_row
proof (rule on_keeps [where Q = "\<lambda>v. table_ok (w_rows v)"])
  have rows: "w_rows (snd (GetFiles env app [] w)) = w_rows w" using GetFiles_frame by blast
  then show "table_ok (w_rows (snd (GetFiles env app [] w)))" using assms(2) by simp
  fix files v assume g: "GetFiles env app [] w = (Ok files, v)" and v: "table_ok (w_rows v)"
  have safe: "\<not> sublist ''../'' (fst e) \<and> snd e \<noteq> []" if "e \<in> set (map_range env files)" for e
  proof -
    have "e \<in> set files" using that assms(1) by (metis range_law_def mset_eq_setD)
    then obtain x where "x \<in> set (w_rows w)" "r_name x = fst e" "r_hash x = snd e" using GetFiles_from_rows [OF g] by blast
    then have "row_safe x" "r_name x = fst e" "r_hash x = snd e" using assms(2) unfolding table_ok_def by blast+
    then show ?thesis unfolding row_safe_def by simp
  qed
  show "table_ok (w_rows (snd (for_each (snap_row app sub) (map_range env files) v)))"
  proof (rule for_each_keeps [where Q = "\<lambda>v. table_ok (w_rows v)", OF _ v])
    fix e and u :: "('s, 'm) world" assume e: "e \<in> set (map_range env files)" and u: "table_ok (w_rows u)"
    obtain r u' where op: "AddFile app sub (fst e) (snd e) u = (r, u')" by fastforce
    have "rows_ok (w_rows u')" using AddFile_rows_ok [OF op] u by (simp add: table_ok_def)
    moreover have "\<forall>x \<in> set (w_rows u'). row_safe x"
      using op u safe [OF e] by (elim AddFile_cases) (auto simp: table_ok_def row_safe_def)
    ultimately show "table_ok (w_rows (snd (snap_row app sub e u)))" by (cases r) (simp_all add: snap_row_def op table_ok_def)
  qed
qed simp

lemma submit_handle_table_ok:
  assumes "range_law env" and "table_ok (w_rows w)"
  shows "table_ok (w_rows (snd (submit_handle env h r w)))"
proof -
  let ?Q = "\<lambda>v :: ('a, 'b) world. table_ok (w_rows v)"
  have q: "?Q v" if "quiet u v" "?Q u" for u v using that by (simp add: quiet_def)
  have "?Q (snd (submit_steps env h r w))"
    unfolding submit_steps_def Let_def
    by (intro andThen_keeps [where Q = ?Q] MakeSnapshot_table_ok [OF assms(1)])
      (use q [OF copyFiles_quiet] q [OF sh_loadMetaData_quiet] q [OF makeBundleFooter_quiet] assms(2) in blast)+
  then show ?thesis unfolding submit_handle_def by (intro on_keeps [where Q = ?Q]) (simp_all add: sh_internalError_def)
qed

lemma Submit_table_ok:
  assumes "range_law env" and "table_ok (w_rows w)" and "ctx_get r AppIDKey w = Some app"
  shows "table_ok (w_rows (snd (Submit env r w)))"
proof (rule Submit_cases [OF assms(3) refl, of env])
  assume "answered w (snd (Submit env r w))"
  then show ?thesis using assms(2) by (simp add: answered_rows)
next
  fix h v assume run: "Submit env r w = submit_handle env h r v" and v: "v = w\<lparr>w_dbq := w_dbq v\<rparr>"
  show ?thesis unfolding run by (rule submit_handle_table_ok [OF assms(1)]) (use dbq_rows [OF v] assms(2) in simp)
qed

lemma Push_table:
  assumes "range_law env" and "table_ok (w_rows w)" and "ctx_get r AppIDKey w = Some app"
  shows "table_ok (w_rows (snd (Push env r w)))" and "s \<noteq> [] \<Longrightarrow> submitted s (w_rows (snd (Push env r w))) = submitted s (w_rows w)"
proof -
  have "push_inv app (w_rows w) (w_rows w)" using assms(2) by (simp add: push_inv_def table_ok_def)
  note inv = Push_inv [OF assms(1,3) this, unfolded push_inv_def]
  have "row_safe x" if "x \<in> set (w_rows (snd (Push env r w)))" for x
  proof (cases "in_ns app [] x")
    case False
    then have "x \<in> set (other_rows app [] (w_rows (snd (Push env r w))))" using that by (simp add: other_rows_def)
    then have "x \<in> set (other_rows app [] (w_rows w))" using inv by simp
    then show ?thesis using assms(2) by (simp add: other_rows_def table_ok_def)
  qed (use that inv in blast)
  then show "table_ok (w_rows (snd (Push env r w)))" using inv by (simp add: table_ok_def)
  show "s \<noteq> [] \<Longrightarrow> submitted s (w_rows (snd (Push env r w))) = submitted s (w_rows w)"
    using submitted_other_rows inv by blast
qed

lemma Submit_submitted:
  assumes "ctx_get r AppIDKey w = Some app" and "s \<noteq> []" and "submitted s (w_rows w) \<noteq> []"
  shows "submitted s (w_rows (snd (Submit env r w))) = submitted s (w_rows w)"
proof (cases "s = PostFormValue r ''submission_id''")
  case True
  obtain x where "x \<in> set (w_rows w)" "r_sub x = Some s" using assms(3) by (auto simp: submitted_def filter_empty_conv)
  then show ?thesis using Submit_immutable [OF assms(1), of x env] True by (simp add: answered_rows)
next
  case False
  then show ?thesis using submitted_other_rows [OF Submit_other [OF assms(1) refl]] assms(2) by blast
qed

lemma serve_table:
  assumes "range_law env" and "table_ok (w_rows w)"
  shows "table_ok (w_rows (snd (serve env gz gz_open rx url_string r w)))"
    and "s \<noteq> [] \<Longrightarrow> submitted s (w_rows w) \<noteq> [] \<Longrightarrow>
      submitted s (w_rows (snd (serve env gz gz_open rx url_string r w))) = submitted s (w_rows w)"
proof -
  show "table_ok (w_rows (snd (serve env gz gz_open rx url_string r w)))"
    by (rule serve_keeps [where Q = table_ok]) (use assms Push_table(1) Submit_table_ok in metis)+
  show "submitted s (w_rows (snd (serve env gz gz_open rx url_string r w))) = submitted s (w_rows w)"
    if "s \<noteq> []" "submitted s (w_rows w) \<noteq> []"
    by (rule serve_keeps [where Q = "\<lambda>rows. submitted s rows = submitted s (w_rows w)"])
      (use assms that Push_table(2) Submit_submitted in metis)+
qed

section \<open>Runs\<close>

inductive server_run ::
  "(bytes \<Rightarrow> bytes) \<Rightarrow> (bytes \<Rightarrow> bytes) \<Rightarrow> rx \<Rightarrow> (request \<Rightarrow> string \<Rightarrow> string) \<Rightarrow> ('s, 'm) world \<Rightarrow> ('s, 'm) world \<Rightarrow> bool"
  for gz gz_open rx url_string w where
  run_start: "server_run gz gz_open rx url_string w w"
| run_outside: "server_run gz gz_open rx url_string w v \<Longrightarrow> w_rows v' = w_rows v \<Longrightarrow> server_run gz gz_open rx url_string w v'"
| run_request: "server_run gz gz_open rx url_string w v \<Longrightarrow> range_law env \<Longrightarrow> serve env gz gz_open rx url_string r v = (x, v') \<Longrightarrow>
    server_run gz gz_open rx url_string w v'"

lemma run_table_ok: "server_run gz gz_open rx url_string w v \<Longrightarrow> table_ok (w_rows w) \<Longrightarrow> table_ok (w_rows v)"
proof (induction rule: server_run.induct)
  case (run_request v env r x v')
  then show ?case using serve_table(1) [of env v gz gz_open rx url_string r] by simp
qed simp_all

lemma run_submitted:
  assumes "server_run gz gz_open rx url_string w v" and "table_ok (w_rows w)" and "s \<noteq> []" and "submitted s (w_rows w) \<noteq> []"
  shows "submitted s (w_rows v) = submitted s (w_rows w)"
  using assms
proof (induction rule: server_run.induct)
  case (run_request v env r x v')
  then show ?case
    using serve_table(2) [of env v s gz gz_open rx url_string r] run_table_ok [OF run_request.hyps(1)] by simp
qed simp_all

end
