(* ===== verification/Claims_Server.thy ===== *)
theory Claims_Server
  imports Server_Runs Demo
begin

text \<open>
  The properties of the server as a whole: which requests can change the table and how, that nothing of a request stays
  behind, which handler a path leads to, and what the router does to a path before it looks at the routes.
\<close>

section \<open>A server to try them on\<close>

definition demo_serve :: "request \<Rightarrow> (s3_server, gomap) world \<Rightarrow> unit res \<times> (s3_server, gomap) world" where
  "demo_serve = serve bed_env (\<lambda>b. b) (\<lambda>b. b) (\<lambda>_. None) (\<lambda>r p. p)"

section \<open>Who can change the table\<close>

text \<open>C1. Take any request to the server, on a table whose rows are well-formed. Either the table is unchanged, or the
  request is a POST to the push or submit path of an app, its handshake passes the check of the signature
  (which the code skips in its testing mode) and names that action and that app, and the rows of every other app are unchanged. This holds on every outcome, errors,
  lost database answers and panics included.\<close>

theorem server_isolated:
  assumes "range_law env" and "rows_ok (w_rows w)" and "\<forall>x \<in> set (w_rows w). row_safe x"
  shows "w_rows (snd (serve env gz gz_open rx url_string r w)) = w_rows w \<or>
    (\<exists>app. may_write env r (w_fs w) app \<and> foreign app (w_rows (snd (serve env gz gz_open rx url_string r w))) = foreign app (w_rows w))"
  by (rule serve_rows [OF assms])

theorem server_isolated_witness:
  "w_rows (snd (demo_serve demo_request demo_world)) = w_rows demo_world \<or>
   (\<exists>app. may_write bed_env demo_request (w_fs demo_world) app \<and>
     foreign app (w_rows (snd (demo_serve demo_request demo_world))) = foreign app (w_rows demo_world))"
  unfolding demo_serve_def
  by (rule server_isolated [OF bed_range])
    (simp_all add: demo_world_def demo_rows_def rows_ok_def row_key_def row_safe_def sublist_code)

text \<open>Nothing that the handshake check or a handler attached to a request is left when the server is done with it, on
  every outcome: whoever later asks for the values of that request finds none, so no identity outlives its request.\<close>

lemma server_context_cleared:
  assumes "\<And>k. ctx_get r k w = None"
  shows "ctx_get r k (snd (serve env gz gz_open rx url_string r w)) = None"
  unfolding serve_routes by (rule ServeHTTP_clears [OF assms])

section \<open>The server over time\<close>

text \<open>C2. Over any sequence of requests, with anything happening outside the table in between, the table stays well-formed:
  no two rows for the same file of an app and submission, no name that leads upwards, no empty hash.\<close>

theorem server_table_invariant:
  assumes "server_run gz gz_open rx url_string w v" and "table_ok (w_rows w)"
  shows "table_ok (w_rows v)"
  by (rule run_table_ok [OF assms])

lemma demo_run: "server_run (\<lambda>b. b) (\<lambda>b. b) (\<lambda>_. None) (\<lambda>r p. p) w (snd (demo_serve r (w\<lparr>w_dbq := qs\<rparr>)))"
proof -
  have "server_run (\<lambda>b. b) (\<lambda>b. b) (\<lambda>_. None) (\<lambda>r p. p) w (w\<lparr>w_dbq := qs\<rparr>)" by (rule run_outside [OF run_start]) simp
  then show ?thesis unfolding demo_serve_def by (rule run_request [OF _ bed_range prod.collapse [symmetric]])
qed

lemma demo_rows_ok: "table_ok demo_rows"
  by (simp add: table_ok_def demo_rows_def rows_ok_def row_key_def row_safe_def sublist_code)

theorem server_table_invariant_witness:
  "table_ok (w_rows (snd (demo_serve demo_request (demo_world\<lparr>w_dbq := [Q_cut 0]\<rparr>))))"
  by (rule server_table_invariant [OF demo_run]) (simp add: demo_world_def demo_rows_ok)

text \<open>C3. Once a submission has rows, they are the same rows in every later state of the server, whatever requests arrive:
  what was submitted is what production keeps seeing.\<close>

theorem server_submissions_fixed:
  assumes "server_run gz gz_open rx url_string w v" and "table_ok (w_rows w)" and "s \<noteq> []" and "submitted s (w_rows w) \<noteq> []"
  shows "submitted s (w_rows v) = submitted s (w_rows w)"
  by (rule run_submitted [OF assms])

definition sub_world :: "(s3_server, gomap) world" where
  "sub_world = demo_world\<lparr>w_rows := demo_rows @ [\<lparr>r_app = ''app'', r_sub = Some ''s1'', r_name = ''a.js'', r_hash = ''h1''\<rparr>]\<rparr>"

theorem server_submissions_fixed_witness:
  "submitted ''s1'' (w_rows (snd (demo_serve demo_request (sub_world\<lparr>w_dbq := []\<rparr>)))) =
   [\<lparr>r_app = ''app'', r_sub = Some ''s1'', r_name = ''a.js'', r_hash = ''h1''\<rparr>]"
proof -
  have s: "submitted ''s1'' (w_rows sub_world) = [\<lparr>r_app = ''app'', r_sub = Some ''s1'', r_name = ''a.js'', r_hash = ''h1''\<rparr>]"
    by (simp add: submitted_def sub_world_def demo_rows_def)
  have "table_ok (w_rows sub_world)"
    by (simp add: table_ok_def sub_world_def demo_rows_def rows_ok_def row_key_def row_safe_def sublist_code)
  from server_submissions_fixed [OF demo_run this, of "''s1''"] s show ?thesis by simp
qed

section \<open>Routes\<close>

lemma app_path_clean:
  assumes "segment app" "app \<notin> {''.'', ''..''}" "action \<in> set validActions"
  shows "cleanPath (app_path action app) = app_path action app"
proof -
  have "is_comp action" "action \<noteq> ''..''" using assms(3) by (auto simp: validActions_def is_comp_def)
  moreover have "is_comp app" using assms(1,2) by (auto simp: segment_def is_comp_def)
  ultimately have c: "\<forall>c \<in> set [''v1'', action, app]. is_comp c \<and> c \<noteq> ''..''"
    using assms(2) by (simp add: is_comp_def)
  show ?thesis using cleanPath_fix(2) [OF c] by (simp add: app_path_def)
qed

text \<open>C12. A request for an app reaches exactly the handler of its action, if the method is one the action has, behind
  the compression and the handshake check, with the app's name as the only route variable; with another method the
  answer is 404. In both cases the request's context is cleared afterwards.\<close>

theorem server_dispatch:
  assumes "(action, ms, h) \<in> set (endpoints env)" and "segment app" and "app \<notin> {''.'', ''..''}"
    and "rq_path r = app_path action app"
  shows "serve env gz gz_open rx url_string r w =
    (case (if rq_method r \<in> set ms
           then GzipHandler gz gz_open (AuthMiddleware env h) (r\<lparr>rq_vars := [(''app_id'', app)]\<rparr>) w
           else (Ok (), http_Error ''404 page not found'' 404 w)) of
       (x, w') \<Rightarrow> (x, w'\<lparr>w_ctx := context_Clear (rq_id r) (w_ctx w')\<rparr>))"
proof -
  have "action \<in> set validActions" using assms(1) by (auto simp: endpoints_def validActions_def)
  from app_path_clean [OF assms(2,3) this] show ?thesis
    using dispatch_app [OF assms(2,4,1), of rx gz gz_open] assms(4)
    by (simp add: serve_routes ServeHTTP_def Let_def)
qed

theorem server_dispatch_witness:
  "demo_serve demo_request demo_world =
    (case GzipHandler (\<lambda>b. b) (\<lambda>b. b) (AuthMiddleware bed_env (Push bed_env)) demo_request demo_world of
       (x, w') \<Rightarrow> (x, w'\<lparr>w_ctx := context_Clear 1 (w_ctx w')\<rparr>))"
proof -
  have e: "(''push'', [''GET'', ''POST''], Push bed_env) \<in> set (endpoints bed_env)" by (simp add: endpoints_def)
  have a: "segment ''app''" "''app'' \<notin> {''.'', ''..''}" by (simp_all add: segment_def)
  have p: "rq_path demo_request = app_path ''push'' ''app''" by (simp add: demo_request_def app_path_def)
  have r: "rq_method demo_request \<in> set [''GET'', ''POST'']" "demo_request\<lparr>rq_vars := [(''app_id'', ''app'')]\<rparr> = demo_request"
    "rq_id demo_request = 1"
    by (simp_all add: demo_request_def)
  show ?thesis unfolding demo_serve_def server_dispatch [OF e a p] if_P [OF r(1)] r(2,3) ..
qed

text \<open>C33. Whatever path arrives, the router goes on with one that starts with a slash, whose parts are neither empty nor
  dots, and that cleaning again does not change: a redirect to it cannot loop.\<close>

theorem cleanPath_normal:
  "cleanPath (cleanPath p) = cleanPath p \<and>
   (\<exists>cs. (\<forall>c \<in> set cs. is_comp c \<and> c \<noteq> ''..'') \<and>
     (cleanPath p = slash # join ''/'' cs \<or> cs \<noteq> [] \<and> cleanPath p = slash # join ''/'' cs @ ''/''))"
  using cleanPath_idem cleanPath_shape by blast

theorem cleanPath_normal_witness:
  "cleanPath (cleanPath ''//v1/../a/./b/'') = cleanPath ''//v1/../a/./b/'' \<and> cleanPath ''//v1/../a/./b/'' = ''/a/b/''"
  by (rule conjI [OF cleanPath_normal [THEN conjunct1]]) code_simp

end
