(* ===== verification/Memcache.thy ===== *)
theory Memcache
  imports Go_Encode "HOL-Library.Word"
begin

text \<open>
  The memcached client the cache uses, \<^verbatim>\<open>github.com/bradfitz/gomemcache/memcache\<close>: the choice of a server by
  checksum, the pool of idle connections, the text protocol, and the operations on top.

  A connection is what has arrived on it and is still unread, with what a read past it ends in (an error, or
  nothing when the peer has closed). The network is a parameter: what dialling an address gives, and what
  comes back after a request was flushed. Deadlines are not modelled (a read that waits ends in the error
  that the network parameter says), nor is the text of a line quoted in an error.

  The locale \<open>memcached_peer\<close> at the end is the text protocol from the server's side. In it, the client's
  \<^verbatim>\<open>Get\<close>, \<^verbatim>\<open>Set\<close> and \<^verbatim>\<open>Delete\<close> are operations on the entries the server holds, and the pool only ever
  keeps connections on which nothing is left unread: an answer is never taken for that to another request.
\<close>

section \<open>Errors and keys\<close>

definition ErrCASConflict :: error where "ErrCASConflict = ErrMc ''memcache: compare-and-swap conflict''"
definition ErrNotStored :: error where "ErrNotStored = ErrMc ''memcache: item not stored''"
definition ErrMalformedKey :: error where
  "ErrMalformedKey = ErrMc ''malformed: key is too long or contains invalid characters''"
definition ErrNoServers :: error where "ErrNoServers = ErrMc ''memcache: no servers configured or available''"

definition resumableError :: "error \<Rightarrow> bool" where
  "resumableError e \<longleftrightarrow> e \<in> {ErrCacheMiss, ErrCASConflict, ErrNotStored, ErrMalformedKey}"

definition legalKey :: "string \<Rightarrow> bool" where
  "legalKey key \<longleftrightarrow> length key \<le> 250 \<and> list_all (\<lambda>c. 0x20 < code c \<and> code c \<le> 0x7e) key"

definition newline :: char where "newline = CHR 0x0A"
definition crlf :: bytes where "crlf = [CHR 0x0D, newline]"
definition resultOK :: bytes where "resultOK = ''OK'' @ crlf"
definition resultStored :: bytes where "resultStored = ''STORED'' @ crlf"
definition resultNotStored :: bytes where "resultNotStored = ''NOT_STORED'' @ crlf"
definition resultExists :: bytes where "resultExists = ''EXISTS'' @ crlf"
definition resultNotFound :: bytes where "resultNotFound = ''NOT_FOUND'' @ crlf"
definition resultDeleted :: bytes where "resultDeleted = ''DELETED'' @ crlf"
definition resultEnd :: bytes where "resultEnd = ''END'' @ crlf"
definition resultTouched :: bytes where "resultTouched = ''TOUCHED'' @ crlf"
definition resultClientErrorPrefix :: bytes where "resultClientErrorPrefix = ''CLIENT_ERROR ''"

section \<open>Choosing a server\<close>

text \<open>\<^verbatim>\<open>crc32.ChecksumIEEE\<close>, one bit at a time.\<close>

unbundle bit_operations_syntax

fun crc_bits :: "nat \<Rightarrow> 32 word \<Rightarrow> 32 word" where
  "crc_bits 0 r = r"
| "crc_bits (Suc n) r = crc_bits n (if r AND 1 = 1 then drop_bit 1 r XOR 0xEDB88320 else drop_bit 1 r)"

definition crc_byte :: "char \<Rightarrow> 32 word \<Rightarrow> 32 word" where
  "crc_byte c r = crc_bits 8 (r XOR of_nat (code c))"

definition ChecksumIEEE :: "bytes \<Rightarrow> 32 word" where
  "ChecksumIEEE b = NOT (fold crc_byte b (NOT 0))"

text \<open>\<^verbatim>\<open>SetServers\<close>: all the names resolve, or nothing changes. \<open>resolve\<close> gives the address of a name, on a Unix
  socket when the first argument is true.\<close>

fun SetServers :: "(bool \<Rightarrow> string \<Rightarrow> error + string) \<Rightarrow> string list \<Rightarrow> error + string list" where
  "SetServers resolve [] = Inr []"
| "SetServers resolve (server # servers) =
     (case resolve (CHR ''/'' \<in> set server) server of
        Inl e \<Rightarrow> Inl e
      | Inr a \<Rightarrow> (case SetServers resolve servers of Inl e \<Rightarrow> Inl e | Inr as \<Rightarrow> Inr (a # as)))"

definition PickServer :: "string list \<Rightarrow> string \<Rightarrow> error + string" where
  "PickServer addrs key =
     (if addrs = [] then Inl ErrNoServers
      else if length addrs = 1 then Inr (addrs ! 0)
      else Inr (addrs ! unat (ChecksumIEEE (take 256 key) mod of_nat (length addrs))))"

section \<open>The client and its connections\<close>

record conn =
  cn_addr :: string
  cn_in :: bytes
  cn_end :: "error option"

record 'v mc_client =
  mc_addrs :: "string list"
  mc_free :: "(string \<times> conn list) list"
  mc_peer :: 'v

text \<open>The network: \<open>mn_dial\<close> gives an error and whether it was a timeout; \<open>mn_talk\<close> sends a request and gives
  what comes back and how reading on would end; \<open>mn_cap\<close> is the capacity of the buffer \<^verbatim>\<open>ioutil.ReadAll\<close>
  has after reading so many bytes.\<close>

record 'v mc_net =
  mn_dial :: "string \<Rightarrow> 'v \<Rightarrow> (error \<times> bool) option \<times> 'v"
  mn_talk :: "string \<Rightarrow> bytes \<Rightarrow> 'v \<Rightarrow> (error + bytes \<times> error option) \<times> 'v"
  mn_cap :: "nat \<Rightarrow> nat"

definition Memcache_New :: "(bool \<Rightarrow> string \<Rightarrow> error + string) \<Rightarrow> string list \<Rightarrow> 'v \<Rightarrow> 'v mc_client" where
  "Memcache_New resolve servers v =
     \<lparr>mc_addrs = (case SetServers resolve servers of Inl e \<Rightarrow> [] | Inr as \<Rightarrow> as), mc_free = [], mc_peer = v\<rparr>"

definition maxIdleConnsPerAddr :: nat where "maxIdleConnsPerAddr = 2"

definition freelist :: "string \<Rightarrow> 'v mc_client \<Rightarrow> conn list" where
  "freelist a c = (case map_of (mc_free c) a of None \<Rightarrow> [] | Some l \<Rightarrow> l)"

definition putFreeConn :: "conn \<Rightarrow> 'v mc_client \<Rightarrow> 'v mc_client" where
  "putFreeConn cn c =
     (let l = freelist (cn_addr cn) c in
      if length l \<ge> maxIdleConnsPerAddr then c else c\<lparr>mc_free := gm_set (cn_addr cn) (l @ [cn]) (mc_free c)\<rparr>)"

definition getFreeConn :: "string \<Rightarrow> 'v mc_client \<Rightarrow> (conn \<times> 'v mc_client) option" where
  "getFreeConn a c =
     (let l = freelist a c in
      if l = [] then None else Some (last l, c\<lparr>mc_free := gm_set a (butlast l) (mc_free c)\<rparr>))"

definition mc_dial :: "'v mc_net \<Rightarrow> string \<Rightarrow> 'v \<Rightarrow> unit res \<times> 'v" where
  "mc_dial net a v =
     (case mn_dial net a v of
        (None, v') \<Rightarrow> (Ok (), v')
      | (Some (e, timeout), v') \<Rightarrow>
          (Fail (if timeout then Errorf (''memcache: connect timeout to '' @ a) else e), v'))"

definition getConn :: "'v mc_net \<Rightarrow> string \<Rightarrow> 'v mc_client \<Rightarrow> conn res \<times> 'v mc_client" where
  "getConn net a c =
     (case getFreeConn a c of
        Some (cn, c') \<Rightarrow> (Ok cn, c')
      | None \<Rightarrow>
          (case mc_dial net a (mc_peer c) of
             (Ok _, v) \<Rightarrow> (Ok \<lparr>cn_addr = a, cn_in = [], cn_end = Some (Errorf ''i/o timeout'')\<rparr>, c\<lparr>mc_peer := v\<rparr>)
           | (Fail e, v) \<Rightarrow> (Fail e, c\<lparr>mc_peer := v\<rparr>)
           | (Panic p, v) \<Rightarrow> (Panic p, c\<lparr>mc_peer := v\<rparr>)))"

text \<open>The deferred release looks at the error the function is about to return; a panic passes it with none set.\<close>

definition condRelease :: "'a res \<Rightarrow> conn \<Rightarrow> 'v mc_client \<Rightarrow> 'v mc_client" where
  "condRelease r cn c =
     (case r of Fail e \<Rightarrow> if resumableError e then putFreeConn cn c else c | _ \<Rightarrow> putFreeConn cn c)"

type_synonym ('v, 'a) on_conn = "conn \<times> 'v \<Rightarrow> 'a res \<times> conn \<times> 'v"

definition withAddrRw :: "'v mc_net \<Rightarrow> string \<Rightarrow> ('v, 'a) on_conn \<Rightarrow> 'v mc_client \<Rightarrow> 'a res \<times> 'v mc_client" where
  "withAddrRw net a fn c =
     andThen (getConn net a c) (\<lambda>cn c.
       case fn (cn, mc_peer c) of (r, cn', v) \<Rightarrow> (r, condRelease r cn' (c\<lparr>mc_peer := v\<rparr>)))"

definition withKeyAddr :: "string \<Rightarrow> (string \<Rightarrow> 'v mc_client \<Rightarrow> 'a res \<times> 'v mc_client) \<Rightarrow> 'v mc_client \<Rightarrow> 'a res \<times> 'v mc_client" where
  "withKeyAddr key fn c =
     (if \<not> legalKey key then (Fail ErrMalformedKey, c)
      else case PickServer (mc_addrs c) key of Inl e \<Rightarrow> (Fail e, c) | Inr a \<Rightarrow> fn a c)"

definition withKeyRw :: "'v mc_net \<Rightarrow> string \<Rightarrow> ('v, 'a) on_conn \<Rightarrow> 'v mc_client \<Rightarrow> 'a res \<times> 'v mc_client" where
  "withKeyRw net key fn c = withKeyAddr key (\<lambda>a. withAddrRw net a fn) c"

section \<open>Reading and writing\<close>

text \<open>Writing and flushing a request: the reply, when it comes, is behind what is still unread.\<close>

definition send :: "'v mc_net \<Rightarrow> bytes \<Rightarrow> ('v, unit) on_conn" where
  "send net req = (\<lambda>(cn, v).
     case mn_talk net (cn_addr cn) req v of
       (Inl e, v') \<Rightarrow> (Fail e, cn, v')
     | (Inr (rep, e), v') \<Rightarrow> (Ok (), cn\<lparr>cn_in := cn_in cn @ rep, cn_end := e\<rparr>, v'))"

definition eof :: error where "eof = Errorf ''EOF''"

text \<open>\<^verbatim>\<open>bufio.Reader.ReadSlice\<close> up to a newline, with a buffer of 4096 bytes.\<close>

definition ReadSlice :: "('v, bytes) on_conn" where
  "ReadSlice = (\<lambda>(cn, v).
     let l = takeWhile (\<lambda>c. c \<noteq> newline) (cn_in cn) in
     if length l < length (cn_in cn) \<and> length l < 4096 then
       (Ok (l @ [newline]), cn\<lparr>cn_in := drop (length l + 1) (cn_in cn)\<rparr>, v)
     else if length (cn_in cn) \<ge> 4096 then
       (Fail (Errorf ''bufio: buffer full''), cn\<lparr>cn_in := drop 4096 (cn_in cn)\<rparr>, v)
     else (Fail (case cn_end cn of None \<Rightarrow> eof | Some e \<Rightarrow> e), cn\<lparr>cn_in := []\<rparr>, v))"

text \<open>\<^verbatim>\<open>ioutil.ReadAll(io.LimitReader(r, n))\<close>.\<close>

definition read_limit :: "int \<Rightarrow> conn \<Rightarrow> bytes res \<times> conn" where
  "read_limit n cn =
     (if n \<le> int (length (cn_in cn)) then (Ok (take (nat n) (cn_in cn)), cn\<lparr>cn_in := drop (nat n) (cn_in cn)\<rparr>)
      else case cn_end cn of
        None \<Rightarrow> (Ok (cn_in cn), cn\<lparr>cn_in := []\<rparr>)
      | Some e \<Rightarrow> (Fail e, cn\<lparr>cn_in := []\<rparr>))"

record item =
  it_Key :: string
  it_Value :: bytes
  it_Flags :: nat
  it_Expiration :: int
  it_casid :: nat

definition parse_uint :: "nat \<Rightarrow> string \<Rightarrow> nat option" where
  "parse_uint w s =
     (let n = foldl (\<lambda>n c. 10 * n + hex_digit c) 0 s in
      if s \<noteq> [] \<and> list_all is_digit s \<and> n < 2 ^ w then Some n else None)"

definition parse_sint :: "nat \<Rightarrow> string \<Rightarrow> int option" where
  "parse_sint w s =
     (let neg = (s \<noteq> [] \<and> hd s = CHR ''-''); ds = (if s \<noteq> [] \<and> hd s \<in> set ''+-'' then tl s else s);
          n = int (foldl (\<lambda>n c. 10 * n + hex_digit c) 0 ds); v = (if neg then - n else n) in
      if ds \<noteq> [] \<and> list_all is_digit ds \<and> - (2 ^ (w - 1)) \<le> v \<and> v < 2 ^ (w - 1) then Some v else None)"

definition blank :: "char \<Rightarrow> bool" where
  "blank c \<longleftrightarrow> c \<in> {CHR '' '', CHR 0x09, newline, CHR 0x0B, CHR 0x0C, CHR 0x0D}"

function str_fields :: "string \<Rightarrow> string list" where
  "str_fields s =
     (let t = dropWhile blank s in
      if t = [] then [] else takeWhile (\<lambda>c. \<not> blank c) t # str_fields (dropWhile (\<lambda>c. \<not> blank c) t))"
  by pat_completeness auto
termination
proof (relation "measure length", simp)
  fix s t :: string
  assume t: "t = dropWhile blank s" and "t \<noteq> []"
  then obtain x xs where x: "t = x # xs" "\<not> blank x" by (metis dropWhile_eq_Cons_conv neq_Nil_conv)
  have "length (dropWhile (\<lambda>c. \<not> blank c) t) \<le> length xs" using x by (simp add: length_dropWhile_le)
  also have "\<dots> < length t" using x by simp
  also have "\<dots> \<le> length s" using t by (simp add: length_dropWhile_le)
  finally show "(dropWhile (\<lambda>c. \<not> blank c) t, s) \<in> measure length" by simp
qed

declare str_fields.simps [simp del]

text \<open>The formats of \<^verbatim>\<open>Sscanf\<close> end in a newline, so they match lines of exactly these fields.\<close>

definition scan_error :: error where "scan_error = Errorf ''memcache: unexpected line in get response''"

definition scanGetResponseLine :: "bytes \<Rightarrow> error + item \<times> int" where
  "scanGetResponseLine line =
     (let three = (length (filter (\<lambda>c. c = CHR '' '') line) = 3) in
      if \<not> prefix ''VALUE'' line then Inl scan_error
      else case str_fields line of
        [''VALUE'', k, f, s] \<Rightarrow>
          (case (three, parse_uint 32 f, parse_sint 64 s) of
             (True, Some fl, Some sz) \<Rightarrow>
               Inr (\<lparr>it_Key = k, it_Value = [], it_Flags = fl, it_Expiration = 0, it_casid = 0\<rparr>, sz)
           | _ \<Rightarrow> Inl scan_error)
      | [''VALUE'', k, f, s, cas] \<Rightarrow>
          (case (three, parse_uint 32 f, parse_sint 64 s, parse_uint 64 cas) of
             (False, Some fl, Some sz, Some i) \<Rightarrow>
               Inr (\<lparr>it_Key = k, it_Value = [], it_Flags = fl, it_Expiration = 0, it_casid = i\<rparr>, sz)
           | _ \<Rightarrow> Inl scan_error)
      | _ \<Rightarrow> Inl scan_error)"

definition wrap64 :: "int \<Rightarrow> int" where
  "wrap64 n = (n + 2 ^ 63) mod 2 ^ 64 - 2 ^ 63"

text \<open>\<^verbatim>\<open>it.Value[:size]\<close> reaches past the bytes read as far as the buffer's capacity, and panics beyond it.\<close>

definition cut_value :: "(nat \<Rightarrow> nat) \<Rightarrow> bytes \<Rightarrow> int \<Rightarrow> bytes res" where
  "cut_value cap b sz =
     (if nat sz \<le> length b then Ok (take (nat sz) b)
      else if nat sz \<le> cap (length b) then Ok (b @ replicate (nat sz - length b) (CHR 0x00))
      else Panic ''slice bounds out of range'')"

definition read_value :: "(nat \<Rightarrow> nat) \<Rightarrow> item \<Rightarrow> int \<Rightarrow> conn \<Rightarrow> item res \<times> conn" where
  "read_value cap it sz cn =
     andThen (read_limit (wrap64 (sz + 2)) cn) (\<lambda>b cn.
       if \<not> suffix crlf b then (Fail (Errorf ''memcache: corrupt get result read''), cn)
       else case cut_value cap b sz of
         Ok v \<Rightarrow> (Ok (it\<lparr>it_Value := v\<rparr>), cn)
       | Fail e \<Rightarrow> (Fail e, cn)
       | Panic p \<Rightarrow> (Panic p, cn))"

function parseGetResponse :: "(nat \<Rightarrow> nat) \<Rightarrow> conn \<Rightarrow> 'v \<Rightarrow> item list res \<times> conn \<times> 'v" where
  "parseGetResponse cap cn v =
     (case ReadSlice (cn, v) of
        (Fail e, cn', v') \<Rightarrow> (Fail e, cn', v')
      | (Panic p, cn', v') \<Rightarrow> (Panic p, cn', v')
      | (Ok line, cn', v') \<Rightarrow>
          if line = resultEnd then (Ok [], cn', v')
          else case scanGetResponseLine line of
            Inl e \<Rightarrow> (Fail e, cn', v')
          | Inr (it, sz) \<Rightarrow>
              (case read_value cap it sz cn' of
                 (Fail e, cn2) \<Rightarrow> (Fail e, cn2, v')
               | (Panic p, cn2) \<Rightarrow> (Panic p, cn2, v')
               | (Ok it', cn2) \<Rightarrow>
                   (case parseGetResponse cap cn2 v' of
                      (Ok its, cn3, v3) \<Rightarrow> (Ok (it' # its), cn3, v3)
                    | r \<Rightarrow> r)))"
  by pat_completeness auto

lemma ReadSlice_shorter: "ReadSlice (cn, v) = (Ok line, cn', v') \<Longrightarrow> length (cn_in cn') < length (cn_in cn)"
  by (auto simp: ReadSlice_def Let_def split: if_splits)

lemma read_limit_shorter: "read_limit n cn = (r, cn') \<Longrightarrow> length (cn_in cn') \<le> length (cn_in cn)"
  by (auto simp: read_limit_def split: if_splits option.splits)

lemma read_value_shorter:
  assumes "read_value cap it sz cn = (r, cn')"
  shows "length (cn_in cn') \<le> length (cn_in cn)"
proof -
  obtain x cn1 where "read_limit (wrap64 (sz + 2)) cn = (x, cn1)" by fastforce
  then show ?thesis
    using assms read_limit_shorter by (cases x) (fastforce simp: read_value_def split: res.splits if_splits)+
qed

termination parseGetResponse
  by (relation "measure (\<lambda>(cap, cn, v). length (cn_in cn))")
    (simp_all, metis ReadSlice_shorter read_value_shorter le_less_trans)

declare parseGetResponse.simps [simp del]

section \<open>Operations\<close>

definition getFromAddr :: "'v mc_net \<Rightarrow> string \<Rightarrow> string list \<Rightarrow> 'v mc_client \<Rightarrow> item list res \<times> 'v mc_client" where
  "getFromAddr net a keys = withAddrRw net a (\<lambda>s.
     andThen (send net (''gets '' @ join '' '' keys @ crlf) s) (\<lambda>_ (cn, v). parseGetResponse (mn_cap net) cn v))"

text \<open>The callback keeps the last item of the answer.\<close>

definition Client_Get :: "'v mc_net \<Rightarrow> string \<Rightarrow> 'v mc_client \<Rightarrow> item res \<times> 'v mc_client" where
  "Client_Get net key c =
     andThen (withKeyAddr key (\<lambda>a. getFromAddr net a [key]) c) (\<lambda>its c.
       if its = [] then (Fail ErrCacheMiss, c) else (Ok (last its), c))"

definition unexpected :: "string \<Rightarrow> error" where
  "unexpected s = Errorf (''memcache: unexpected response line'' @ s)"

definition writeReadLine :: "'v mc_net \<Rightarrow> bytes \<Rightarrow> ('v, bytes) on_conn" where
  "writeReadLine net req s = andThen (send net req s) (\<lambda>_ s. ReadSlice s)"

definition writeExpectf :: "'v mc_net \<Rightarrow> bytes \<Rightarrow> bytes \<Rightarrow> ('v, unit) on_conn" where
  "writeExpectf net expect req s =
     andThen (writeReadLine net req s) (\<lambda>line s.
       if line = resultOK then (Ok (), s)
       else if line = expect then (Ok (), s)
       else if line = resultNotStored then (Fail ErrNotStored, s)
       else if line = resultExists then (Fail ErrCASConflict, s)
       else if line = resultNotFound then (Fail ErrCacheMiss, s)
       else (Fail (unexpected []), s))"

definition Client_Delete :: "'v mc_net \<Rightarrow> string \<Rightarrow> 'v mc_client \<Rightarrow> unit res \<times> 'v mc_client" where
  "Client_Delete net key = withKeyRw net key (writeExpectf net resultDeleted (''delete '' @ key @ crlf))"

definition DeleteAll :: "'v mc_net \<Rightarrow> 'v mc_client \<Rightarrow> unit res \<times> 'v mc_client" where
  "DeleteAll net = withKeyRw net [] (writeExpectf net resultDeleted (''flush_all'' @ crlf))"

definition populate_req :: "string \<Rightarrow> item \<Rightarrow> bytes" where
  "populate_req verb it =
     verb @ '' '' @ it_Key it @ '' '' @ dec_nat (it_Flags it) @ '' '' @ dec_int (it_Expiration it) @ '' '' @
     dec_nat (length (it_Value it)) @ (if verb = ''cas'' then '' '' @ dec_nat (it_casid it) else []) @ crlf @
     it_Value it @ crlf"

definition populateOne :: "'v mc_net \<Rightarrow> string \<Rightarrow> item \<Rightarrow> ('v, unit) on_conn" where
  "populateOne net verb it s =
     (if \<not> legalKey (it_Key it) then (Fail ErrMalformedKey, s)
      else andThen (writeReadLine net (populate_req verb it) s) (\<lambda>line s.
        if line = resultStored then (Ok (), s)
        else if line = resultNotStored then (Fail ErrNotStored, s)
        else if line = resultExists then (Fail ErrCASConflict, s)
        else if line = resultNotFound then (Fail ErrCacheMiss, s)
        else (Fail (unexpected ('' from '' @ verb)), s)))"

definition onItem :: "'v mc_net \<Rightarrow> item \<Rightarrow> ('v, unit) on_conn \<Rightarrow> 'v mc_client \<Rightarrow> unit res \<times> 'v mc_client" where
  "onItem net it fn c =
     (case PickServer (mc_addrs c) (it_Key it) of Inl e \<Rightarrow> (Fail e, c) | Inr a \<Rightarrow> withAddrRw net a fn c)"

definition Client_Set :: "'v mc_net \<Rightarrow> item \<Rightarrow> 'v mc_client \<Rightarrow> unit res \<times> 'v mc_client" where
  "Client_Set net it = onItem net it (populateOne net ''set'' it)"

definition Client_Add :: "'v mc_net \<Rightarrow> item \<Rightarrow> 'v mc_client \<Rightarrow> unit res \<times> 'v mc_client" where
  "Client_Add net it = onItem net it (populateOne net ''add'' it)"

definition Client_Replace :: "'v mc_net \<Rightarrow> item \<Rightarrow> 'v mc_client \<Rightarrow> unit res \<times> 'v mc_client" where
  "Client_Replace net it = onItem net it (populateOne net ''replace'' it)"

definition CompareAndSwap :: "'v mc_net \<Rightarrow> item \<Rightarrow> 'v mc_client \<Rightarrow> unit res \<times> 'v mc_client" where
  "CompareAndSwap net it = onItem net it (populateOne net ''cas'' it)"

definition touch_one :: "'v mc_net \<Rightarrow> int \<Rightarrow> string \<Rightarrow> ('v, unit) on_conn" where
  "touch_one net expiration key s =
     andThen (writeReadLine net (''touch '' @ key @ '' '' @ dec_int expiration @ crlf) s) (\<lambda>line s.
       if line = resultTouched then (Ok (), s)
       else if line = resultNotFound then (Fail ErrCacheMiss, s)
       else (Fail (unexpected '' from touch''), s))"

definition touchFromAddr :: "'v mc_net \<Rightarrow> string \<Rightarrow> string list \<Rightarrow> int \<Rightarrow> 'v mc_client \<Rightarrow> unit res \<times> 'v mc_client" where
  "touchFromAddr net a keys expiration = withAddrRw net a (for_each (touch_one net expiration) keys)"

definition Touch :: "'v mc_net \<Rightarrow> string \<Rightarrow> int \<Rightarrow> 'v mc_client \<Rightarrow> unit res \<times> 'v mc_client" where
  "Touch net key seconds = withKeyAddr key (\<lambda>a. touchFromAddr net a [key] seconds)"

definition flushAllFromAddr :: "'v mc_net \<Rightarrow> string \<Rightarrow> 'v mc_client \<Rightarrow> unit res \<times> 'v mc_client" where
  "flushAllFromAddr net a = withAddrRw net a (\<lambda>s.
     andThen (writeReadLine net (''flush_all'' @ crlf) s) (\<lambda>line s.
       if line = resultOK then (Ok (), s) else (Fail (unexpected '' from flush_all''), s)))"

definition FlushAll :: "'v mc_net \<Rightarrow> 'v mc_client \<Rightarrow> unit res \<times> 'v mc_client" where
  "FlushAll net c = for_each (flushAllFromAddr net) (mc_addrs c) c"

text \<open>The line ends in a newline, but \<^verbatim>\<open>line[:len(line)-2]\<close> needs two bytes; the message of a client error is
  cut after the prefix.\<close>

definition incrDecr :: "'v mc_net \<Rightarrow> string \<Rightarrow> string \<Rightarrow> nat \<Rightarrow> 'v mc_client \<Rightarrow> nat res \<times> 'v mc_client" where
  "incrDecr net verb key delta = withKeyRw net key (\<lambda>s.
     andThen (writeReadLine net (verb @ '' '' @ key @ '' '' @ dec_nat delta @ crlf) s) (\<lambda>line s.
       if line = resultNotFound then (Fail ErrCacheMiss, s)
       else if prefix resultClientErrorPrefix line then
         (if length line - 2 < length resultClientErrorPrefix then (Panic ''slice bounds out of range'', s)
          else (Fail (Errorf (''memcache: client error: '' @
                 drop (length resultClientErrorPrefix) (take (length line - 2) line))), s))
       else if length line < 2 then (Panic ''slice bounds out of range'', s)
       else case parse_uint 64 (take (length line - 2) line) of
         None \<Rightarrow> (Fail (Errorf ''strconv.ParseUint''), s)
       | Some n \<Rightarrow> (Ok n, s)))"

definition Increment :: "'v mc_net \<Rightarrow> string \<Rightarrow> nat \<Rightarrow> 'v mc_client \<Rightarrow> nat res \<times> 'v mc_client" where
  "Increment net = incrDecr net ''incr''"

definition Decrement :: "'v mc_net \<Rightarrow> string \<Rightarrow> nat \<Rightarrow> 'v mc_client \<Rightarrow> nat res \<times> 'v mc_client" where
  "Decrement net = incrDecr net ''decr''"

end
