(* ===== verification/Memcache_Correct.thy ===== *)
theory Memcache_Correct
  imports Memcache
begin

text \<open>
  The memcached client against a server that speaks the text protocol. First the codec: a value line that the
  protocol describes is read back as its fields, and a whole answer as the item. Then the contract of the
  server as the locale \<open>memcached_peer\<close>, the client's operations over it, and a reference server.
\<close>

section \<open>Decimal numbers\<close>

lemma hex_digit_char: "n < 10 \<Longrightarrow> hex_digit (digit_char n) = n \<and> is_digit (digit_char n)"
proof -
  assume "n < 10"
  then have "n \<in> {0, 1, 2, 3, 4, 5, 6, 7, 8, 9}" by auto
  then show ?thesis by (auto simp: digit_char_def hex_digit_def code_def is_digit_def)
qed

lemma dec_nat_digits: "list_all is_digit (dec_nat n) \<and> dec_nat n \<noteq> [] \<and> foldl (\<lambda>n c. 10 * n + hex_digit c) 0 (dec_nat n) = n"
proof (induction n rule: dec_nat.induct)
  case (1 n)
  show ?case
  proof (cases "n < 10")
    case True
    then show ?thesis using hex_digit_char [of n] by (subst (1 2 3) dec_nat.simps) simp
  next
    case False
    then show ?thesis
      using 1 [OF False] hex_digit_char [of "n mod 10"] by (subst (1 2 3) dec_nat.simps) simp
  qed
qed

lemma parse_uint_dec [simp]: "n < 2 ^ w \<Longrightarrow> parse_uint w (dec_nat n) = Some n"
  using dec_nat_digits [of n] by (simp add: parse_uint_def Let_def)

lemma digit_not_sign: "is_digit c \<Longrightarrow> c \<notin> set ''+-'' \<and> \<not> blank c \<and> c \<noteq> CHR '' ''"
  by (auto simp: is_digit_def blank_def newline_def)

lemma parse_sint_dec [simp]:
  assumes "n < 2 ^ (w - 1)"
  shows "parse_sint w (dec_nat n) = Some (int n)"
proof -
  note d = dec_nat_digits [of n]
  then have "hd (dec_nat n) \<notin> set ''+-''" using digit_not_sign by (cases "dec_nat n") auto
  moreover have "int n < 2 ^ (w - 1)" using assms by (metis of_nat_less_iff of_nat_numeral of_nat_power)
  moreover have "- (2 ^ (w - 1)) \<le> int n" by (smt (verit) of_nat_0_le_iff zero_less_power)
  ultimately show ?thesis using d by (simp add: parse_sint_def Let_def)
qed

section \<open>Fields of a line\<close>

abbreviation solid :: "string \<Rightarrow> bool" where
  "solid x \<equiv> x \<noteq> [] \<and> list_all (\<lambda>c. \<not> blank c) x"

lemma fields_blank [simp]: "str_fields [] = []" "blank b \<Longrightarrow> str_fields (b # s) = str_fields s"
  by (subst str_fields.simps, simp, subst (1 2) str_fields.simps, simp)

lemma fields_token:
  assumes "solid x" and "blank b"
  shows "str_fields (x @ b # s) = x # str_fields s"
proof -
  obtain y ys where x: "x = y # ys" "\<not> blank y" using assms(1) by (cases x) auto
  have t: "dropWhile blank (x @ b # s) = x @ b # s" using x by simp
  have "takeWhile (\<lambda>c. \<not> blank c) (x @ b # s) = x" "dropWhile (\<lambda>c. \<not> blank c) (x @ b # s) = b # s"
    using assms by (auto simp: takeWhile_append dropWhile_append list_all_iff)
  then show ?thesis using t x assms(2) by (subst str_fields.simps) (simp add: Let_def)
qed

lemma blank_simps [simp]: "blank (CHR '' '')" "blank (CHR 0x0D)" "blank newline"
  by (simp_all add: blank_def newline_def)

lemma fields_line:
  "list_all solid xs \<Longrightarrow> solid y \<Longrightarrow> blank b \<Longrightarrow> list_all blank t \<Longrightarrow>
     str_fields (concat (map (\<lambda>x. x @ '' '') xs) @ y @ b # t) = xs @ [y]"
proof (induction xs)
  case Nil
  have "str_fields t = []" using Nil(4) by (induction t) auto
  then show ?case using Nil by (simp add: fields_token)
qed (auto simp: fields_token)

lemma solid_dec [simp]: "solid (dec_nat n)"
  using dec_nat_digits [of n] digit_not_sign by (auto simp: list_all_iff)

lemma word_solid: "list_all (\<lambda>c. \<not> blank c) ''VALUE''" "list_all (\<lambda>c. \<not> blank c) ''gets''"
  "list_all (\<lambda>c. \<not> blank c) ''set''" "list_all (\<lambda>c. \<not> blank c) ''delete''"
  by (simp_all add: blank_def newline_def)

lemma legal_solid: "legalKey k \<Longrightarrow> k \<noteq> [] \<Longrightarrow> solid k"
  by (auto simp: legalKey_def list_all_iff blank_def newline_def code_def dest!: bspec)

lemma no_space: "list_all (\<lambda>c. \<not> blank c) x \<Longrightarrow> filter (\<lambda>c. c = CHR '' '') x = []"
  by (auto simp: filter_empty_conv list_all_iff)

section \<open>Answers to a get\<close>

definition item_ok :: "string \<Rightarrow> item \<Rightarrow> bool" where
  "item_ok k it \<longleftrightarrow> it_Key it = k \<and> it_Flags it < 2 ^ 32 \<and> it_casid it < 2 ^ 64 \<and> it_Expiration it = 0 \<and>
     length (it_Value it) < 2 ^ 32"

definition value_line :: "item \<Rightarrow> bytes" where
  "value_line it = ''VALUE'' @ '' '' @ it_Key it @ '' '' @ dec_nat (it_Flags it) @ '' '' @
     dec_nat (length (it_Value it)) @ '' '' @ dec_nat (it_casid it) @ crlf"

definition value_reply :: "item \<Rightarrow> bytes" where
  "value_reply it = value_line it @ it_Value it @ crlf @ resultEnd"

lemma value_line_scan:
  assumes "legalKey (it_Key it)" "it_Key it \<noteq> []" and "item_ok k it"
  shows "scanGetResponseLine (value_line it) = Inr (it\<lparr>it_Value := []\<rparr>, int (length (it_Value it)))"
proof -
  have f: "str_fields (value_line it) =
      [''VALUE'', it_Key it, dec_nat (it_Flags it), dec_nat (length (it_Value it)), dec_nat (it_casid it)]"
    using legal_solid [OF assms(1,2)] fields_line [of "[''VALUE'', it_Key it, dec_nat (it_Flags it), dec_nat (length (it_Value it))]" "dec_nat (it_casid it)" "CHR 0x0D" "[newline]"]
    by (simp add: value_line_def crlf_def word_solid [simplified])
  have "length (filter (\<lambda>c. c = CHR '' '') (value_line it)) = 4"
    using legal_solid [OF assms(1,2)] solid_dec by (simp add: value_line_def crlf_def no_space newline_def)
  moreover have "length (it_Value it) < 2 ^ 63" using assms(3) by (simp add: item_ok_def)
  moreover have "prefix ''VALUE'' (value_line it)" by (simp add: value_line_def)
  ultimately show ?thesis
    using assms(3) by (simp add: scanGetResponseLine_def f item_ok_def)
qed

lemma dec_nat_length: "n < 10 ^ k \<Longrightarrow> 0 < k \<Longrightarrow> length (dec_nat n) \<le> k"
proof (induction n arbitrary: k rule: dec_nat.induct)
  case (1 n)
  show ?case
  proof (cases "n < 10")
    case True
    then show ?thesis using 1 by (subst dec_nat.simps) simp
  next
    case False
    then obtain j where k: "k = Suc j" "0 < j" using 1 by (cases k; cases "k - 1") auto
    have "n div 10 < 10 ^ j" using 1(2) k by (simp add: less_mult_imp_div_less mult.commute)
    then show ?thesis using 1(1) [OF False] k False by (subst dec_nat.simps) simp
  qed
qed

lemma value_line_shape:
  assumes "legalKey (it_Key it)" "it_Key it \<noteq> []" and "item_ok k it"
  shows "\<exists>l. value_line it = l @ [newline] \<and> newline \<notin> set l \<and> length l < 4096"
proof -
  let ?l = "''VALUE'' @ '' '' @ it_Key it @ '' '' @ dec_nat (it_Flags it) @ '' '' @
     dec_nat (length (it_Value it)) @ '' '' @ dec_nat (it_casid it) @ [CHR 0x0D]"
  have d: "newline \<notin> set (dec_nat n)" for n
    using solid_dec [of n] by (auto simp: list_all_iff)
  have "newline \<notin> set (it_Key it)" using legal_solid [OF assms(1,2)] by (auto simp: list_all_iff)
  then have "newline \<notin> set ?l" using d by (simp add: newline_def)
  moreover have "length (dec_nat (it_Flags it)) \<le> 20" "length (dec_nat (it_casid it)) \<le> 20"
    "length (dec_nat (length (it_Value it))) \<le> 20"
    using assms(3) by (intro dec_nat_length; simp add: item_ok_def)+
  then have "length ?l < 4096" using assms(1) by (simp add: legalKey_def)
  ultimately show ?thesis by (intro exI [of _ ?l]) (simp add: value_line_def crlf_def)
qed

section \<open>Reading answers\<close>

lemma ReadSlice_line:
  assumes "newline \<notin> set l" "length l < 4096" "cn_in cn = l @ newline # r"
  shows "ReadSlice (cn, v) = (Ok (l @ [newline]), cn\<lparr>cn_in := r\<rparr>, v)"
proof -
  have "takeWhile (\<lambda>c. c \<noteq> newline) (cn_in cn) = l" using assms(1,3) by (simp add: takeWhile_append)
  then show ?thesis using assms by (simp add: ReadSlice_def Let_def)
qed

definition hard :: "error option \<Rightarrow> bool" where
  "hard e \<longleftrightarrow> (\<forall>x. e = Some x \<longrightarrow> \<not> resumableError x)"

lemma hard_simps [simp]: "hard None" "hard (Some e) \<longleftrightarrow> \<not> resumableError e"
  by (simp_all add: hard_def)

lemma Errorf_hard [simp]: "\<not> resumableError (Errorf s)"
  by (simp add: resumableError_def ErrCASConflict_def ErrNotStored_def ErrMalformedKey_def)

lemma ReadSlice_open:
  assumes "newline \<notin> set (cn_in cn)" "hard (cn_end cn)"
  shows "\<exists>e cn'. ReadSlice (cn, v) = (Fail e, cn', v) \<and> \<not> resumableError e"
proof -
  have t: "takeWhile (\<lambda>c. c \<noteq> newline) (cn_in cn) = cn_in cn" using assms(1) by (auto simp: takeWhile_eq_all_conv)
  show ?thesis
    unfolding ReadSlice_def Let_def prod.case t using assms(2) by (auto simp: eof_def hard_def split: option.splits)
qed

lemma resultEnd_shape: "resultEnd = ''END'' @ [CHR 0x0D] @ [newline]" "newline \<notin> set (''END'' @ [CHR 0x0D])"
  by (simp_all add: resultEnd_def crlf_def newline_def)

lemma strict_prefix_line:
  assumes "strict_prefix rep (l @ [newline])" "newline \<notin> set l"
  shows "newline \<notin> set rep"
  using assms by (metis prefix_snoc set_mono_prefix strict_prefix_def subsetD)

text \<open>What a connection may look like after a call that hands it back to the pool.\<close>

definition tidy :: "'a res \<times> conn \<times> 'v \<Rightarrow> bool" where
  "tidy x = (case x of (r, cn, v) \<Rightarrow> (case r of Fail e \<Rightarrow> resumableError e \<longrightarrow> cn_in cn = [] | _ \<Rightarrow> cn_in cn = []))"

lemma tidy_simps [simp]:
  "tidy (Ok a, cn, v) \<longleftrightarrow> cn_in cn = []" "tidy (Panic p, cn, v) \<longleftrightarrow> cn_in cn = []"
  "tidy (Fail e, cn, v) \<longleftrightarrow> (resumableError e \<longrightarrow> cn_in cn = [])"
  by (simp_all add: tidy_def)

text \<open>An answer without a complete line closes the connection.\<close>

lemma parse_broken:
  assumes "newline \<notin> set (cn_in cn)" "hard (cn_end cn)"
  obtains e cn' where "parseGetResponse cap cn v = (Fail e, cn', v)" "\<not> resumableError e"
proof -
  obtain e cn' where rs: "ReadSlice (cn, v) = (Fail e, cn', v)" "\<not> resumableError e" using ReadSlice_open [OF assms, of v] by blast
  have "parseGetResponse cap cn v = (Fail e, cn', v)" by (subst parseGetResponse.simps) (simp add: rs(1))
  then show thesis using that rs(2) by blast
qed

lemma parse_end:
  assumes "prefix (cn_in cn) resultEnd" "hard (cn_end cn)"
  shows "\<exists>r cn'. parseGetResponse cap cn v = (r, cn', v) \<and> tidy (r, cn', v) \<and> (\<forall>e. r = Fail e \<longrightarrow> \<not> resumableError e) \<and>
    (\<forall>its. r = Ok its \<longrightarrow> its = [] \<and> cn_in cn = resultEnd)"
proof (cases "cn_in cn = resultEnd")
  case True
  then have "ReadSlice (cn, v) = (Ok resultEnd, cn\<lparr>cn_in := []\<rparr>, v)"
    using ReadSlice_line [OF resultEnd_shape(2), of cn "[]" v] by (simp add: resultEnd_shape(1))
  then have "parseGetResponse cap cn v = (Ok [], cn\<lparr>cn_in := []\<rparr>, v)" by (subst parseGetResponse.simps) simp
  then show ?thesis using True by simp
next
  case False
  then have "newline \<notin> set (cn_in cn)"
    using assms(1) strict_prefix_line [OF _ resultEnd_shape(2), of "cn_in cn"]
    by (simp add: resultEnd_shape(1) strict_prefix_def)
  from parse_broken [OF this assms(2), of cap v] show ?thesis by (metis res.distinct(1) res.inject(2) tidy_simps(3))
qed

text \<open>The value behind the line: read whole, or an error, or the slice that panics; what is left is the end of the answer.\<close>

lemma read_value_prefix:
  assumes "item_ok k it" "prefix q (it_Value it @ crlf @ resultEnd)" "hard (cn_end cn)"
  obtains q' where "q = it_Value it @ crlf @ q'" "prefix q' resultEnd"
      "read_value cap (it\<lparr>it_Value := []\<rparr>) (int (length (it_Value it))) (cn\<lparr>cn_in := q\<rparr>) = (Ok it, cn\<lparr>cn_in := q'\<rparr>)"
  | x where "read_value cap (it\<lparr>it_Value := []\<rparr>) (int (length (it_Value it))) (cn\<lparr>cn_in := q\<rparr>) = (x, cn\<lparr>cn_in := []\<rparr>)"
      "\<forall>e. x = Fail e \<longrightarrow> \<not> resumableError e"
proof -
  let ?n = "length (it_Value it)" and ?it = "it\<lparr>it_Value := []\<rparr>" and ?cn = "cn\<lparr>cn_in := q\<rparr>"
  have w: "wrap64 (int ?n + 2) = int (?n + 2)" using assms(1) by (simp add: wrap64_def item_ok_def)
  show thesis
  proof (cases "?n + 2 \<le> length q")
    case True
    then obtain q' where q': "q = it_Value it @ crlf @ q'" "prefix q' resultEnd"
      using assms(2) by (auto simp: prefix_append crlf_def prefix_Cons dest: prefix_length_le)
    moreover have "read_value cap ?it (int ?n) ?cn = (Ok it, cn\<lparr>cn_in := q'\<rparr>)"
      using q' by (simp add: read_value_def read_limit_def w cut_value_def crlf_def nat_add_distrib suffix_def)
    ultimately show thesis by (rule that(1))
  next
    case False
    have lim: "read_limit (int (?n + 2)) ?cn =
        (case cn_end cn of None \<Rightarrow> (Ok q, cn\<lparr>cn_in := []\<rparr>) | Some e \<Rightarrow> (Fail e, cn\<lparr>cn_in := []\<rparr>))"
      using False by (auto simp: read_limit_def split: option.split)
    have "\<exists>x. read_value cap ?it (int ?n) ?cn = (x, cn\<lparr>cn_in := []\<rparr>) \<and> (\<forall>e. x = Fail e \<longrightarrow> \<not> resumableError e)"
      unfolding read_value_def w lim using assms(3) by (cases "cn_end cn") (auto simp: cut_value_def)
    then show thesis using that(2) by blast
  qed
qed

lemma parse_value_line:
  assumes "legalKey (it_Key it)" "it_Key it \<noteq> []" "item_ok k it" "cn_in cn = value_line it @ q"
  shows "parseGetResponse cap cn v = (case read_value cap (it\<lparr>it_Value := []\<rparr>) (int (length (it_Value it))) (cn\<lparr>cn_in := q\<rparr>) of
      (Fail e, cn2) \<Rightarrow> (Fail e, cn2, v) | (Panic p, cn2) \<Rightarrow> (Panic p, cn2, v)
    | (Ok it', cn2) \<Rightarrow> (case parseGetResponse cap cn2 v of (Ok its, cn3, v3) \<Rightarrow> (Ok (it' # its), cn3, v3) | r \<Rightarrow> r))"
proof -
  obtain l where l: "value_line it = l @ [newline]" "newline \<notin> set l" "length l < 4096"
    using value_line_shape [OF assms(1-3)] by blast
  have "ReadSlice (cn, v) = (Ok (value_line it), cn\<lparr>cn_in := q\<rparr>, v)"
    using ReadSlice_line [OF l(2,3), of cn q v] assms(4) l(1) by simp
  moreover have "value_line it \<noteq> resultEnd" by (simp add: value_line_def resultEnd_def)
  ultimately show ?thesis by (subst parseGetResponse.simps) (simp add: value_line_scan [OF assms(1-3)])
qed

lemma parse_value:
  assumes "legalKey (it_Key it)" "it_Key it \<noteq> []" "item_ok k it"
    and "prefix (cn_in cn) (value_reply it)" "hard (cn_end cn)"
  shows "\<exists>r cn'. parseGetResponse cap cn v = (r, cn', v) \<and> tidy (r, cn', v) \<and> (\<forall>e. r = Fail e \<longrightarrow> \<not> resumableError e) \<and>
    (\<forall>its. r = Ok its \<longrightarrow> its = [it])"
proof -
  have hard: "hard (cn_end (cn\<lparr>cn_in := q'\<rparr>))" for q' using assms(5) by simp
  consider (cut) "strict_prefix (cn_in cn) (value_line it)"
    | (line) q where "cn_in cn = value_line it @ q" "prefix q (it_Value it @ crlf @ resultEnd)"
  proof -
    have "prefix (cn_in cn) (value_line it) \<or> (\<exists>q. cn_in cn = value_line it @ q \<and> prefix q (it_Value it @ crlf @ resultEnd))"
      using assms(4) unfolding value_reply_def prefix_append by blast
    then show thesis using cut line by (metis Nil_prefix append_Nil2 prefix_order.le_less)
  qed
  then show ?thesis
  proof cases
    case cut
    then have "newline \<notin> set (cn_in cn)" using strict_prefix_line value_line_shape [OF assms(1-3)] by metis
    from parse_broken [OF this assms(5), of cap v] show ?thesis by (metis res.distinct(1) res.inject(2) tidy_simps(3))
  next
    case line
    note step = parse_value_line [OF assms(1-3) line(1), of cap v]
    show ?thesis
    proof (rule read_value_prefix [OF assms(3) line(2) assms(5), of cap])
      fix q' assume q': "prefix q' resultEnd" and
        rd: "read_value cap (it\<lparr>it_Value := []\<rparr>) (int (length (it_Value it))) (cn\<lparr>cn_in := q\<rparr>) = (Ok it, cn\<lparr>cn_in := q'\<rparr>)"
      obtain r cn' where "parseGetResponse cap (cn\<lparr>cn_in := q'\<rparr>) v = (r, cn', v)" "tidy (r, cn', v)"
        "\<forall>e. r = Fail e \<longrightarrow> \<not> resumableError e" "\<forall>its. r = Ok its \<longrightarrow> its = []"
        using parse_end [OF _ hard, of q' cap v] q' by auto
      then show ?thesis using step rd by (cases r) simp_all
    next
      fix x assume x: "read_value cap (it\<lparr>it_Value := []\<rparr>) (int (length (it_Value it))) (cn\<lparr>cn_in := q\<rparr>) = (x, cn\<lparr>cn_in := []\<rparr>)"
        "\<forall>e. x = Fail e \<longrightarrow> \<not> resumableError e"
      have "newline \<notin> set (cn_in (cn\<lparr>cn_in := []\<rparr>))" by simp
      from parse_broken [OF this hard, of cap v] obtain e cn'
        where "parseGetResponse cap (cn\<lparr>cn_in := []\<rparr>) v = (Fail e, cn', v)" "\<not> resumableError e" by auto
      then show ?thesis using step x by (cases x) simp_all
    qed
  qed
qed

text \<open>An answer that arrives whole is read whole.\<close>

lemma parse_value_whole:
  assumes "legalKey (it_Key it)" "it_Key it \<noteq> []" "item_ok k it" and "cn_in cn = value_reply it"
  shows "parseGetResponse cap cn v = (Ok [it], cn\<lparr>cn_in := []\<rparr>, v)"
proof -
  let ?n = "length (it_Value it)" and ?q = "it_Value it @ crlf @ resultEnd"
  have w: "wrap64 (int ?n + 2) = int (?n + 2)" using assms(3) by (simp add: wrap64_def item_ok_def)
  have val: "read_value cap (it\<lparr>it_Value := []\<rparr>) (int ?n) (cn\<lparr>cn_in := ?q\<rparr>) = (Ok it, cn\<lparr>cn_in := resultEnd\<rparr>)"
    by (simp add: read_value_def read_limit_def w cut_value_def crlf_def nat_add_distrib suffix_def)
  have "ReadSlice (cn\<lparr>cn_in := resultEnd\<rparr>, v) = (Ok resultEnd, cn\<lparr>cn_in := []\<rparr>, v)"
    using ReadSlice_line [OF resultEnd_shape(2), of "cn\<lparr>cn_in := resultEnd\<rparr>" "[]" v] by (simp add: resultEnd_shape(1))
  then have fin: "parseGetResponse cap (cn\<lparr>cn_in := resultEnd\<rparr>) v = (Ok [], cn\<lparr>cn_in := []\<rparr>, v)"
    by (subst parseGetResponse.simps) simp
  have "cn_in cn = value_line it @ ?q" using assms(4) by (simp add: value_reply_def)
  from parse_value_line [OF assms(1-3) this, of cap v] show ?thesis by (simp add: val fin)
qed

section \<open>The server's side of the protocol\<close>

definition gets_req :: "string \<Rightarrow> bytes" where "gets_req k = ''gets '' @ k @ crlf"
definition delete_req :: "string \<Rightarrow> bytes" where "delete_req k = ''delete '' @ k @ crlf"

text \<open>
  \<open>held\<close> is what the server holds; \<open>vals\<close> the values alone. Entries may disappear at any time. An answer may
  break off anywhere. A \<^verbatim>\<open>set\<close> or \<^verbatim>\<open>delete\<close> whose answer is not the one for success may or may not have
  taken effect. The errors of the network are not the client's own sentinels.
\<close>

definition vals :: "('v \<Rightarrow> string \<Rightarrow> item option) \<Rightarrow> 'v \<Rightarrow> string \<Rightarrow> bytes option" where
  "vals held v k = map_option it_Value (held v k)"

definition one_line :: "bytes \<Rightarrow> bool" where
  "one_line rep \<longleftrightarrow> (\<exists>l. newline \<notin> set l \<and> length l < 4096 \<and> prefix rep (l @ [newline]))"

locale memcached_peer =
  fixes net :: "'v mc_net" and held :: "'v \<Rightarrow> string \<Rightarrow> item option"
  assumes held_ok: "held v k = Some it \<Longrightarrow> item_ok k it"
    and dial: "mn_dial net a v = (d, v') \<Longrightarrow> held v' \<subseteq>\<^sub>m held v \<and> (\<forall>e t. d = Some (e, t) \<longrightarrow> \<not> resumableError e)"
    and lost: "mn_talk net a q v = (Inl er, v') \<Longrightarrow> \<not> resumableError er"
    and ends: "mn_talk net a q v = (Inr (rep, e), v') \<Longrightarrow> hard e"
    and get_keeps: "legalKey k \<Longrightarrow> k \<noteq> [] \<Longrightarrow> mn_talk net a (gets_req k) v = (x, v') \<Longrightarrow> held v' \<subseteq>\<^sub>m held v"
    and get_reply: "legalKey k \<Longrightarrow> k \<noteq> [] \<Longrightarrow> mn_talk net a (gets_req k) v = (Inr (rep, e), v') \<Longrightarrow>
      prefix rep resultEnd \<or> (\<exists>it. held v k = Some it \<and> prefix rep (value_reply it))"
    and set_keeps: "legalKey (it_Key it) \<Longrightarrow> it_Key it \<noteq> [] \<Longrightarrow> mn_talk net a (populate_req ''set'' it) v = (x, v') \<Longrightarrow>
      vals held v' \<subseteq>\<^sub>m (vals held v)(it_Key it \<mapsto> it_Value it) \<or>
      (\<forall>e. x \<noteq> Inr (resultStored, e)) \<and> vals held v' \<subseteq>\<^sub>m vals held v"
    and set_line: "legalKey (it_Key it) \<Longrightarrow> it_Key it \<noteq> [] \<Longrightarrow> mn_talk net a (populate_req ''set'' it) v = (Inr (rep, e), v') \<Longrightarrow> one_line rep"
    and del_keeps: "legalKey k \<Longrightarrow> k \<noteq> [] \<Longrightarrow> mn_talk net a (delete_req k) v = (x, v') \<Longrightarrow>
      vals held v' \<subseteq>\<^sub>m (vals held v)(k := None) \<or>
      (\<forall>e. x \<noteq> Inr (resultOK, e) \<and> x \<noteq> Inr (resultDeleted, e) \<and> x \<noteq> Inr (resultNotFound, e)) \<and>
      vals held v' \<subseteq>\<^sub>m vals held v"
    and del_line: "legalKey k \<Longrightarrow> k \<noteq> [] \<Longrightarrow> mn_talk net a (delete_req k) v = (Inr (rep, e), v') \<Longrightarrow> one_line rep"

definition clean :: "'v mc_client \<Rightarrow> bool" where
  "clean c \<longleftrightarrow> (\<forall>a cn. cn \<in> set (freelist a c) \<longrightarrow> cn_in cn = [])"

lemma freelist_upd [simp]:
  "freelist a (c\<lparr>mc_free := gm_set b l (mc_free c)\<rparr>) = (if a = b then l else freelist a c)"
  "freelist a (c\<lparr>mc_peer := v\<rparr>) = freelist a c"
  by (simp_all add: freelist_def)

lemma clean_put: "clean c \<Longrightarrow> cn_in cn = [] \<Longrightarrow> clean (putFreeConn cn c)"
  by (auto simp: clean_def putFreeConn_def Let_def split: if_splits)

lemma putFreeConn_fields [simp]: "mc_peer (putFreeConn cn c) = mc_peer c" "mc_addrs (putFreeConn cn c) = mc_addrs c"
  by (simp_all add: putFreeConn_def Let_def)

lemma condRelease_fields [simp]: "mc_peer (condRelease r cn c) = mc_peer c" "mc_addrs (condRelease r cn c) = mc_addrs c"
  by (simp_all add: condRelease_def split: res.split)

lemma clean_release: "clean c \<Longrightarrow> tidy (r, cn, v) \<Longrightarrow> clean (condRelease r cn c)"
  by (cases r) (auto simp: condRelease_def clean_put)

lemma getFreeConn_clean:
  assumes "getFreeConn a c = Some (cn, c')" "clean c"
  shows "cn_in cn = [] \<and> clean c' \<and> mc_peer c' = mc_peer c \<and> mc_addrs c' = mc_addrs c"
proof -
  let ?l = "freelist a c"
  have l: "?l \<noteq> []" "cn = last ?l" "c' = c\<lparr>mc_free := gm_set a (butlast ?l) (mc_free c)\<rparr>"
    using assms(1) by (auto simp: getFreeConn_def Let_def split: if_splits)
  have "cn_in x = []" if "x \<in> set (freelist b c')" for x b
    using that assms(2) l(3) by (auto simp: clean_def split: if_splits dest: in_set_butlastD)
  moreover have "cn_in cn = []" using assms(2) l(1,2) last_in_set unfolding clean_def by metis
  ultimately show ?thesis using l(3) by (auto simp: clean_def)
qed

text \<open>The pool never holds more than two idle connections to an address.\<close>

definition pool_bounded :: "'v mc_client \<Rightarrow> bool" where
  "pool_bounded c \<longleftrightarrow> (\<forall>a. length (freelist a c) \<le> maxIdleConnsPerAddr)"

lemma pool_put: "pool_bounded c \<Longrightarrow> pool_bounded (putFreeConn cn c)"
  by (auto simp: pool_bounded_def putFreeConn_def Let_def)

lemma pool_get: "getFreeConn a c = Some (cn, c') \<Longrightarrow> pool_bounded c \<Longrightarrow> pool_bounded c'"
  by (auto simp: pool_bounded_def getFreeConn_def Let_def split: if_splits) (metis diff_le_self le_trans)

lemma pool_withAddrRw: "pool_bounded c \<Longrightarrow> pool_bounded (snd (withAddrRw net a fn c))"
proof -
  assume c: "pool_bounded c"
  have peer: "pool_bounded (d\<lparr>mc_peer := v\<rparr>) = pool_bounded d" for d :: "'a mc_client" and v by (simp add: pool_bounded_def)
  have "pool_bounded (snd (getConn net a c))"
    using c pool_get peer
    by (auto simp: getConn_def split: option.split prod.split res.split)
  then show ?thesis
    unfolding withAddrRw_def
    by (intro andThen_keeps [where Q = pool_bounded])
      (auto simp: condRelease_def pool_put peer split: prod.split res.split)
qed

section \<open>The client over such a server\<close>

text \<open>The one-line operations: success only on the right answer, the sentinel for a miss only on its line.\<close>

definition answered_by :: "'v mc_net \<Rightarrow> bytes \<Rightarrow> (bytes \<Rightarrow> 'a res) \<Rightarrow> conn \<Rightarrow> 'v \<Rightarrow> 'a res \<times> conn \<times> 'v \<Rightarrow> bool" where
  "answered_by net q judge cn v y \<longleftrightarrow> tidy y \<and>
     (\<exists>x. mn_talk net (cn_addr cn) q v = (x, snd (snd y)) \<and>
        (\<forall>a. fst y = Ok a \<longrightarrow> (\<exists>line e. x = Inr (line, e) \<and> judge line = Ok a)) \<and>
        (\<forall>f. fst y = Fail f \<longrightarrow> resumableError f \<longrightarrow> (\<exists>line e. x = Inr (line, e) \<and> judge line = Fail f)))"

definition judge_set :: "bytes \<Rightarrow> unit res" where
  "judge_set line =
     (if line = resultStored then Ok () else if line = resultNotStored then Fail ErrNotStored
      else if line = resultExists then Fail ErrCASConflict else if line = resultNotFound then Fail ErrCacheMiss
      else Fail (unexpected ('' from '' @ ''set'')))"

definition judge_delete :: "bytes \<Rightarrow> unit res" where
  "judge_delete line =
     (if line = resultOK then Ok () else if line = resultDeleted then Ok () else if line = resultNotStored then Fail ErrNotStored
      else if line = resultExists then Fail ErrCASConflict else if line = resultNotFound then Fail ErrCacheMiss
      else Fail (unexpected []))"

lemma judge_set_Ok: "judge_set line = Ok u \<Longrightarrow> line = resultStored"
  by (simp add: judge_set_def split: if_splits)

lemma miss_resumable: "resumableError ErrCacheMiss"
  by (simp add: resumableError_def)

lemma judge_delete_gone: "judge_delete line \<in> {Ok (), Fail ErrCacheMiss} \<Longrightarrow> line \<in> {resultOK, resultDeleted, resultNotFound}"
  by (auto simp: judge_delete_def ErrNotStored_def ErrCASConflict_def unexpected_def split: if_splits)

context memcached_peer
begin

abbreviation stored :: "'v mc_client \<Rightarrow> string \<Rightarrow> bytes option" where
  "stored c \<equiv> vals held (mc_peer c)"

lemma vals_mono: "held v' \<subseteq>\<^sub>m held v \<Longrightarrow> vals held v' \<subseteq>\<^sub>m vals held v"
  by (auto simp: vals_def map_le_def dom_def)

lemma getConn_clean:
  assumes "getConn net a c = (r, c')" and "clean c"
  shows "clean c' \<and> held (mc_peer c') \<subseteq>\<^sub>m held (mc_peer c) \<and> mc_addrs c' = mc_addrs c \<and>
    (\<forall>cn. r = Ok cn \<longrightarrow> cn_in cn = []) \<and> (\<forall>e. r = Fail e \<longrightarrow> \<not> resumableError e) \<and> (\<forall>p. r \<noteq> Panic p)"
proof (cases "getFreeConn a c")
  case None
  obtain d v where d: "mn_dial net a (mc_peer c) = (d, v)" by fastforce
  show ?thesis
    using assms None dial [OF d] d
    by (cases d) (auto simp: getConn_def mc_dial_def clean_def split: prod.splits if_splits)
next
  case (Some p)
  then show ?thesis using assms getFreeConn_clean by (cases p) (auto simp: getConn_def)
qed

text \<open>What a function does on a tidy connection is what the operation does on a clean client.\<close>

lemma withAddrRw_law:
  assumes "withAddrRw net a fn c = (r, c')" and "clean c"
    and fn: "\<And>cn v. cn_in cn = [] \<Longrightarrow> tidy (fn (cn, v)) \<and> R v (fst (fn (cn, v))) (snd (snd (fn (cn, v))))"
    and dialed: "\<And>v v' e. held v' \<subseteq>\<^sub>m held v \<Longrightarrow> \<not> resumableError e \<Longrightarrow> R v (Fail e) v'"
    and later: "\<And>u v r v'. held v \<subseteq>\<^sub>m held u \<Longrightarrow> R v r v' \<Longrightarrow> R u r v'"
  shows "clean c' \<and> R (mc_peer c) r (mc_peer c')"
proof -
  obtain x c1 where g: "getConn net a c = (x, c1)" by fastforce
  note gc = getConn_clean [OF g assms(2)]
  show ?thesis
  proof (cases x)
    case (Ok cn)
    obtain y cn' v where y: "fn (cn, mc_peer c1) = (y, cn', v)" by (metis prod.exhaust)
    have "tidy (y, cn', v) \<and> R (mc_peer c1) y v" using fn [of cn "mc_peer c1"] gc Ok y by auto
    moreover have "r = y" "c' = condRelease y cn' (c1\<lparr>mc_peer := v\<rparr>)"
      using assms(1) g Ok y by (auto simp: withAddrRw_def)
    moreover have "clean (c1\<lparr>mc_peer := v\<rparr>)" using gc by (simp add: clean_def)
    ultimately show ?thesis using gc later clean_release by auto
  next
    case (Fail e)
    then show ?thesis using assms(1) g gc dialed by (auto simp: withAddrRw_def)
  qed (use gc in auto)
qed

lemma send_cases:
  assumes "cn_in cn = []"
  obtains e v' where "mn_talk net (cn_addr cn) q v = (Inl e, v')" "send net q (cn, v) = (Fail e, cn, v')" "\<not> resumableError e"
  | rep e v' where "mn_talk net (cn_addr cn) q v = (Inr (rep, e), v')" "hard e"
      "send net q (cn, v) = (Ok (), cn\<lparr>cn_in := rep, cn_end := e\<rparr>, v')"
proof (cases "mn_talk net (cn_addr cn) q v")
  case (Pair x v')
  show thesis
  proof (cases x)
    case (Inl e)
    then show thesis using that(1) Pair lost by (auto simp: send_def)
  next
    case (Inr p)
    then show thesis using that(2) Pair ends assms by (cases p) (auto simp: send_def)
  qed
qed

text \<open>Reading the single line of an answer: all of it, or an error that closes the connection.\<close>

lemma writeReadLine_law:
  assumes "cn_in cn = []" and "\<And>rep e v'. mn_talk net (cn_addr cn) q v = (Inr (rep, e), v') \<Longrightarrow> one_line rep"
    and "writeReadLine net q (cn, v) = (r, cn', v')"
  shows "\<exists>x. mn_talk net (cn_addr cn) q v = (x, v') \<and>
    (case r of Ok line \<Rightarrow> cn_in cn' = [] \<and> (\<exists>e. x = Inr (line, e)) | Fail e \<Rightarrow> \<not> resumableError e | Panic p \<Rightarrow> False)"
  using assms(1)
proof (cases rule: send_cases [of cn q v])
  case (1 e w)
  then show ?thesis using assms(3) by (auto simp: writeReadLine_def)
next
  case (2 rep e w)
  let ?cn = "cn\<lparr>cn_in := rep, cn_end := e\<rparr>"
  obtain l where l: "newline \<notin> set l" "length l < 4096" "prefix rep (l @ [newline])"
    using assms(2) [OF 2(1)] by (auto simp: one_line_def)
  show ?thesis
  proof (cases "rep = l @ [newline]")
    case True
    then have "ReadSlice (?cn, w) = (Ok rep, ?cn\<lparr>cn_in := []\<rparr>, w)" using ReadSlice_line [OF l(1,2), of ?cn "[]" w] by simp
    then show ?thesis using 2 assms(3) by (auto simp: writeReadLine_def)
  next
    case False
    then have "newline \<notin> set (cn_in ?cn)" using strict_prefix_line [OF _ l(1), of rep] l(3) by (simp add: strict_prefix_def)
    then obtain x cn2 where "ReadSlice (?cn, w) = (Fail x, cn2, w)" "\<not> resumableError x"
      using ReadSlice_open [of ?cn w] 2(2) by auto
    then show ?thesis using 2 assms(3) by (auto simp: writeReadLine_def)
  qed
qed

lemma get_on_conn:
  fixes v :: 'v
  assumes "legalKey k" "k \<noteq> []" "cn_in cn = []"
  defines "y \<equiv> andThen (send net (''gets '' @ join '' '' [k] @ crlf) (cn, v)) (\<lambda>_ (cn, v). parseGetResponse (mn_cap net) cn v)"
  shows "tidy y \<and> held (snd (snd y)) \<subseteq>\<^sub>m held v \<and>
    (\<forall>its. fst y = Ok its \<longrightarrow> its = [] \<or> (\<exists>it. held v k = Some it \<and> its = [it]))"
  using assms(3)
proof (cases rule: send_cases [of cn "gets_req k" v])
  case (1 e w)
  then show ?thesis using get_keeps [OF assms(1,2) 1(1)] by (simp add: y_def gets_req_def)
next
  case (2 rep e w)
  let ?cn = "cn\<lparr>cn_in := rep, cn_end := e\<rparr>"
  have y: "y = parseGetResponse (mn_cap net) ?cn w" using 2(3) by (simp add: y_def gets_req_def)
  consider "prefix rep resultEnd" | it where "held v k = Some it" "prefix rep (value_reply it)"
    using get_reply [OF assms(1,2) 2(1)] by blast
  then have "\<exists>r cn'. y = (r, cn', w) \<and> tidy (r, cn', w) \<and> (\<forall>its. r = Ok its \<longrightarrow> its = [] \<or> (\<exists>it. held v k = Some it \<and> its = [it]))"
  proof cases
    case 1
    then show ?thesis using parse_end [of ?cn "mn_cap net" w] 2(2) y by auto
  next
    case (2 it)
    have "item_ok k it" by (rule held_ok [OF 2(1)])
    then have "it_Key it = k" by (simp add: item_ok_def)
    then show ?thesis
      using parse_value [of it k ?cn "mn_cap net" w] \<open>item_ok k it\<close> 2 \<open>hard e\<close> assms(1,2) y by auto
  qed
  then show ?thesis using get_keeps [OF assms(1,2) 2(1)] by auto
qed

lemma Client_Get_law:
  assumes "clean c" "k \<noteq> []" "Client_Get net k c = (r, c')"
  shows "clean c' \<and> stored c' \<subseteq>\<^sub>m stored c \<and> (\<forall>it. r = Ok it \<longrightarrow> held (mc_peer c) k = Some it)"
proof (cases "legalKey k \<and> (\<exists>a. PickServer (mc_addrs c) k = Inr a)")
  case True
  then obtain a where a: "legalKey k" "PickServer (mc_addrs c) k = Inr a" by blast
  define R where "R v r v' \<longleftrightarrow> held v' \<subseteq>\<^sub>m held v \<and> (\<forall>its. r = Ok its \<longrightarrow> its = [] \<or> (\<exists>it. held v k = Some it \<and> its = [it]))"
    for v v' and r :: "item list res"
  obtain x c1 where x: "getFromAddr net a [k] c = (x, c1)" by fastforce
  have "clean c1 \<and> R (mc_peer c) x (mc_peer c1)"
  proof (rule withAddrRw_law [OF x [unfolded getFromAddr_def] assms(1)], goal_cases)
    case (1 cn v)
    then show ?case using get_on_conn [OF a(1) assms(2) 1] unfolding R_def by simp
  qed (auto simp: R_def intro: map_le_trans map_le_Some)
  moreover have "c' = c1" "\<forall>it. r = Ok it \<longrightarrow> (\<exists>its. x = Ok its \<and> its \<noteq> [] \<and> it = last its)"
    using assms(3) a x by (cases x; auto simp: Client_Get_def withKeyAddr_def split: if_splits)+
  ultimately show ?thesis using vals_mono unfolding R_def by fastforce
next
  case False
  then have "c' = c \<and> (\<forall>it. r \<noteq> Ok it)"
    using assms(3) by (auto simp: Client_Get_def withKeyAddr_def split: sum.splits if_splits)
  then show ?thesis using assms(1) by simp
qed

lemma line_on_conn:
  fixes v :: 'v
  assumes "cn_in cn = []" and "\<And>rep e v'. mn_talk net (cn_addr cn) q v = (Inr (rep, e), v') \<Longrightarrow> one_line rep"
    and "\<And>line s. kont line s = (judge line, s)"
  shows "answered_by net q judge cn v (andThen (writeReadLine net q (cn, v)) kont)"
proof -
  obtain r cn' v' where w: "writeReadLine net q (cn, v) = (r, cn', v')" by (metis prod.exhaust)
  obtain x where x: "mn_talk net (cn_addr cn) q v = (x, v')"
    "case r of Ok line \<Rightarrow> cn_in cn' = [] \<and> (\<exists>e. x = Inr (line, e)) | Fail e \<Rightarrow> \<not> resumableError e | Panic p \<Rightarrow> False"
    using writeReadLine_law [OF assms(1) _ w] assms(2) by blast
  show ?thesis
  proof (cases r)
    case (Ok line)
    then have "tidy (judge line, cn', v')" using x by (simp add: tidy_def split: res.split)
    then show ?thesis using w x Ok by (auto simp: answered_by_def assms(3))
  next
    case (Fail e)
    then show ?thesis using w x by (auto simp: answered_by_def)
  qed (use x in simp)
qed

lemma Client_Set_law:
  assumes "clean c" "Client_Set net it c = (r, c')" and key: "it_Key it \<noteq> []"
  shows "clean c' \<and> (stored c' \<subseteq>\<^sub>m (stored c)(it_Key it \<mapsto> it_Value it) \<or> r \<noteq> Ok () \<and> stored c' \<subseteq>\<^sub>m stored c)"
proof (cases "PickServer (mc_addrs c) (it_Key it)")
  case (Inl e)
  then show ?thesis using assms by (auto simp: Client_Set_def onItem_def)
next
  case (Inr a)
  define R where "R v r v' \<longleftrightarrow> vals held v' \<subseteq>\<^sub>m (vals held v)(it_Key it \<mapsto> it_Value it) \<or> r \<noteq> Ok () \<and> vals held v' \<subseteq>\<^sub>m vals held v"
    for v v' and r :: "unit res"
  have run: "withAddrRw net a (populateOne net ''set'' it) c = (r, c')" using assms(2) Inr by (simp add: Client_Set_def onItem_def)
  have "clean c' \<and> R (mc_peer c) r (mc_peer c')"
  proof (rule withAddrRw_law [OF run assms(1)], goal_cases)
    case (1 cn v)
    show ?case
    proof (cases "legalKey (it_Key it)")
      case False
      then show ?thesis using 1 by (simp add: populateOne_def R_def)
    next
      case True
      let ?y = "populateOne net ''set'' it (cn, v)"
      have y: "?y = andThen (writeReadLine net (populate_req ''set'' it) (cn, v)) (\<lambda>line s. (judge_set line, s))"
        unfolding populateOne_def judge_set_def using True by (auto intro!: arg_cong [where f = "andThen _"] simp: fun_eq_iff)
      have "answered_by net (populate_req ''set'' it) judge_set cn v ?y"
        unfolding y by (rule line_on_conn [OF 1]) (auto dest: set_line [OF True key])
      then obtain x where x: "tidy ?y" "mn_talk net (cn_addr cn) (populate_req ''set'' it) v = (x, snd (snd ?y))"
        "fst ?y = Ok () \<Longrightarrow> \<exists>e. x = Inr (resultStored, e)"
        by (auto simp: answered_by_def dest: judge_set_Ok)
      then show ?thesis using x(1) set_keeps [OF True key x(2)] by (auto simp: R_def)
    qed
  next
    case (3 u v r v')
    then show ?case using vals_mono [OF 3(1)] unfolding R_def by (metis map_le_trans map_le_upd)
  qed (auto simp: R_def vals_mono)
  then show ?thesis by (simp add: R_def)
qed

lemma Client_Delete_law:
  assumes "clean c" "Client_Delete net k c = (r, c')" and key: "k \<noteq> []"
  shows "clean c' \<and> (stored c' \<subseteq>\<^sub>m (stored c)(k := None) \<or> r \<notin> {Ok (), Fail ErrCacheMiss} \<and> stored c' \<subseteq>\<^sub>m stored c)"
proof (cases "legalKey k \<and> (\<exists>a. PickServer (mc_addrs c) k = Inr a)")
  case False
  then have "c' = c \<and> (r = Fail ErrMalformedKey \<or> r = Fail ErrNoServers)"
    using assms(2) by (auto simp: Client_Delete_def withKeyRw_def withKeyAddr_def PickServer_def split: sum.splits if_splits)
  then show ?thesis using assms(1) by (auto simp: ErrMalformedKey_def ErrNoServers_def)
next
  case True
  then obtain a where a: "legalKey k" "PickServer (mc_addrs c) k = Inr a" by blast
  define R where "R v r v' \<longleftrightarrow> vals held v' \<subseteq>\<^sub>m (vals held v)(k := None) \<or> r \<notin> {Ok (), Fail ErrCacheMiss} \<and> vals held v' \<subseteq>\<^sub>m vals held v"
    for v v' and r :: "unit res"
  have run: "withAddrRw net a (writeExpectf net resultDeleted (delete_req k)) c = (r, c')"
    using assms(2) a by (simp add: Client_Delete_def withKeyRw_def withKeyAddr_def delete_req_def)
  have "clean c' \<and> R (mc_peer c) r (mc_peer c')"
  proof (rule withAddrRw_law [OF run assms(1)], goal_cases)
    case (1 cn v)
    let ?y = "writeExpectf net resultDeleted (delete_req k) (cn, v)"
    have y: "?y = andThen (writeReadLine net (delete_req k) (cn, v)) (\<lambda>line s. (judge_delete line, s))"
      unfolding writeExpectf_def judge_delete_def by (auto intro!: arg_cong [where f = "andThen _"] simp: fun_eq_iff)
    have "answered_by net (delete_req k) judge_delete cn v ?y"
      unfolding y by (rule line_on_conn [OF 1]) (auto dest: del_line [OF a(1) key])
    then obtain x where x: "tidy ?y" "mn_talk net (cn_addr cn) (delete_req k) v = (x, snd (snd ?y))"
      "fst ?y \<in> {Ok (), Fail ErrCacheMiss} \<Longrightarrow> \<exists>line e. x = Inr (line, e) \<and> judge_delete line \<in> {Ok (), Fail ErrCacheMiss}"
      unfolding answered_by_def using miss_resumable by fastforce
    have "fst ?y \<in> {Ok (), Fail ErrCacheMiss} \<Longrightarrow> \<exists>line e. x = Inr (line, e) \<and> line \<in> {resultOK, resultDeleted, resultNotFound}"
      using x(3) judge_delete_gone by blast
    then show ?case using x(1) del_keeps [OF a(1) key x(2)] by (auto simp: R_def)
  next
    case (3 u v r v')
    then show ?case using vals_mono [OF 3(1)] unfolding R_def by (meson map_le_trans map_le_upd)
  qed (auto simp: R_def vals_mono resumableError_def)
  then show ?thesis by (simp add: R_def)
qed

end

section \<open>A reference server\<close>

text \<open>The three commands the cache uses, on a table that never evicts; values over a megabyte are refused.\<close>

record mcd =
  mcd_items :: "(string \<times> item) list"
  mcd_cas :: nat

text \<open>What it holds: the entries whose names and sizes are those of the protocol.\<close>

definition mcd_held :: "mcd \<Rightarrow> string \<Rightarrow> item option" where
  "mcd_held v k = (case map_of (mcd_items v) k of Some it \<Rightarrow> if item_ok k it then Some it else None | None \<Rightarrow> None)"

definition mcd_line :: "bytes \<Rightarrow> string list" where
  "mcd_line req = str_fields (takeWhile (\<lambda>c. c \<noteq> newline) req)"

definition mcd_body :: "bytes \<Rightarrow> bytes" where
  "mcd_body req = drop 1 (dropWhile (\<lambda>c. c \<noteq> newline) req)"

definition bad_chunk :: bytes where "bad_chunk = ''CLIENT_ERROR bad data chunk'' @ crlf"
definition too_large :: bytes where "too_large = ''SERVER_ERROR object too large for cache'' @ crlf"

definition mcd_talk :: "string \<Rightarrow> bytes \<Rightarrow> mcd \<Rightarrow> (error + bytes \<times> error option) \<times> mcd" where
  "mcd_talk a req v =
     (let say = (\<lambda>rep v. (Inr (rep, Some (Errorf ''i/o timeout'')), v)); b = mcd_body req; ws = mcd_line req in
      if length ws = 2 \<and> ws ! 0 = ''gets'' then
        say (case mcd_held v (ws ! 1) of None \<Rightarrow> resultEnd | Some it \<Rightarrow> value_reply it) v
      else if length ws = 2 \<and> ws ! 0 = ''delete'' then
        (if map_of (mcd_items v) (ws ! 1) = None then say resultNotFound v
         else say resultDeleted (v\<lparr>mcd_items := filter (\<lambda>e. fst e \<noteq> ws ! 1) (mcd_items v)\<rparr>))
      else if length ws = 5 \<and> ws ! 0 = ''set'' then
        (case (parse_uint 32 (ws ! 2), parse_uint 20 (ws ! 4)) of
           (Some fl, Some len) \<Rightarrow>
             if length b = len + 2 \<and> suffix crlf b then
               say resultStored
                 \<lparr>mcd_items = gm_set (ws ! 1) \<lparr>it_Key = ws ! 1, it_Value = take len b, it_Flags = fl, it_Expiration = 0,
                    it_casid = mcd_cas v mod 2 ^ 64\<rparr> (mcd_items v), mcd_cas = Suc (mcd_cas v)\<rparr>
             else say bad_chunk v
         | _ \<Rightarrow> say too_large v)
      else say (''ERROR'' @ crlf) v)"

definition mcd_net :: "mcd mc_net" where
  "mcd_net = \<lparr>mn_dial = (\<lambda>a v. (None, v)), mn_talk = mcd_talk, mn_cap = (\<lambda>n. n)\<rparr>"

lemma solid_no_newline: "solid x \<Longrightarrow> newline \<notin> set x"
  by (auto simp: list_all_iff)

lemma at_newline:
  "newline \<notin> set h \<Longrightarrow> takeWhile (\<lambda>c. c \<noteq> newline) (h @ newline # b) = h \<and> dropWhile (\<lambda>c. c \<noteq> newline) (h @ newline # b) = newline # b"
  by (induction h) auto

lemma mcd_request:
  assumes "list_all solid xs" "solid y"
  shows "mcd_line (concat (map (\<lambda>x. x @ '' '') xs) @ y @ crlf @ b) = xs @ [y]"
    "mcd_body (concat (map (\<lambda>x. x @ '' '') xs) @ y @ crlf @ b) = b"
proof -
  let ?h = "concat (map (\<lambda>x. x @ '' '') xs) @ y @ [CHR 0x0D]"
  have h: "newline \<notin> set ?h" using assms solid_no_newline by (auto simp: newline_def list_all_iff)
  have req: "concat (map (\<lambda>x. x @ '' '') xs) @ y @ crlf @ b = ?h @ newline # b" by (simp add: crlf_def)
  have "takeWhile (\<lambda>c. c \<noteq> newline) (?h @ newline # b) = ?h" "dropWhile (\<lambda>c. c \<noteq> newline) (?h @ newline # b) = newline # b"
    using at_newline [OF h, of b] by simp_all
  then show "mcd_line (concat (map (\<lambda>x. x @ '' '') xs) @ y @ crlf @ b) = xs @ [y]"
    "mcd_body (concat (map (\<lambda>x. x @ '' '') xs) @ y @ crlf @ b) = b"
    unfolding req mcd_line_def mcd_body_def using fields_line [OF assms, of "CHR 0x0D" "[]"] by simp_all
qed

lemma solid_dec_int: "solid (dec_int i)"
  using solid_dec [of "nat (- i)"] solid_dec [of "nat i"] by (simp add: dec_int_def blank_def newline_def del: solid_dec)

lemma mcd_gets:
  assumes "legalKey k" "k \<noteq> []"
  shows "mcd_line (gets_req k) = [''gets'', k]"
  using mcd_request(1) [of "[''gets'']" k "[]"] legal_solid [OF assms] by (simp add: gets_req_def word_solid [simplified])

lemma mcd_deletes:
  assumes "legalKey k" "k \<noteq> []"
  shows "mcd_line (delete_req k) = [''delete'', k]"
  using mcd_request(1) [of "[''delete'']" k "[]"] legal_solid [OF assms] by (simp add: delete_req_def word_solid [simplified])

lemma mcd_sets:
  assumes "legalKey (it_Key it)" "it_Key it \<noteq> []"
  shows "mcd_line (populate_req ''set'' it) =
      [''set'', it_Key it, dec_nat (it_Flags it), dec_int (it_Expiration it), dec_nat (length (it_Value it))]"
    "mcd_body (populate_req ''set'' it) = it_Value it @ crlf"
  using mcd_request [of "[''set'', it_Key it, dec_nat (it_Flags it), dec_int (it_Expiration it)]" "dec_nat (length (it_Value it))" "it_Value it @ crlf"]
    legal_solid [OF assms] solid_dec_int solid_dec by (simp_all add: populate_req_def word_solid [simplified])

lemma one_line_words: "one_line resultStored" "one_line resultNotFound" "one_line resultDeleted"
  "one_line bad_chunk" "one_line too_large"
proof -
  have "one_line (l @ crlf)" if "newline \<notin> set l" "length l < 4000" for l
    using that by (intro one_line_def [THEN iffD2] exI [of _ "l @ [CHR 0x0D]"]) (simp add: crlf_def newline_def)
  then show "one_line resultStored" "one_line resultNotFound" "one_line resultDeleted"
    "one_line bad_chunk" "one_line too_large"
    unfolding resultStored_def resultNotFound_def resultDeleted_def bad_chunk_def too_large_def
    by (simp_all add: newline_def del: append.simps)
qed

lemma mcd_set_talk:
  assumes "legalKey (it_Key it)" "it_Key it \<noteq> []" "mcd_talk a (populate_req ''set'' it) v = (x, v')"
  shows "(vals mcd_held v' \<subseteq>\<^sub>m (vals mcd_held v)(it_Key it \<mapsto> it_Value it) \<or>
      (\<forall>e. x \<noteq> Inr (resultStored, e)) \<and> vals mcd_held v' \<subseteq>\<^sub>m vals mcd_held v) \<and> (\<forall>rep e. x = Inr (rep, e) \<longrightarrow> one_line rep)"
proof (cases "parse_uint 32 (dec_nat (it_Flags it)) = None \<or> parse_uint 20 (dec_nat (length (it_Value it))) = None")
  case True
  then have "x = Inr (too_large, Some (Errorf ''i/o timeout''))" "v' = v"
    using assms(3) by (auto simp: mcd_talk_def Let_def mcd_sets [OF assms(1,2)] split: option.splits)
  then show ?thesis using one_line_words by (auto simp: resultStored_def too_large_def)
next
  case False
  then have "parse_uint 32 (dec_nat (it_Flags it)) = Some (it_Flags it)"
    "parse_uint 20 (dec_nat (length (it_Value it))) = Some (length (it_Value it))" "length (it_Value it) < 2 ^ 20" "it_Flags it < 2 ^ 32"
    using dec_nat_digits by (auto simp: parse_uint_def Let_def split: if_splits)
  then have "x = Inr (resultStored, Some (Errorf ''i/o timeout''))"
    "v' = \<lparr>mcd_items = gm_set (it_Key it) \<lparr>it_Key = it_Key it, it_Value = it_Value it, it_Flags = it_Flags it, it_Expiration = 0,
      it_casid = mcd_cas v mod 2 ^ 64\<rparr> (mcd_items v), mcd_cas = Suc (mcd_cas v)\<rparr>"
    using assms(3) by (auto simp: mcd_talk_def Let_def mcd_sets [OF assms(1,2)] crlf_def suffix_def)
  moreover from this have "vals mcd_held v' \<subseteq>\<^sub>m (vals mcd_held v)(it_Key it \<mapsto> it_Value it)"
    by (auto simp: map_le_def vals_def mcd_held_def split: if_splits option.splits)
  ultimately show ?thesis using one_line_words(1) by auto
qed

lemma mcd_del_talk:
  assumes "legalKey k" "k \<noteq> []" "mcd_talk a (delete_req k) v = (x, v')"
  shows "vals mcd_held v' \<subseteq>\<^sub>m (vals mcd_held v)(k := None) \<and> (\<forall>rep e. x = Inr (rep, e) \<longrightarrow> one_line rep)"
proof -
  have m: "map_of (filter (\<lambda>e. fst e \<noteq> k) m) = (map_of m)(k := None)" for m :: "(string \<times> item) list"
    by (induction m) (auto simp: fun_eq_iff)
  have "vals mcd_held v' \<subseteq>\<^sub>m (vals mcd_held v)(k := None)"
    using assms(3) by (auto simp: mcd_talk_def Let_def mcd_deletes [OF assms(1,2)] map_le_def vals_def mcd_held_def m split: if_splits option.splits)
  moreover have "\<forall>rep e. x = Inr (rep, e) \<longrightarrow> rep = resultNotFound \<or> rep = resultDeleted"
    using assms(3) by (auto simp: mcd_talk_def Let_def mcd_deletes [OF assms(1,2)] split: if_splits)
  ultimately show ?thesis using one_line_words by auto
qed

lemma mcd_talk_answers: "mcd_talk a q v = (x, v') \<Longrightarrow> \<exists>rep. x = Inr (rep, Some (Errorf ''i/o timeout''))"
  unfolding mcd_talk_def Let_def by (auto split: option.splits if_splits)

interpretation mcd: memcached_peer mcd_net mcd_held
proof
  show "item_ok k it" if "mcd_held v k = Some it" for v k it
    using that by (auto simp: mcd_held_def split: option.splits if_splits)
  fix a k q rep it and v v' :: mcd and x :: "error + bytes \<times> error option" and e :: "error option" and er
  show "mcd_held v' \<subseteq>\<^sub>m mcd_held v \<and> (\<forall>e t. d = Some (e, t) \<longrightarrow> \<not> resumableError e)" if "mn_dial mcd_net a v = (d, v')" for d
    using that by (simp add: mcd_net_def)
  show "\<not> resumableError er" if "mn_talk mcd_net a q v = (Inl er, v')"
    using that mcd_talk_answers [of a q v] by (auto simp: mcd_net_def)
  show "hard e" if "mn_talk mcd_net a q v = (Inr (rep, e), v')"
    using that mcd_talk_answers [of a q v] by (auto simp: mcd_net_def)
  show "mcd_held v' \<subseteq>\<^sub>m mcd_held v" if "legalKey k" "k \<noteq> []" "mn_talk mcd_net a (gets_req k) v = (x, v')"
    using that by (simp add: mcd_net_def mcd_talk_def Let_def mcd_gets)
  show "prefix rep resultEnd \<or> (\<exists>it. mcd_held v k = Some it \<and> prefix rep (value_reply it))"
    if "legalKey k" "k \<noteq> []" "mn_talk mcd_net a (gets_req k) v = (Inr (rep, e), v')"
    using that by (auto simp: mcd_net_def mcd_talk_def Let_def mcd_gets split: option.splits)
qed (use mcd_set_talk mcd_del_talk in \<open>auto simp: mcd_net_def\<close>)

text \<open>Over the reference server the operations succeed: the connection is there, the answer arrives whole.\<close>

lemma PickServer_some: "addrs \<noteq> [] \<Longrightarrow> \<exists>a. PickServer addrs k = Inr a"
  by (simp add: PickServer_def)

lemma mcd_conn:
  assumes "clean c"
  obtains cn c1 where "getConn mcd_net a c = (Ok cn, c1)" "cn_in cn = []" "clean c1" "mc_peer c1 = mc_peer c" "mc_addrs c1 = mc_addrs c"
proof (cases "getFreeConn a c")
  case None
  then show thesis using that assms by (simp add: getConn_def mc_dial_def mcd_net_def clean_def)
next
  case (Some p)
  obtain cn c1 where p: "p = (cn, c1)" by fastforce
  show thesis using that [of cn c1] getFreeConn_clean [OF _ assms, of a cn c1] Some by (simp add: getConn_def p)
qed

lemma mcd_get_run:
  assumes "clean c" "mc_addrs c \<noteq> []" "legalKey k" "k \<noteq> []" "mcd_held (mc_peer c) k = Some it"
  shows "\<exists>c'. Client_Get mcd_net k c = (Ok it, c') \<and> mc_peer c' = mc_peer c \<and> mc_addrs c' = mc_addrs c"
proof -
  obtain a where a: "PickServer (mc_addrs c) k = Inr a" using PickServer_some [OF assms(2)] by blast
  obtain cn c1 where cn: "getConn mcd_net a c = (Ok cn, c1)" "cn_in cn = []" "mc_peer c1 = mc_peer c" "mc_addrs c1 = mc_addrs c"
    using mcd_conn [OF assms(1)] by blast
  have it: "item_ok k it" "it_Key it = k" using assms(5) by (auto simp: mcd_held_def item_ok_def split: option.splits if_splits)
  let ?cn = "cn\<lparr>cn_in := value_reply it, cn_end := Some (Errorf ''i/o timeout'')\<rparr>"
  have "send mcd_net (gets_req k) (cn, mc_peer c) = (Ok (), ?cn, mc_peer c)"
    by (simp add: send_def mcd_net_def mcd_talk_def Let_def mcd_gets [OF assms(3,4)] assms(5) cn(2))
  moreover have "parseGetResponse cap ?cn v = (Ok [it], ?cn\<lparr>cn_in := []\<rparr>, v)" for cap and v :: mcd
    by (rule parse_value_whole) (use assms(3,4) it in simp_all)
  ultimately have "Client_Get mcd_net k c = (Ok it, condRelease (Ok [it]) (?cn\<lparr>cn_in := []\<rparr>) (c1\<lparr>mc_peer := mc_peer c\<rparr>))"
    using assms(3) a cn
    by (simp add: Client_Get_def withKeyAddr_def getFromAddr_def withAddrRw_def gets_req_def)
  then show ?thesis using cn(4) by simp
qed

lemma mcd_set_run:
  assumes "clean c" "mc_addrs c \<noteq> []" "legalKey (it_Key it)" "it_Key it \<noteq> []" "it_Flags it < 2 ^ 32" "length (it_Value it) < 2 ^ 20"
  shows "\<exists>c' i. Client_Set mcd_net it c = (Ok (), c') \<and> clean c' \<and> mc_addrs c' = mc_addrs c \<and>
    mcd_held (mc_peer c') = (mcd_held (mc_peer c))(it_Key it \<mapsto> it\<lparr>it_Expiration := 0, it_casid := i\<rparr>)"
proof -
  let ?k = "it_Key it" and ?v = "mc_peer c"
  obtain a where a: "PickServer (mc_addrs c) ?k = Inr a" using PickServer_some [OF assms(2)] by blast
  obtain cn c1 where cn: "getConn mcd_net a c = (Ok cn, c1)" "cn_in cn = []" "clean c1" "mc_peer c1 = ?v" "mc_addrs c1 = mc_addrs c"
    using mcd_conn [OF assms(1)] by blast
  define i where "i = mcd_cas ?v mod 2 ^ 64"
  define it' where "it' = it\<lparr>it_Expiration := 0, it_casid := i\<rparr>"
  define v' where "v' = \<lparr>mcd_items = gm_set ?k it' (mcd_items ?v), mcd_cas = Suc (mcd_cas ?v)\<rparr>"
  have p: "parse_uint 32 (dec_nat (it_Flags it)) = Some (it_Flags it)" "parse_uint 20 (dec_nat (length (it_Value it))) = Some (length (it_Value it))"
    by (rule parse_uint_dec, use assms(5,6) in simp)+
  have it': "it' = \<lparr>it_Key = ?k, it_Value = it_Value it, it_Flags = it_Flags it, it_Expiration = 0, it_casid = mcd_cas ?v mod 2 ^ 64\<rparr>"
    by (cases it) (simp add: it'_def i_def)
  have "mcd_talk (cn_addr cn) (populate_req ''set'' it) ?v = (Inr (resultStored, Some (Errorf ''i/o timeout'')), v')"
    unfolding mcd_talk_def Let_def mcd_sets [OF assms(3,4)] v'_def it' by (simp add: p crlf_def suffix_def)
  then have s: "send mcd_net (populate_req ''set'' it) (cn, ?v) = (Ok (), cn\<lparr>cn_in := resultStored, cn_end := Some (Errorf ''i/o timeout'')\<rparr>, v')"
    by (simp add: send_def mcd_net_def cn(2))
  have rs: "ReadSlice (cn\<lparr>cn_in := resultStored, cn_end := e\<rparr>, v') = (Ok resultStored, cn\<lparr>cn_in := [], cn_end := e\<rparr>, v')" for e
    by (simp add: ReadSlice_def Let_def resultStored_def crlf_def newline_def)
  have "Client_Set mcd_net it c = (Ok (), condRelease (Ok ()) (cn\<lparr>cn_in := [], cn_end := Some (Errorf ''i/o timeout'')\<rparr>) (c1\<lparr>mc_peer := v'\<rparr>))"
    using assms(3) a cn by (simp add: Client_Set_def onItem_def withAddrRw_def populateOne_def writeReadLine_def s rs)
  moreover have "clean (condRelease (Ok ()) (cn\<lparr>cn_in := [], cn_end := e\<rparr>) (c1\<lparr>mc_peer := v'\<rparr>))" for e
    by (rule clean_release [where v = "()"]) (use cn(3) in \<open>simp_all add: clean_def\<close>)
  moreover have "mcd_held v' = (mcd_held ?v)(?k \<mapsto> it')"
    using assms(5,6) by (auto simp: fun_eq_iff mcd_held_def v'_def it' item_ok_def)
  ultimately show ?thesis using cn(5) unfolding it'_def by auto
qed

end
