(* ===== verification/Attempt.thy ===== *)
theory Attempt
  imports Main
begin

text \<open>
  The retry strategy of the AWS library, \<^verbatim>\<open>gopkg.in/amz.v3/aws/attempt.go\<close>: attempts go on for a total
  duration, with a delay between two of them, and at least a minimum number of times. Each reading of the
  clock is an argument, so the theorems hold for every clock with the properties they name. Times and
  durations are integers (nanoseconds).

  A run is a sequence of calls of \<^verbatim>\<open>Next\<close> and \<^verbatim>\<open>HasNext\<close> on a clock that does not go back, where sleeping
  takes at least as long as was asked; it is an inductive relation, and the number of attempts is bounded
  along it.
\<close>

record AttemptStrategy =
  as_Total :: int
  as_Delay :: int
  as_Min :: int

record Attempt =
  at_strategy :: AttemptStrategy
  at_last :: int
  at_end :: int
  at_force :: bool
  at_count :: int

definition Attempt_Start :: "AttemptStrategy \<Rightarrow> int \<Rightarrow> Attempt" where
  "Attempt_Start s t = \<lparr>at_strategy = s, at_last = t, at_end = t + as_Total s, at_force = True, at_count = 0\<rparr>"

definition nextSleep :: "Attempt \<Rightarrow> int \<Rightarrow> int" where
  "nextSleep a t = (let sleep = as_Delay (at_strategy a) - (t - at_last a) in if sleep < 0 then 0 else sleep)"

text \<open>The clock reads \<open>t\<close> at the call and \<open>t'\<close> after the sleep, if there is one.\<close>

definition sleeps :: "Attempt \<Rightarrow> int \<Rightarrow> bool" where
  "sleeps a t \<longleftrightarrow> nextSleep a t > 0 \<and> at_count a > 0"

definition Attempt_Next :: "Attempt \<Rightarrow> int \<Rightarrow> int \<Rightarrow> bool \<times> Attempt" where
  "Attempt_Next a t t' =
     (if \<not> at_force a \<and> \<not> t + nextSleep a t < at_end a \<and> as_Min (at_strategy a) \<le> at_count a then (False, a)
      else (True, a\<lparr>at_force := False, at_count := at_count a + 1, at_last := (if sleeps a t then t' else t)\<rparr>))"

definition HasNext :: "Attempt \<Rightarrow> int \<Rightarrow> bool \<times> Attempt" where
  "HasNext a t =
     (if at_force a \<or> as_Min (at_strategy a) > at_count a then (True, a)
      else if t + nextSleep a t < at_end a then (True, a\<lparr>at_force := True\<rparr>)
      else (False, a))"

lemma HasNext_cases: "HasNext a t = (b, a') \<Longrightarrow> a' = a \<or> b \<and> a' = a\<lparr>at_force := True\<rparr> \<and> t + nextSleep a t < at_end a"
  by (auto simp: HasNext_def split: if_splits)

lemma HasNext_Next: "HasNext a t = (True, a') \<Longrightarrow> fst (Attempt_Next a' u u')"
  by (auto simp: HasNext_def Attempt_Next_def split: if_splits)

lemma Next_expired:
  "\<not> at_force a \<Longrightarrow> at_end a \<le> t \<Longrightarrow> as_Min (at_strategy a) \<le> at_count a \<Longrightarrow> Attempt_Next a t t' = (False, a)"
  by (auto simp: Attempt_Next_def nextSleep_def Let_def)

section \<open>Runs\<close>

text \<open>\<open>attempts_run s t0 t a\<close>: the attempt started at \<open>t0\<close> is in state \<open>a\<close> when the clock reads \<open>t\<close>.\<close>

inductive attempts_run :: "AttemptStrategy \<Rightarrow> int \<Rightarrow> int \<Rightarrow> Attempt \<Rightarrow> bool" for s t0 where
  run_start: "attempts_run s t0 t0 (Attempt_Start s t0)"
| run_wait: "attempts_run s t0 t a \<Longrightarrow> t \<le> u \<Longrightarrow> attempts_run s t0 u a"
| run_next: "attempts_run s t0 t a \<Longrightarrow> Attempt_Next a t t' = (b, a') \<Longrightarrow> t + nextSleep a t \<le> t' \<Longrightarrow>
    attempts_run s t0 (if b \<and> sleeps a t then t' else t) a'"
| run_has: "attempts_run s t0 t a \<Longrightarrow> HasNext a t = (b, a') \<Longrightarrow> attempts_run s t0 t a'"

definition within :: "AttemptStrategy \<Rightarrow> int \<Rightarrow> int \<Rightarrow> Attempt \<Rightarrow> bool" where
  "within s t0 t a \<longleftrightarrow> at_strategy a = s \<and> at_end a = t0 + as_Total s \<and> 0 \<le> at_count a \<and> t0 \<le> at_last a \<and> at_last a \<le> t \<and>
     (at_count a > 0 \<longrightarrow> (at_count a - 1) * as_Delay s \<le> at_last a - t0) \<and>
     (at_force a \<longrightarrow> at_count a = 0 \<or> at_count a * as_Delay s < as_Total s) \<and>
     (at_count a \<le> 1 \<or> at_count a \<le> as_Min s \<or> (at_count a - 1) * as_Delay s < as_Total s)"

lemma nextSleep_enough: "as_Delay (at_strategy a) \<le> t + nextSleep a t - at_last a"
  by (simp add: nextSleep_def Let_def)

lemma within_has:
  assumes "within s t0 t a" "HasNext a t = (b, a')"
  shows "within s t0 t a'"
proof -
  consider "a' = a" | "a' = a\<lparr>at_force := True\<rparr>" "t + nextSleep a t < at_end a" using HasNext_cases [OF assms(2)] by blast
  then show ?thesis
  proof cases
    case 2
    have "at_count a * as_Delay s = (at_count a - 1) * as_Delay s + as_Delay s" by (simp add: left_diff_distrib)
    then have "at_count a = 0 \<or> at_count a * as_Delay s < as_Total s"
      using assms(1) 2(2) nextSleep_enough [of a t] by (auto simp: within_def)
    then show ?thesis using assms(1) 2(1) by (simp add: within_def)
  qed (use assms(1) in simp)
qed

lemma within_next:
  assumes w: "within s t0 t a" and "Attempt_Next a t t' = (b, a')" and "t + nextSleep a t \<le> t'"
  shows "within s t0 (if b \<and> sleeps a t then t' else t) a'"
proof (cases b)
  case False
  then show ?thesis using w assms(2) by (auto simp: Attempt_Next_def split: if_splits)
next
  case True
  let ?l = "if sleeps a t then t' else t"
  have a': "a' = a\<lparr>at_force := False, at_count := at_count a + 1, at_last := ?l\<rparr>"
    using assms(2) True by (auto simp: Attempt_Next_def split: if_splits)
  have go: "at_force a \<or> t + nextSleep a t < at_end a \<or> at_count a < as_Min s"
    using assms(2) True w by (auto simp: Attempt_Next_def within_def split: if_splits)
  have pos: "0 \<le> nextSleep a t" by (simp add: nextSleep_def Let_def)
  have l: "t \<le> ?l" using pos assms(3) by auto
  have s: "at_strategy a = s" using w by (simp add: within_def)
  have cd: "at_count a * as_Delay s = (at_count a - 1) * as_Delay s + as_Delay s" by (simp add: left_diff_distrib)
  have far: "at_count a * as_Delay s \<le> t + nextSleep a t - t0" if "at_count a > 0"
    using that w nextSleep_enough [of a t] cd by (auto simp: within_def)
  have step: "at_count a * as_Delay s \<le> ?l - t0"
  proof (cases "at_count a > 0")
    case True
    then have "t + nextSleep a t \<le> ?l" using pos assms(3) by (auto simp: sleeps_def)
    then show ?thesis using far [OF True] by simp
  next
    case False
    then have "at_count a = 0" using w by (simp add: within_def)
    then show ?thesis using l w by (simp add: within_def)
  qed
  have bound: "at_count a = 0 \<or> at_count a + 1 \<le> as_Min s \<or> at_count a * as_Delay s < as_Total s"
  proof (cases "at_count a > 0")
    case True
    then show ?thesis using go w far by (auto simp: within_def)
  next
    case False
    then show ?thesis using w by (auto simp: within_def)
  qed
  show ?thesis using w a' True l step bound s by (auto simp: within_def)
qed

lemma run_within: "attempts_run s t0 t a \<Longrightarrow> within s t0 t a"
proof (induction rule: attempts_run.induct)
  case run_start
  then show ?case by (auto simp: within_def Attempt_Start_def)
next
  case (run_wait t a u)
  then show ?case by (auto simp: within_def)
qed (use within_next within_has in blast)+

end
