(* ===== verification/Claims_Memcache.thy ===== *)
theory Claims_Memcache
  imports Memcache_Correct Attempt
begin

text \<open>
  The properties of the memcached client and of the retry strategy. The three laws of the client are the ones the
  blob cache relies on (\<open>memcached_law\<close>), here proved of the library's own code over any server that keeps to the
  protocol; the reference server is the example.
\<close>

section \<open>A client to try them on\<close>

definition mcd_client :: "mcd mc_client" where
  "mcd_client = Memcache_New (\<lambda>_ s. Inr s) [''10.0.0.1:11211'', ''10.0.0.2:11211'']
     \<lparr>mcd_items = [(''k'', \<lparr>it_Key = ''k'', it_Value = ''abc'', it_Flags = 0, it_Expiration = 0, it_casid = 0\<rparr>)], mcd_cas = 1\<rparr>"

definition mcd_item :: "string \<Rightarrow> bytes \<Rightarrow> item" where
  "mcd_item k b = \<lparr>it_Key = k, it_Value = b, it_Flags = 0, it_Expiration = 0, it_casid = 0\<rparr>"

lemma mcd_client_clean: "clean mcd_client"
  by (simp add: clean_def mcd_client_def Memcache_New_def freelist_def)

lemma mcd_client_pool: "pool_bounded mcd_client"
  by (simp add: pool_bounded_def mcd_client_def Memcache_New_def freelist_def)

section \<open>The laws of the client\<close>

text \<open>C16. A get over a server that keeps to the protocol, whose answers may break off anywhere and whose entries may
  disappear at any time: what it returns is what the server held under that very key, never the rest of an earlier
  answer, and the pooled connections are left without unread bytes.\<close>

theorem memcache_get:
  assumes "memcached_peer net held" and "clean c" and "k \<noteq> []" and "Client_Get net k c = (r, c')"
  shows "clean c' \<and> vals held (mc_peer c') \<subseteq>\<^sub>m vals held (mc_peer c) \<and>
    (\<forall>it. r = Ok it \<longrightarrow> held (mc_peer c) k = Some it)"
  using memcached_peer.Client_Get_law [OF assms(1), of c k r c'] assms(2-4) by blast

theorem memcache_get_witness:
  "\<exists>it c'. Client_Get mcd_net ''k'' mcd_client = (Ok it, c') \<and> it_Value it = ''abc'' \<and> clean c' \<and>
     mcd_held (mc_peer mcd_client) ''k'' = Some it"
proof -
  let ?it = "mcd_item ''k'' ''abc''"
  have "mcd_held (mc_peer mcd_client) ''k'' = Some ?it"
    by (simp add: mcd_held_def mcd_client_def Memcache_New_def mcd_item_def item_ok_def)
  moreover have "mc_addrs mcd_client \<noteq> []" "legalKey ''k''"
    by (simp_all add: mcd_client_def Memcache_New_def legalKey_def code_def)
  ultimately obtain c' where g: "Client_Get mcd_net ''k'' mcd_client = (Ok ?it, c')"
    using mcd_get_run [OF mcd_client_clean] by blast
  then show ?thesis using memcache_get [OF mcd.memcached_peer_axioms mcd_client_clean _ g] by (simp add: mcd_item_def)
qed

text \<open>C17. A set, if it reports success, leaves at most the new value under its key and touches no other entry; if it
  reports an error it may have taken effect or not, and nothing else happens.\<close>

theorem memcache_set:
  assumes "memcached_peer net held" and "clean c" and "it_Key it \<noteq> []" and "Client_Set net it c = (r, c')"
  shows "clean c' \<and> (vals held (mc_peer c') \<subseteq>\<^sub>m (vals held (mc_peer c))(it_Key it \<mapsto> it_Value it) \<or>
    r \<noteq> Ok () \<and> vals held (mc_peer c') \<subseteq>\<^sub>m vals held (mc_peer c))"
  using memcached_peer.Client_Set_law [OF assms(1), of c it r c'] assms(2-4) by blast

theorem memcache_set_witness:
  "\<exists>c'. Client_Set mcd_net (mcd_item ''k'' ''new'') mcd_client = (Ok (), c') \<and> clean c' \<and>
     vals mcd_held (mc_peer c') \<subseteq>\<^sub>m (vals mcd_held (mc_peer mcd_client))(''k'' \<mapsto> ''new'')"
proof -
  let ?it = "mcd_item ''k'' ''new''"
  have "mc_addrs mcd_client \<noteq> []" "legalKey (it_Key ?it)" "it_Key ?it \<noteq> []" "it_Flags ?it < 2 ^ 32" "length (it_Value ?it) < 2 ^ 20"
    by (simp_all add: mcd_client_def Memcache_New_def legalKey_def code_def mcd_item_def)
  from mcd_set_run [OF mcd_client_clean this] obtain c' where g: "Client_Set mcd_net ?it mcd_client = (Ok (), c')" by blast
  from memcache_set [OF mcd.memcached_peer_axioms mcd_client_clean _ g] show ?thesis
    using g by (simp add: mcd_item_def)
qed

text \<open>A delete that reports success or a miss has left nothing under its key; on any other error the entries are at
  most those from before.\<close>

lemma memcache_delete:
  assumes "memcached_peer net held" and "clean c" and "k \<noteq> []" and "Client_Delete net k c = (r, c')"
  shows "clean c' \<and> (vals held (mc_peer c') \<subseteq>\<^sub>m (vals held (mc_peer c))(k := None) \<or>
    r \<notin> {Ok (), Fail ErrCacheMiss} \<and> vals held (mc_peer c') \<subseteq>\<^sub>m vals held (mc_peer c))"
  using memcached_peer.Client_Delete_law [OF assms(1), of c k r c'] assms(2-4) by blast



section \<open>Keys and servers\<close>

text \<open>A key that the protocol could misread is refused before anything is sent: with a key that is too long or that
  has a blank, a control character or a newline in it, every operation of one key fails with the same error and leaves the
  client as it is; a key that passes is one word of the request line.\<close>

lemma memcache_key_checked:
  assumes "\<not> legalKey k"
  shows "Client_Get net k c = (Fail ErrMalformedKey, c) \<and> Client_Delete net k c = (Fail ErrMalformedKey, c) \<and>
    Touch net k n c = (Fail ErrMalformedKey, c) \<and> Increment net k d c = (Fail ErrMalformedKey, c) \<and>
    Decrement net k d c = (Fail ErrMalformedKey, c) \<and>
    (\<forall>key. key \<noteq> [] \<longrightarrow> legalKey key \<longrightarrow> str_fields (''gets '' @ key @ crlf) = [''gets'', key])"
proof -
  have "str_fields (''gets '' @ key @ crlf) = [''gets'', key]" if "key \<noteq> []" "legalKey key" for key
    using fields_line [of "[''gets'']" key "CHR 0x0D" "[newline]"] legal_solid [OF that(2,1)]
    by (simp add: crlf_def word_solid [simplified])
  then show ?thesis using assms
    by (simp add: Client_Get_def Client_Delete_def Touch_def Increment_def Decrement_def incrDecr_def withKeyRw_def withKeyAddr_def)
qed

text \<open>A server is always found if there is one: the checksum of the key, reduced modulo the number of servers in 32
  bits, is an index into the list, for lists of any length below two to the thirty-two.\<close>

lemma PickServer_in_range:
  assumes "addrs \<noteq> []" and "length addrs < 2 ^ 32"
  shows "\<exists>i < length addrs. PickServer addrs key = Inr (addrs ! i)"
proof (cases "length addrs = 1")
  case True
  then show ?thesis by (intro exI [of _ 0]) (simp add: PickServer_def assms)
next
  case False
  let ?n = "of_nat (length addrs) :: 32 word"
  have n: "unat ?n = length addrs" using assms(2) by (simp add: unat_of_nat take_bit_nat_eq_self)
  have "unat (ChecksumIEEE (take 256 key) mod ?n) < length addrs"
    unfolding unat_mod_distrib n using assms(1) by simp
  then show ?thesis using False assms(1) by (auto simp: PickServer_def)
qed

section \<open>The pool\<close>

lemma pool_keyed:
  assumes "pool_bounded c" "\<And>a c. pool_bounded c \<Longrightarrow> pool_bounded (snd (fn a c))"
  shows "pool_bounded (snd (withKeyAddr k fn c))"
  using assms by (auto simp: withKeyAddr_def split: sum.split)

text \<open>C38. The pool of idle connections never holds more than two per server, whatever operations run and however they
  end.\<close>

theorem memcache_pool_bounded:
  assumes "pool_bounded c"
  shows "pool_bounded (snd (Client_Get net k c)) \<and> pool_bounded (snd (Client_Set net it c)) \<and>
    pool_bounded (snd (Client_Add net it c)) \<and> pool_bounded (snd (Client_Replace net it c)) \<and>
    pool_bounded (snd (CompareAndSwap net it c)) \<and> pool_bounded (snd (Client_Delete net k c)) \<and>
    pool_bounded (snd (Touch net k n c)) \<and> pool_bounded (snd (incrDecr net verb k d c)) \<and> pool_bounded (snd (FlushAll net c))"
proof -
  have get: "pool_bounded (snd (Client_Get net k c))"
    unfolding Client_Get_def getFromAddr_def
    by (intro andThen_keeps [where Q = pool_bounded] pool_keyed assms pool_withAddrRw) auto
  have item: "pool_bounded (snd (onItem net it fn c))" for fn
    using assms by (auto simp: onItem_def pool_withAddrRw split: sum.split)
  have keyed: "pool_bounded (snd (withKeyRw net k fn c))" for fn :: "('a, 'b) on_conn"
    unfolding withKeyRw_def by (intro pool_keyed assms pool_withAddrRw)
  have touch: "pool_bounded (snd (Touch net k n c))"
    unfolding Touch_def touchFromAddr_def by (intro pool_keyed assms pool_withAddrRw)
  have flush: "pool_bounded (snd (FlushAll net c))"
    unfolding FlushAll_def flushAllFromAddr_def
    by (rule for_each_keeps [where Q = pool_bounded]) (auto simp: assms pool_withAddrRw)
  have "pool_bounded (snd (incrDecr net verb k d c))" "pool_bounded (snd (Client_Delete net k c))"
    unfolding incrDecr_def Client_Delete_def by (rule pool_withAddrRw keyed)+
  then show ?thesis using get item touch flush
    by (simp add: Client_Set_def Client_Add_def Client_Replace_def CompareAndSwap_def)
qed

theorem memcache_pool_bounded_witness:
  "pool_bounded (snd (Client_Get mcd_net ''k'' mcd_client)) \<and> pool_bounded (snd (FlushAll mcd_net mcd_client))"
  using memcache_pool_bounded [OF mcd_client_pool, of mcd_net "''k''" "mcd_item ''k'' []" 0 "''incr''" 1] by blast


section \<open>Retrying\<close>

text \<open>C35. A retry strategy does what its fields say, under any interleaving of waiting, \<^verbatim>\<open>HasNext\<close> and \<^verbatim>\<open>Next\<close> with a clock that
  does not run backwards: the attempts made are at most the minimum asked for, or else, with the delay between
  them, they still fit into the total time.\<close>

theorem attempts_bounded:
  assumes "attempts_run s t0 t a"
  shows "at_count a \<le> 1 \<or> at_count a \<le> as_Min s \<or> (at_count a - 1) * as_Delay s < as_Total s"
  using run_within [OF assms] by (simp add: within_def)

theorem attempts_bounded_witness:
  "\<exists>a. attempts_run \<lparr>as_Total = 5, as_Delay = 2, as_Min = 1\<rparr> 0 2 a \<and> at_count a = 2 \<and>
     (at_count a \<le> 1 \<or> at_count a \<le> 1 \<or> (at_count a - 1) * 2 < 5)"
proof -
  let ?s = "\<lparr>as_Total = 5, as_Delay = 2, as_Min = 1\<rparr>"
  let ?a = "\<lparr>at_strategy = ?s, at_last = 0, at_end = 5, at_force = False, at_count = 1\<rparr>"
  have "attempts_run ?s 0 0 ?a"
    using run_next [OF run_start [of ?s 0], of 2 True ?a]
    by (simp add: Attempt_Start_def Attempt_Next_def nextSleep_def sleeps_def)
  then have r: "attempts_run ?s 0 2 (?a\<lparr>at_last := 2, at_count := 2\<rparr>)"
    using run_next [of ?s 0 0 ?a 2 True "?a\<lparr>at_last := 2, at_count := 2\<rparr>"]
    by (simp add: Attempt_Next_def nextSleep_def sleeps_def)
  then show ?thesis using attempts_bounded [OF r] by fastforce
qed

text \<open>When \<^verbatim>\<open>HasNext\<close> promises another attempt, the next call of \<^verbatim>\<open>Next\<close> grants it, however much time has passed
  in between; and once the time is over and the minimum is reached, \<^verbatim>\<open>Next\<close> refuses for good.\<close>

lemma HasNext_kept:
  assumes "HasNext a t = (True, a')" and "at_end b \<le> u" and "\<not> at_force b" and "as_Min (at_strategy b) \<le> at_count b"
  shows "fst (Attempt_Next a' u u') \<and> Attempt_Next b u u' = (False, b)"
  using HasNext_Next [OF assms(1)] Next_expired [OF assms(3,2,4)] by blast

end
