(* ===== verification/Claims_Handlers.thy ===== *)
theory Claims_Handlers
  imports Submit_Correct Pull_Correct Demo
begin

text \<open>
  The properties of the three handlers: what a push leaves in the object store, what a submission is a copy of and
  that it is never changed again, what a pull writes and that it cleans up, and who gets past the handshake check.
\<close>

section \<open>Pushing\<close>

text \<open>C5. A push never leaves a row without its content. If every file of the app has its object before, every file has
  its object when the syncing half of the push completes: contents are stored before rows, and an object is
  deleted only when no other file has the same hash. The object store and memcached are any that keep to their
  contracts; \<open>K\<close> is a set of hashes whose objects have plain names.\<close>

theorem push_keeps_blobs:
  assumes "cache_backend env view mv" and "range_law env" and "listing_sane h" and "db_up w" and "stocked view mv K h w"
    and "\<forall>k \<in> K. key_ok env (ph_cache h) k" and "handle_sync env h w = (Ok h', w')"
    and "ran (map_of (listing_of (ph_archive h'))) \<subseteq> K"
  shows "stocked view mv K h w'"
  by (rule cache_backend.handle_sync_stocked [OF assms])

lemma bed_backend: "cache_backend bed_env s3test_view map_of"
  unfolding bed_env_def by (rule bed.cache_backend_axioms)


theorem push_keeps_blobs_witness:
  "\<exists>h' w'. handle_sync bed_env demo_handler demo_world = (Ok h', w') \<and> stocked s3test_view map_of {''h1''} demo_handler w'"
proof -
  have "(case handle_sync bed_env demo_handler demo_world of (Ok h, w) \<Rightarrow> listing_of (ph_archive h) = [(''Siphonfile'', ''h1'')] | _ \<Rightarrow> False)"
    by code_simp
  then obtain h' w' where run: "handle_sync bed_env demo_handler demo_world = (Ok h', w')"
    and l: "listing_of (ph_archive h') = [(''Siphonfile'', ''h1'')]" by (auto split: prod.splits res.splits)
  have "app_files ''app'' demo_world = Map.empty"
    by (simp add: demo_world_def demo_rows_def ns_map_def in_ns_def scan_rows_def gm_of_def)
  then have "stocked s3test_view map_of {''h1''} demo_handler demo_world"
    using demo_db by (simp add: stocked_def demo_handler_def demo_cache_def coherent_def)
  moreover have "\<forall>k \<in> {''h1''}. key_ok bed_env (ph_cache demo_handler) k" by (simp, code_simp)
  ultimately have "stocked s3test_view map_of {''h1''} demo_handler w'"
    using push_keeps_blobs [OF bed_backend bed_range demo_sane demo_db(2) _ _ run] by (simp add: l)
  then show ?thesis using run by blast
qed

section \<open>Submitting\<close>

text \<open>C6. A submission whose steps complete is a faithful copy of the app's development files: under the submission
  the table has exactly the names and hashes that the app has, every object under the submission's prefix has
  the bytes of the app's own object, and the rows of everything else are as before. The hypotheses: a table
  whose reads are not cut off, a memcached that agrees with the object store, and plain names and hashes that
  are not those of a footer.\<close>

theorem submit_snapshot:
  assumes "cache_backend env view mv" and "range_law env" and "db_ok w" and "newSubmitHandler env app sub w0 = (Ok h, w0')"
    and "coherent view mv (sh_devCache h) w" and "id_ok app" and "id_ok sub"
    and "\<forall>k \<in> ran (app_files app w). id_ok k \<and> \<not> prefix ''bundle-footer'' k"
    and "ns_map app sub (w_rows w) = Map.empty" and "submit_steps env h r w = (Ok (), w')"
  shows "ns_map app sub (w_rows w') = app_files app w \<and> other_rows app sub (w_rows w') = other_rows app sub (w_rows w) \<and>
    (\<forall>k \<in> ran (app_files app w). blob view (sh_submissionCache h) w' k = blob view (sh_devCache h) w k \<and>
      blob view (sh_devCache h) w k \<noteq> None)"
  using cache_backend.submit_steps_snapshot [OF assms] by blast

text \<open>The example is a system with memcached and a packager that prints the name of a footer it finds in the file system.\<close>

definition snap_env :: "(s3_server, gomap) env" where
  \<open>snap_env = bed_env\<lparr>getenv := (\<lambda>_. ''staging''), run_shell := (\<lambda>_ fs. ((None, ''{"ios": "/f"}'', []), fs))\<rparr>\<close>

definition snap_object :: "s3_object" where
  \<open>snap_object = \<lparr>ob_name = ''app/h1'', ob_mtime = 0, ob_meta = [], ob_checksum = [], ob_data = ''{"base_version": "0.5"}''\<rparr>\<close>

definition snap_world :: "(s3_server, gomap) world" where
  "snap_world = demo_world\<lparr>
     w_rows := demo_rows @ [\<lparr>r_app = ''app'', r_sub = Some [], r_name = ''Siphonfile'', r_hash = ''h1''\<rparr>],
     w_s3 := \<lparr>sv_reqId = 0,
       sv_buckets = [(''siphon-files-staging'', \<lparr>sb_name = ''siphon-files-staging'', sb_acl = ''private'',
         sb_objects = [(''app/h1'', snap_object)]\<rparr>)],
       sv_Send409Conflict = None\<rparr>,
     w_fs := map_of [([''f''], NFile ''footer'')]\<rparr>"

definition snap_cache :: Cache where
  "snap_cache = \<lparr>c_appID = ''app'', c_submissionID = [], c_mc = True,
     c_s3 = \<lparr>bk_region = USEast, bk_name = ''siphon-files-staging''\<rparr>\<rparr>"

definition snap_handler :: submitHandler where
  "snap_handler = \<lparr>sh_appID = ''app'', sh_submissionID = ''s1'', sh_metadata = Metadata_zero,
     sh_devCache = snap_cache, sh_submissionCache = snap_cache\<lparr>c_submissionID := ''s1''\<rparr>\<rparr>"
lemma snap_backend: "cache_backend snap_env s3test_view map_of" "range_law snap_env"
proof -
  have "snap_env = on_testbed bed_lib snap_env" by (simp add: snap_env_def bed_env_def on_testbed_def)
  then show "cache_backend snap_env s3test_view map_of" using bed.cache_backend_axioms by metis
  show "range_law snap_env" using bed_range by (simp add: range_law_def snap_env_def)
qed

lemma snap_files: "app_files ''app'' snap_world = [''Siphonfile'' \<mapsto> ''h1'']" "db_ok snap_world"
  "ns_map ''app'' ''s1'' (w_rows snap_world) = Map.empty"
  by (simp_all add: ns_map_def snap_world_def demo_world_def demo_rows_def in_ns_def sub_is_def scan_rows_def gm_of_def db_ok_def rows_ok_def row_key_def reads_complete_def)

theorem submit_snapshot_witness:
  "\<exists>w'. submit_steps snap_env snap_handler demo_request snap_world = (Ok (), w') \<and>
     ns_map ''app'' ''s1'' (w_rows w') = [''Siphonfile'' \<mapsto> ''h1'']"
proof -
  have "fst (submit_steps snap_env snap_handler demo_request snap_world) = Ok ()" by code_simp
  then obtain w' where run: "submit_steps snap_env snap_handler demo_request snap_world = (Ok (), w')" by (metis prod.collapse)
  have "fst (newSubmitHandler snap_env ''app'' ''s1'' demo_world) = Ok snap_handler" by code_simp
  then obtain w0 where new: "newSubmitHandler snap_env ''app'' ''s1'' demo_world = (Ok snap_handler, w0)" by (metis prod.collapse)
  have co: "coherent s3test_view map_of (sh_devCache snap_handler) snap_world"
    by (simp add: coherent_def snap_world_def demo_world_def)
  have ids: "id_ok ''app''" "id_ok ''s1''" "\<forall>k \<in> ran (app_files ''app'' snap_world). id_ok k \<and> \<not> prefix ''bundle-footer'' k"
    unfolding snap_files(1) by (simp_all add: id_ok_def plain_key_def plain_char_def)
  show ?thesis
    using submit_snapshot [OF snap_backend snap_files(2) new co ids snap_files(3) run] run by (simp add: snap_files(1))
qed

text \<open>C8. A submission is never overwritten, and only its own handshake can make it: when a row of any app already has
  the submission ID, or when the ID in the form is not the one the handshake was signed for, the handler does
  nothing but answer.\<close>

theorem submit_immutable:
  assumes "ctx_get r AppIDKey w = Some app"
    and "(\<exists>x \<in> set (w_rows w). r_sub x = Some (PostFormValue r ''submission_id'')) \<or>
      ctx_get r SubmissionIDKey w \<noteq> Some (PostFormValue r ''submission_id'')"
  shows "answered w (snd (Submit env r w))"
  using assms Submit_immutable Submit_mismatch by blast

theorem submit_immutable_witness:
  "answered (ctx_set bed_env demo_request AppIDKey ''app'' demo_world)
     (snd (Submit bed_env demo_request (ctx_set bed_env demo_request AppIDKey ''app'' demo_world)))"
  by (rule submit_immutable [where app = "''app''"])
    (simp_all add: ctx_keys, simp add: ctx_get_def context_Get_def demo_world_def ctx_empty_def)

text \<open>A submit request, however it ends, changes rows of its own app and submission only.\<close>

lemma submit_isolated:
  assumes "ctx_get r AppIDKey w = Some app" and "sub = PostFormValue r ''submission_id''"
  shows "other_rows app sub (w_rows (snd (Submit env r w))) = other_rows app sub (w_rows w)"
  by (rule Submit_other [OF assms])

section \<open>Pulling\<close>

text \<open>C13. A pull cleans up after itself: on every outcome, a panic included, the file system and the table are exactly what
  they were. The hypotheses: temporary directories are new, no name in the table leads upwards (what a push
  guarantees), and the submission ID has no quote in it.\<close>

theorem pull_restores:
  assumes "range_law env" and "temp_law env" and "sub_id_ok (FormValue r ''submission_id'')"
    and "\<And>app. ctx_get r AppIDKey w = Some app \<Longrightarrow> names_safe app (FormValue r ''submission_id'') (w_rows w)"
  shows "w_fs (snd (Pull env r w)) = w_fs w \<and> w_rows (snd (Pull env r w)) = w_rows w"
  by (rule Pull_restores [OF assms])

theorem pull_restores_witness:
  "w_fs (snd (Pull tmp_env demo_request (ctx_set tmp_env demo_request AppIDKey ''other'' demo_world))) = demo_fs"
proof -
  let ?w = "ctx_set tmp_env demo_request AppIDKey ''other'' demo_world"
  have "names_safe app (FormValue demo_request ''submission_id'') (w_rows ?w)" for app
    by (simp add: names_safe_def demo_world_def demo_rows_def sublist_code)
  moreover have "sub_id_ok (FormValue demo_request ''submission_id'')"
    by (simp add: FormValue_def lookup_str_def demo_request_def)
  ultimately show ?thesis using pull_restores [OF tmp_range tmp_temp] by (simp add: demo_world_def)
qed

text \<open>C14. Every asset the client does not have yet is written into the archive under its own name with exactly the bytes of
  its object, and no file written before is overwritten by a later one.\<close>

theorem pull_assets_content:
  assumes "cache_backend env view mv" and "range_law env" and "plain_dir (pa_tempDir a)" and "clear_below (w_fs v) (comps (pa_tempDir a))"
    and "\<forall>e \<in> set (pa_assetFiles a). ''..'' \<notin> set (comps (fst e)) \<and> key_ok env (pa_cache a) (snd e)"
    and "distinct (map (\<lambda>e. comps (fst e)) (pa_assetFiles a))" and "coherent view mv (pa_cache a) v"
    and "writeAssets env a hs v = (Ok (), v')"
  shows "(\<forall>e \<in> set (pa_assetFiles a). asset_due hs e \<longrightarrow>
      (\<exists>b. blob view (pa_cache a) v (snd e) = Some b \<and> w_fs v' (asset_path a (fst e)) = Some (NFile b))) \<and>
    (\<forall>q. w_fs v q \<noteq> None \<longrightarrow> q \<notin> (\<lambda>e. asset_path a (fst e)) ` set (pa_assetFiles a) \<longrightarrow> w_fs v' q = w_fs v q)"
proof -
  let ?es = "map_range env (pa_assetFiles a)"
  have m: "mset ?es = mset (pa_assetFiles a)" using assms(2) by (simp add: range_law_def)
  then have s: "set ?es = set (pa_assetFiles a)" by (rule mset_eq_setD)
  have d: "distinct (map (\<lambda>e. comps (fst e)) ?es)"
    using assms(6) m by (metis mset_map mset_eq_imp_distinct_iff)
  show ?thesis
    using cache_backend.writeAssets_content [OF assms(1,3,4) _ d assms(7) assms(8) [unfolded writeAssets_def]] assms(5)
    unfolding s by blast
qed

definition pull_world :: "(s3_server, gomap) world" where
  "pull_world = snap_world\<lparr>w_fs := map_of [([''t''], NDir)]\<rparr>"

definition pull_archive :: pullArchive where
  "pull_archive = \<lparr>pa_appID = ''app'', pa_submissionID = [], pa_tempDir = ''/t'', pa_assetFiles = [(''a.png'', ''h1'')], pa_cache = snap_cache\<rparr>"

theorem pull_assets_content_witness:
  "\<exists>v' b. writeAssets snap_env pull_archive [] pull_world = (Ok (), v') \<and>
     w_fs v' [''t'', ''__siphon_assets'', ''images'', ''a.png''] = Some (NFile b) \<and> blob s3test_view snap_cache pull_world ''h1'' = Some b"
proof -
  have "fst (writeAssets snap_env pull_archive [] pull_world) = Ok ()" by code_simp
  then obtain v' where run: "writeAssets snap_env pull_archive [] pull_world = (Ok (), v')" by (metis prod.collapse)
  have t: "comps (pa_tempDir pull_archive) = [''t'']" "comps ''a.png'' = [''a.png'']" by code_simp+
  have p: "plain_dir (pa_tempDir pull_archive)" by code_simp
  have c: "clear_below (w_fs pull_world) (comps (pa_tempDir pull_archive))"
    unfolding t by (auto simp: clear_below_def no_links_below_def dir_chain_def pull_world_def prefix_Cons)
  have k: "key_ok snap_env snap_cache ''h1''" by code_simp
  have co: "coherent s3test_view map_of (pa_cache pull_archive) pull_world"
    by (simp add: coherent_def pull_world_def snap_world_def demo_world_def)
  have e: "\<forall>e \<in> set (pa_assetFiles pull_archive). ''..'' \<notin> set (comps (fst e)) \<and> key_ok snap_env (pa_cache pull_archive) (snd e)"
    "distinct (map (\<lambda>e. comps (fst e)) (pa_assetFiles pull_archive))"
    using k by (simp_all add: pull_archive_def t(2))
  from pull_assets_content [OF snap_backend p c e co run]
  have "\<exists>b. blob s3test_view snap_cache pull_world ''h1'' = Some b \<and> w_fs v' (asset_path pull_archive ''a.png'') = Some (NFile b)"
    by (simp add: pull_archive_def asset_due_def)
  then show ?thesis using run by (auto simp: asset_path_def t assetsDir_def)
qed

section \<open>The handshake\<close>



text \<open>C11. A request that passes runs the handler once, on a world in which only the request's context has changed. The
  context then has the app of the handshake, which is that of the path, and exactly one of the user
  and the submission.\<close>

theorem auth_identity:
  assumes "authentic env r (w_fs w) obj" and "authorized r obj" and "\<forall>k. ctx_get r k w = None"
  shows "\<exists>w1. AuthMiddleware env h r w = h r w1 \<and> rejected r w w1 \<and> w_rsp w1 = w_rsp w \<and>
    ctx_get r AppIDKey w1 = Some (hs_AppID obj) \<and>
    ctx_get r SubmissionIDKey w1 = (if hs_SubmissionID obj = [] then None else Some (hs_SubmissionID obj)) \<and>
    ctx_get r UserIDKey w1 = (if hs_SubmissionID obj = [] then Some (hs_UserID obj) else None)"
proof -
  let ?w = "identify env r obj w"
  have "rejected r w ?w" "w_rsp ?w = w_rsp w"
    by (auto simp: identify_def Let_def intro!: rejected_ctx_set rejected_refl)
  then show ?thesis
    using AuthMiddleware_runs [OF assms(1,2), of h] identify_ctx [OF assms(2), of w env] assms(3) by metis
qed

definition auth_request :: request where
  \<open>auth_request = demo_request\<lparr>rq_form := [(''handshake_token'', ''{"action": "push", "app_id": "app", "user_id": "u"}'')]\<rparr>\<close>

theorem auth_identity_witness:
  "\<exists>w1. AuthMiddleware bed_env (Push bed_env) auth_request demo_world = Push bed_env auth_request w1 \<and>
     ctx_get auth_request AppIDKey w1 = Some ''app'' \<and> ctx_get auth_request UserIDKey w1 = Some ''u''"
proof -
  let ?o = "\<lparr>hs_Action = ''push'', hs_AppID = ''app'', hs_UserID = ''u'', hs_SubmissionID = []\<rparr>"
  have "decryptToken bed_env (FormValue auth_request ''handshake_token'') = Inr (Some ?o)" by code_simp
  then have a: "authentic bed_env auth_request (w_fs demo_world) ?o"
    by (simp add: authentic_def verifyToken_def bed_env_def on_testbed_def)
  have z: "authorized auth_request ?o" by code_simp
  have "\<forall>k. ctx_get auth_request k demo_world = None" by (simp add: ctx_get_def context_Get_def demo_world_def ctx_empty_def)
  from auth_identity [OF a z this, of "Push bed_env"] show ?thesis by auto
qed

end
