(* ===== verification/Claims_Parts.thy ===== *)
theory Claims_Parts
  imports Submit_Correct Pull_Correct Demo Claims_Handlers
begin

text \<open>
  The properties of the parts the handlers are built from: the blob cache, the file table, the unpacking and checking
  of an upload, the metadata, the working copy for the packager, the answer with the hashes, the icons, the
  request contexts, the health check.
\<close>

section \<open>The blob cache\<close>

context cache_backend
begin

lemma Cache_read_back:
  assumes "coherent view mv c w" and "key_ok env c k" and "key_ok env c l" and "Cache_Set env c k b w = (Ok (), w1)"
    and "Cache_Get env c l w1 = (Ok b', w2)"
  shows "b' = (if l = k then b else the (blob view c w l)) \<and> (l \<noteq> k \<longrightarrow> blob view c w l \<noteq> None)"
  using blobs.set_law [OF assms(1,2,4)] blobs.get_law [OF _ assms(3,5)] by auto

end

text \<open>C9. What was stored under a hash is what is read under it, and what is read under another hash is what was there
  before, although memcached may hold or drop entries at any time and requests may fail in between; the two
  stores agree again afterwards.\<close>

theorem cache_read_back:
  assumes "cache_backend env view mv" and "coherent view mv c w" and "key_ok env c k" and "key_ok env c l"
    and "Cache_Set env c k b w = (Ok (), w1)" and "Cache_Get env c l w1 = (Ok b', w2)"
  shows "b' = (if l = k then b else the (blob view c w l)) \<and> (l \<noteq> k \<longrightarrow> blob view c w l \<noteq> None)"
  by (rule cache_backend.Cache_read_back [OF assms])

theorem cache_read_back_witness:
  "\<exists>w1 w2. Cache_Set snap_env snap_cache ''h2'' ''new'' snap_world = (Ok (), w1) \<and> Cache_Get snap_env snap_cache ''h2'' w1 = (Ok ''new'', w2)"
proof -
  have "(case Cache_Set snap_env snap_cache ''h2'' ''new'' snap_world of
      (Ok _, w1) \<Rightarrow> (case Cache_Get snap_env snap_cache ''h2'' w1 of (Ok _, _) \<Rightarrow> True | _ \<Rightarrow> False) | _ \<Rightarrow> False)"
    by code_simp
  then obtain w1 w2 b where run: "Cache_Set snap_env snap_cache ''h2'' ''new'' snap_world = (Ok (), w1)"
    "Cache_Get snap_env snap_cache ''h2'' w1 = (Ok b, w2)" by (auto split: prod.splits res.splits)
  have k: "key_ok snap_env snap_cache ''h2''" by code_simp
  have co: "coherent s3test_view map_of snap_cache snap_world" by (simp add: coherent_def snap_world_def demo_world_def)
  from cache_read_back [OF snap_backend(1) co k k run] show ?thesis using run by simp
qed

text \<open>Objects of different apps and submissions never collide: the key determines the app, the submission and the
  hash, as long as none of them has a slash in it.\<close>

lemma cache_keys_injective:
  assumes "slash \<notin> set (c_appID c)" and "slash \<notin> set (c_submissionID c)" and "slash \<notin> set k"
    and "slash \<notin> set (c_appID d)" and "slash \<notin> set (c_submissionID d)" and "slash \<notin> set l"
    and "prefixed c k = prefixed d l"
  shows "c_appID c = c_appID d \<and> c_submissionID c = c_submissionID d \<and> k = l"
  by (rule prefixed_inj [OF assms])

section \<open>The file table\<close>

text \<open>A snapshot copies the development files of the app into the submission, keeps what the submission had under
  other names, keeps the table well-formed and changes no other row.\<close>

lemma snapshot_table:
  assumes "range_law env" and "db_ok w" and "sub_id_ok sub" and "MakeSnapshot env app sub w = (Ok (), w')"
  shows "db_ok w' \<and> ns_map app sub (w_rows w') = ns_map app sub (w_rows w) ++ ns_map app [] (w_rows w) \<and>
    other_rows app sub (w_rows w') = other_rows app sub (w_rows w)"
  using MakeSnapshot_table [OF assms] MakeSnapshot_frame [of w env app sub] assms(4) by simp



section \<open>An upload\<close>




text \<open>C15. The comparison of an upload with the stored files is exact: what is added, changed and removed are three lists
  without duplicates that take the stored map to the uploaded listing and to nothing else, the content of every added or changed file is in the archive, and the lists are
  empty only if nothing differs. The listing it returns has passed the check on names and hashes.\<close>

theorem compare_exact:
  assumes "range_law env" and "gm_ok files" and "ar_listing a \<noteq> None \<longrightarrow> listing_ok (listing_of a)"
    and "Compare env a files fs = Inr (a', c)"
  shows "listing_ok (listing_of a') \<and> is_diff (map_of (listing_of a')) (map_of files) c \<and>
    apply_diff (map_of (listing_of a')) c (map_of files) = map_of (listing_of a') \<and>
    (\<forall>n \<in> set (cmp_added c) \<union> set (cmp_changed c). diffExists a' n fs) \<and>
    (cmp_added c = [] \<and> cmp_changed c = [] \<and> cmp_removed c = [] \<longleftrightarrow> map_of (listing_of a') = map_of files)"
  using Compare_diff [OF assms] apply_diff_is_diff is_diff_empty by blast

theorem compare_exact_witness:
  "\<exists>a' c. Compare bed_env demo_archive [(''old.js'', ''h0'')] demo_fs = Inr (a', c) \<and>
     is_diff (map_of (listing_of a')) (map_of [(''old.js'', ''h0'')]) c"
proof -
  have "(case Compare bed_env demo_archive [(''old.js'', ''h0'')] demo_fs of Inr _ \<Rightarrow> True | _ \<Rightarrow> False)" by code_simp
  then obtain a' c where run: "Compare bed_env demo_archive [(''old.js'', ''h0'')] demo_fs = Inr (a', c)"
    by (auto split: sum.splits)
  have "listing_ok (listing_of demo_archive)" using demo_sane by (simp add: listing_sane_def demo_handler_def demo_archive_def)
  then show ?thesis using compare_exact [OF bed_range _ _ run] run by simp
qed



section \<open>The working copy\<close>

text \<open>C26. Laying out the files of an app for the packager writes below a new directory only: everything outside is as
  before, whatever the names in the table are, as long as none has a part that leads upwards (which the check of the
  listing guarantees).\<close>

theorem project_confined:
  assumes "temp_law env" and "range_law env" and "\<forall>(n, h) \<in> set files. \<not> sublist ''../'' n"
    and "FilesToTemp env files archive cache w = (Ok d, w')" and "temp_name env ''project-path'' (w_fs w) = Inr d'"
  shows "d = d' \<and> plain_dir d \<and> (\<forall>q. \<not> prefix (comps d) q \<longrightarrow> w_fs w' q = w_fs w q) \<and> clear_below (w_fs w') (comps d)"
  by (intro conjI) (rule FilesToTemp_confined [OF assms(1,2) _ assms(4,5)], use assms(3) in blast)+

lemma tmp_project: "temp_name tmp_env ''project-path'' demo_fs = Inr ''/tmp/project-path''"
proof -
  have c: "comps ''/tmp/project-path'' = [''tmp'', ''project-path'']" "plain_dir ''/tmp/project-path''" by code_simp+
  then show ?thesis
    by (auto simp: tmp_env_def Let_def c demo_fs_def dir_chain_def prefix_Cons)
qed

theorem project_confined_witness:
  "\<exists>d w'. FilesToTemp tmp_env [(''Siphonfile'', ''h1'')] (Some demo_archive) demo_cache demo_world = (Ok d, w') \<and>
     (\<forall>q. \<not> prefix (comps d) q \<longrightarrow> w_fs w' q = demo_fs q)"
proof -
  define d :: string where "d = ''/tmp/project-path''"
  have c: "comps d = [''tmp'', ''project-path'']" unfolding d_def by code_simp
  have r: "map_range tmp_env m = m" for m by (simp add: tmp_env_def bed_env_def on_testbed_def)
  have "archive_content (Some demo_archive) ''Siphonfile'' (demo_fs([''tmp'', ''project-path''] \<mapsto> NDir)) \<noteq> None" by code_simp
  then obtain b where "archive_content (Some demo_archive) ''Siphonfile'' (demo_fs([''tmp'', ''project-path''] \<mapsto> NDir)) = Some b" by blast
  then obtain w' where run: "FilesToTemp tmp_env [(''Siphonfile'', ''h1'')] (Some demo_archive) demo_cache demo_world = (Ok d, w')"
    using tmp_project [folded d_def] r by (simp add: FilesToTemp_def TempDir_def demo_world_def c file_to_temp_def)
  have safe: "\<forall>(n, h) \<in> set [(''Siphonfile'', ''h1'')]. \<not> sublist ''../'' n" by (simp add: sublist_code)
  have "temp_name tmp_env ''project-path'' (w_fs demo_world) = Inr d"
    using tmp_project by (simp add: d_def demo_world_def)
  from project_confined [OF tmp_temp tmp_range safe run this] show ?thesis
    using run by (auto simp: demo_world_def)
qed

text \<open>Collecting the icons never slices out of range, and when it succeeds every file in an icon directory of a
  platform has an icon in the result, with the size that its image has.\<close>

lemma icons_complete:
  assumes "range_law env"
  shows "fst (GetIcons env d files w) \<noteq> Panic p \<and> snd (GetIcons env d files w) = w \<and>
    (\<forall>is n h pl. fst (GetIcons env d files w) = Ok is \<longrightarrow> (n, h) \<in> set files \<longrightarrow> pl \<in> set platforms \<longrightarrow> prefix (icons_prefix pl) n \<longrightarrow>
      (\<exists>i \<in> set is. \<exists>b. ic_Platform i = pl \<and> os_ReadFile (w_fs w) (path_Join [d, n]) = Inr b \<and> png_config env b = Inr (ic_Width i, ic_Height i)))"
proof -
  let ?ps = "concat (map (\<lambda>(name, _). map (Pair name) platforms) (map_range env files))"
  have r: "set (map_range env files) = set files" using assms by (metis range_law_def mset_eq_setD)
  have "fst (GetIcons env d files w) \<noteq> Panic p"
    unfolding GetIcons_def fst_conv by (rule icons_loop_no_panic) (auto simp: list_all_iff)
  moreover have "\<exists>i \<in> set is. \<exists>b. ic_Platform i = pl \<and> os_ReadFile (w_fs w) (path_Join [d, n]) = Inr b \<and> png_config env b = Inr (ic_Width i, ic_Height i)"
    if "fst (GetIcons env d files w) = Ok is" "(n, h) \<in> set files" "pl \<in> set platforms" "prefix (icons_prefix pl) n" for "is" n h pl
  proof -
    have "(n, pl) \<in> set ?ps" using that(2,3) r by force
    moreover have "icons_loop env d (w_fs w) ?ps = Ok is" using that(1) by (simp add: GetIcons_def)
    ultimately obtain i where "icon_of env d n pl (w_fs w) = Ok i" "\<forall>x. i = Some x \<longrightarrow> x \<in> set is"
      using icons_loop_Ok by blast
    then show ?thesis using icon_of_Ok_prefix that(4) icon_of_Some by metis
  qed
  ultimately show ?thesis by (auto simp: GetIcons_def)
qed

section \<open>Hashes\<close>




section \<open>Request contexts\<close>

text \<open>Purging removes exactly the requests that are older than the limit, all of them if the limit is not positive,
  keeps every value of the others and reports how many it removed; the two maps stay in step.\<close>

lemma context_purge_exact:
  assumes "ctx_ok c" and "context_Purge t maxAge c = (c', n)"
  shows "ctx_ok c' \<and>
    (\<forall>r key. context_Get r key c' =
      (if maxAge \<le> 0 \<or> (\<exists>s. map_of (cs_time c) r = Some s \<and> s < t - maxAge) then None else context_Get r key c)) \<and>
    n = length (filter (\<lambda>r. maxAge \<le> 0 \<or> (case map_of (cs_time c) r of Some s \<Rightarrow> s | None \<Rightarrow> 0) < t - maxAge) (map fst (cs_data c)))"
proof (cases "maxAge \<le> 0")
  case True
  then show ?thesis using assms(2) ctx_ok_empty by (auto simp: context_Purge_def context_Get_def ctx_empty_def)
next
  case False
  then have run: "purge_loop (t - maxAge) (map fst (cs_data c)) (c, 0) = (c', n)" using assms(2) by (simp add: context_Purge_def)
  have d: "distinct (map fst (cs_data c))" using assms(1) by (simp add: ctx_ok_def)
  note spec = purge_loop_spec [OF d run]
  have "ctx_ok c'" using ctx_ok_Purge [OF assms(1), of t maxAge] assms(2) by simp
  moreover have "context_Get r key c' = (if \<exists>s. map_of (cs_time c) r = Some s \<and> s < t - maxAge then None else context_Get r key c)" for r key
  proof (cases "r \<in> fst ` set (cs_data c)")
    case True
    then have "r \<in> fst ` set (cs_time c)" using assms(1) by (simp add: ctx_ok_def)
    then obtain s where "map_of (cs_time c) r = Some s" by (metis domD dom_map_of_conv_image_fst)
    then show ?thesis using spec(1) [of r] True by (auto simp: context_Get_def)
  next
    case out: False
    then have "map_of (cs_data c) r = None" by (simp add: map_of_eq_None_iff)
    then show ?thesis using spec(1) [of r] out by (auto simp: context_Get_def)
  qed
  ultimately show ?thesis using False spec(2) by simp
qed

section \<open>The health check\<close>

lemma health_key: "S3Wrapper_Open env = Inr s3 \<Longrightarrow> plain_url (object_url s3 (health_app env @ ''/'' @ health_hash))"
  by (rule plain_object_url) (simp_all add: health_app_def health_hash_def plain_key_def plain_char_def)

text \<open>The health check says that it passed only if the file table has files of the probed app and the object store
  holds a non-empty object under the probed key.\<close>

lemma healthcheck_passed:
  fixes env :: "('s, 'm) env"
  assumes "cache_backend env view mv" and "reads_complete w"
    and "rs_body (w_rsp (snd (Healthcheck env r w))) = rs_body (w_rsp w) @ ''Passed.''"
  shows "app_files (health_app env) w \<noteq> Map.empty \<and>
    (\<exists>s3 b. S3Wrapper_Open env = Inr s3 \<and> b \<noteq> [] \<and> view (w_s3 w) (object_url s3 (health_app env @ ''/'' @ health_hash)) = Some b)"
proof -
  let ?app = "health_app env" and ?w = "set_ctype ''text/plain'' w"
  let ?k = "?app @ ''/'' @ health_hash"
  have w: "rs_body (w_rsp ?w) = rs_body (w_rsp w)" "reads_complete ?w"
    using assms(2) by (simp_all add: set_ctype_def Let_def reads_complete_def)
  have say: "rs_body (w_rsp (snd (health_say s v))) = rs_body (w_rsp v) @ s" for s and v :: "('s, 'm) world"
    by (simp add: health_say_def http_write_def Let_def)
  obtain s3 where s3: "S3Wrapper_Open env = Inr s3" using S3Wrapper_Open_Inr by blast
  obtain x w1 where g: "GetFiles env ?app [] ?w = (x, w1)" by fastforce
  have w1: "w_rsp w1 = w_rsp ?w" "w_s3 w1 = w_s3 ?w"
    using db_frameD(1,4) GetFiles_frame [of ?w env ?app "[]"] g by fastforce+
  obtain y w2 where k: "GetKey env s3 ?k w1 = (y, w2)" by fastforce
  have w2: "w_rsp w2 = w_rsp w1" using store_frameD(4) [OF S3_store_frame(3) [of w1 env s3 ?k]] k by simp
  note body = assms(3) [unfolded Healthcheck_def Let_def MakeJSONHashes_def g s3]
  obtain m where x: "x = Ok m" "m \<noteq> []"
    using body w w1 by (cases x) (auto simp: say split: if_splits)
  obtain b where y: "y = Ok b" "b \<noteq> []"
    using body x k w w1 w2 by (cases y) (auto simp: say split: if_splits)
  have "map_of m = app_files ?app w" using GetFiles_Ok(1) [of env ?app "[]" ?w m w1] g x(1) w(2) by simp
  moreover have "map_of m \<noteq> Map.empty" using x(2) by (cases m) (auto simp: fun_eq_iff)
  moreover have "view (w_s3 w) (object_url s3 ?k) = Some b"
    using s3_service.GetKey_view [OF cache_backend.axioms(1) [OF assms(1)] health_key [OF s3] k] y(1) w1(2) by simp
  ultimately show ?thesis using s3 y(2) by auto
qed

definition health_world :: "(s3_server, gomap) world" where
  "health_world = snap_world\<lparr>
     w_rows := [\<lparr>r_app = health_app snap_env, r_sub = Some [], r_name = ''a'', r_hash = health_hash\<rparr>],
     w_s3 := \<lparr>sv_reqId = 0,
       sv_buckets = [(''siphon-files-staging'', \<lparr>sb_name = ''siphon-files-staging'', sb_acl = ''private'',
         sb_objects = [(health_app snap_env @ ''/'' @ health_hash, snap_object)]\<rparr>)],
       sv_Send409Conflict = None\<rparr>\<rparr>"

end
