(* ===== verification/Sign.thy ===== *)
theory Sign
  imports Go_Encode Request_Context
begin

text \<open>
  The signing of requests to the object store, \<^verbatim>\<open>gopkg.in/amz.v3/aws/sign.go\<close>, with what \<^verbatim>\<open>amz.v3/s3/s3.go\<close> adds to a
  request before it is signed. SHA-256, HMAC, base64 and the clock's formats are parameters; how the text that
  is hashed is put together is what is modelled. Headers and query values are Go maps from names to lists of
  values; the list that represents such a map is the order in which this run ranges over it. The query is kept
  parsed: \<^verbatim>\<open>url.Values.Encode\<close> and \<^verbatim>\<open>URL.Query\<close> are inverse.

  Writing to a \<^verbatim>\<open>bytes.Buffer\<close> does not fail, so \<^verbatim>\<open>errorCollector\<close> over such writers is concatenation.

\<close>

section \<open>Headers and query values\<close>

type_synonym gvalues = "(string \<times> string list) list"

definition token_char :: "char \<Rightarrow> bool" where
  "token_char c \<longleftrightarrow> c \<in> set ''!#$%&*+-.^_|~0123456789ABCDEFGHIJKLMNOPQRSTUVWXYZabcdefghijklmnopqrstuvwxyz'' \<or>
     c \<in> {CHR 0x27, CHR 0x60}"

fun canon_chars :: "bool \<Rightarrow> string \<Rightarrow> string" where
  "canon_chars up [] = []"
| "canon_chars up (c # cs) = (if up then ascii_upper c else ascii_lower c) # canon_chars (c = CHR ''-'') cs"

text \<open>\<^verbatim>\<open>http.CanonicalHeaderKey\<close>: a name with a character that is not of a token is left alone.\<close>

definition CanonicalHeaderKey :: "string \<Rightarrow> string" where
  "CanonicalHeaderKey s = (if list_all token_char s then canon_chars True s else s)"

definition header_Get :: "string \<Rightarrow> gvalues \<Rightarrow> string" where
  "header_Get k h = (case map_of h (CanonicalHeaderKey k) of Some (x # _) \<Rightarrow> x | _ \<Rightarrow> [])"

definition header_Set :: "string \<Rightarrow> string \<Rightarrow> gvalues \<Rightarrow> gvalues" where
  "header_Set k v h = gm_set (CanonicalHeaderKey k) [v] h"

definition header_Add :: "string \<Rightarrow> string \<Rightarrow> gvalues \<Rightarrow> gvalues" where
  "header_Add k v h =
     gm_set (CanonicalHeaderKey k) ((case map_of h (CanonicalHeaderKey k) of Some xs \<Rightarrow> xs | None \<Rightarrow> []) @ [v]) h"

text \<open>\<^verbatim>\<open>url.Values.Encode\<close>: sorted by key, the values of a key in their order.\<close>

definition values_encode :: "gvalues \<Rightarrow> string" where
  "values_encode v =
     join ''&'' (concat (map (\<lambda>(k, xs). map (\<lambda>x. QueryEscape k @ ''='' @ QueryEscape x) xs) (sort_key fst v)))"

section \<open>Requests and the library\<close>

text \<open>A body is what its reader delivers and the error it may end with; reading it leaves it at its end.\<close>

record sg_request =
  sq_method :: string
  sq_host :: string
  sq_path :: string
  sq_query :: gvalues
  sq_header :: gvalues
  sq_body :: "(bytes \<times> error option) option"

record 't sg_lib =
  sha256 :: "bytes \<Rightarrow> bytes"
  hmac256 :: "bytes \<Rightarrow> bytes \<Rightarrow> bytes"
  base64 :: "bytes \<Rightarrow> string"
  time_parse :: "string \<Rightarrow> string \<Rightarrow> 't option"
  time_format :: "string \<Rightarrow> 't \<Rightarrow> string"

record Auth_keys =
  ak_AccessKey :: string
  ak_SecretKey :: string

definition ISO8601BasicFormat :: string where "ISO8601BasicFormat = ''20060102T150405Z''"
definition ISO8601BasicFormatShort :: string where "ISO8601BasicFormatShort = ''20060102''"

definition hex_lower :: "bytes \<Rightarrow> string" where
  "hex_lower b = concat (map (\<lambda>c. [''0123456789abcdef'' ! (code c div 16), ''0123456789abcdef'' ! (code c mod 16)]) b)"

section \<open>The text to sign\<close>

definition goToAwsUrlEncoding :: "string \<Rightarrow> string" where
  "goToAwsUrlEncoding s = replace_all ''+'' ''%20'' s"

definition canonicalURI :: "string \<Rightarrow> string" where
  "canonicalURI p =
     (if p = [] then ''/''
      else join ''/'' (map (\<lambda>s. goToAwsUrlEncoding (QueryEscape s)) (split_on (CHR ''/'') p)))"

definition canonicalQueryString :: "gvalues \<Rightarrow> string" where
  "canonicalQueryString q = goToAwsUrlEncoding (values_encode (map (\<lambda>(k, xs). (k, sort xs)) q))"

text \<open>The verb is the first word; \<^verbatim>\<open>strings.SplitN\<close> never gives an empty slice, so the default is not reached.\<close>

definition requestMethodVerb :: "string \<Rightarrow> string" where
  "requestMethodVerb m = takeWhile (\<lambda>c. c \<noteq> CHR '' '') m"

definition sortHeaderNames :: "gvalues \<Rightarrow> string list \<Rightarrow> string list" where
  "sortHeaderNames h injected = sort (injected @ map (\<lambda>(n, _). to_lower n) h)"

text \<open>The values of a header are sorted in place, so the loop changes the header.\<close>

fun canonicalHeaders :: "string list \<Rightarrow> string \<Rightarrow> gvalues \<Rightarrow> string \<times> gvalues" where
  "canonicalHeaders [] host h = ([], h)"
| "canonicalHeaders (n # ns) host h =
     (let k = CanonicalHeaderKey n; vs = (case map_of h k of Some xs \<Rightarrow> sort xs | None \<Rightarrow> []);
          h' = (if n = ''host'' \<or> map_of h k = None then h else gm_set k vs h);
          (rest, h'') = canonicalHeaders ns host h' in
      (n @ '':'' @ (if n = ''host'' then host else join '','' vs) @ [CHR 0x0A] @ rest, h''))"

definition read_body :: "sg_request \<Rightarrow> (bytes \<times> error option) \<times> sg_request" where
  "read_body req =
     (case sq_body req of
        None \<Rightarrow> (([], None), req)
      | Some (b, e) \<Rightarrow> ((b, e), req\<lparr>sq_body := Some ([], e)\<rparr>))"

definition payloadHash :: "'t sg_lib \<Rightarrow> sg_request \<Rightarrow> (error + string) \<times> sg_request" where
  "payloadHash lib req =
     (case read_body req of
        ((b, None), req) \<Rightarrow> (Inr (hex_lower (sha256 lib b)), req)
      | ((b, Some e), req) \<Rightarrow> (Inl e, req))"

definition nl :: string where "nl = [CHR 0x0A]"

text \<open>The request text, its hash and the sorted names.\<close>

definition canonicalRequest ::
  "'t sg_lib \<Rightarrow> sg_request \<Rightarrow> bool \<Rightarrow> (error + string \<times> string \<times> string list) \<times> sg_request" where
  "canonicalRequest lib req calcPayHash =
     (let (pay, req) = (if calcPayHash then payloadHash lib req else (Inr ''UNSIGNED-PAYLOAD'', req)) in
      case pay of
        Inl e \<Rightarrow> (Inl e, req)
      | Inr payHash \<Rightarrow>
          let req = (if calcPayHash then req\<lparr>sq_header := header_Set ''x-amz-content-sha256'' payHash (sq_header req)\<rparr> else req);
              names = sortHeaderNames (sq_header req) [''host''];
              (canHdr, h) = canonicalHeaders names (sq_host req) (sq_header req);
              canReq = requestMethodVerb (sq_method req) @ nl @ canonicalURI (sq_path req) @ nl @
                canonicalQueryString (sq_query req) @ nl @ canHdr @ nl @ join '';'' names @ nl @ payHash in
          (Inr (canReq, hex_lower (sha256 lib canReq), names), req\<lparr>sq_header := h\<rparr>))"

definition credentialScope :: "'t sg_lib \<Rightarrow> 't \<Rightarrow> string \<Rightarrow> string \<Rightarrow> string" where
  "credentialScope lib t regionName svcName =
     time_format lib ISO8601BasicFormatShort t @ ''/'' @ regionName @ ''/'' @ svcName @ ''/aws4_request''"

definition stringToSign :: "'t sg_lib \<Rightarrow> 't \<Rightarrow> string \<Rightarrow> string \<Rightarrow> string" where
  "stringToSign lib t canonReqHash credScope =
     ''AWS4-HMAC-SHA256'' @ nl @ time_format lib ISO8601BasicFormat t @ nl @ credScope @ nl @ canonReqHash"

definition signingKey :: "'t sg_lib \<Rightarrow> 't \<Rightarrow> string \<Rightarrow> string \<Rightarrow> string \<Rightarrow> bytes" where
  "signingKey lib t secretKey regionName svcName =
     (let kDate = hmac256 lib (''AWS4'' @ secretKey) (time_format lib ISO8601BasicFormatShort t);
          kRegion = hmac256 lib kDate regionName;
          kService = hmac256 lib kRegion svcName in
      hmac256 lib kService ''aws4_request'')"

definition authHeaderString :: "string \<Rightarrow> string \<Rightarrow> string \<Rightarrow> string list \<Rightarrow> string" where
  "authHeaderString accessKey signature credScope names =
     ''AWS4-HMAC-SHA256 '' @ ''Credential='' @ accessKey @ ''/'' @ credScope @ '', SignedHeaders='' @ join '';'' names @
     '', Signature='' @ signature"

section \<open>The time of a request\<close>

definition timeFormats :: "string list" where
  "timeFormats =
     [''02 Jan 06 15:04 MST'', ISO8601BasicFormat, ''Mon, 02 Jan 2006 15:04:05 MST'', ''Mon Jan _2 15:04:05 2006'',
      ''Mon Jan _2 15:04:05 MST 2006'', ''Mon Jan 02 15:04:05 -0700 2006'', ''02 Jan 06 15:04 -0700'',
      ''Monday, 02-Jan-06 15:04:05 MST'', ''Mon, 02 Jan 2006 15:04:05 -0700'', ''2006-01-02T15:04:05Z07:00'',
      ''2006-01-02T15:04:05.999999999Z07:00'', ''3:04PM'']"

fun first_time :: "'t sg_lib \<Rightarrow> string list \<Rightarrow> string \<Rightarrow> 't option" where
  "first_time lib [] d = None"
| "first_time lib (f # fs) d = (case time_parse lib f d of Some t \<Rightarrow> Some t | None \<Rightarrow> first_time lib fs d)"

definition no_date :: error where
  \<open>no_date = Errorf ''Could not retrieve a request date. Please provide one in either "x-amz-date", or "date".''\<close>

definition requestTime :: "'t sg_lib \<Rightarrow> sg_request \<Rightarrow> error + 't" where
  "requestTime lib req =
     (let d = header_Get ''x-amz-date'' (sq_header req); date = (if d = [] then header_Get ''date'' (sq_header req) else d) in
      if date = [] then Inl no_date
      else case first_time lib timeFormats date of
        Some t \<Rightarrow> Inr t
      | None \<Rightarrow> Inl (Errorf (''Could not parse the given date. Please utilize one of the following formats: '' @ join '','' timeFormats)))"

section \<open>The signers\<close>

definition signature_of :: "'t sg_lib \<Rightarrow> 't \<Rightarrow> Auth_keys \<Rightarrow> string \<Rightarrow> string \<Rightarrow> string \<Rightarrow> string" where
  "signature_of lib t auth regionName svcName canonReqHash =
     hex_lower (hmac256 lib (signingKey lib t (ak_SecretKey auth) regionName svcName)
       (stringToSign lib t canonReqHash (credentialScope lib t regionName svcName)))"

definition SignV4 :: "'t sg_lib \<Rightarrow> Auth_keys \<Rightarrow> string \<Rightarrow> string \<Rightarrow> sg_request \<Rightarrow> error option \<times> sg_request" where
  "SignV4 lib auth regionName svcName req =
     (case requestTime lib req of
        Inl e \<Rightarrow> (Some e, req)
      | Inr t \<Rightarrow>
          let req = req\<lparr>sq_header := del_key ''authorization'' (del_key ''Authorization'' (sq_header req))\<rparr>;
              credScope = credentialScope lib t regionName svcName in
          (case canonicalRequest lib req True of
             (Inl e, req) \<Rightarrow> (Some e, req)
           | (Inr (_, hash, names), req) \<Rightarrow>
               (None, req\<lparr>sq_header := header_Set ''Authorization''
                  (authHeaderString (ak_AccessKey auth) (signature_of lib t auth regionName svcName hash) credScope names)
                  (sq_header req)\<rparr>)))"

definition SignV4Factory :: "'t sg_lib \<Rightarrow> string \<Rightarrow> string \<Rightarrow> sg_request \<Rightarrow> Auth_keys \<Rightarrow> error option \<times> sg_request" where
  "SignV4Factory lib regionName serviceName = (\<lambda>req auth. SignV4 lib auth regionName serviceName req)"

text \<open>The signature in the query, for URLs that are given away.\<close>

definition SignV4URL :: "'t sg_lib \<Rightarrow> Auth_keys \<Rightarrow> string \<Rightarrow> string \<Rightarrow> int \<Rightarrow> sg_request \<Rightarrow> error option \<times> sg_request" where
  "SignV4URL lib auth regionName svcName expires req =
     (case requestTime lib req of
        Inl e \<Rightarrow> (Some e, req)
      | Inr t \<Rightarrow>
          let req = req\<lparr>sq_header := del_key (CanonicalHeaderKey ''date'') (sq_header req)\<rparr>;
              credScope = credentialScope lib t regionName svcName;
              q = gm_set ''X-Amz-Algorithm'' [''AWS4-HMAC-SHA256''] (sq_query req);
              q = gm_set ''X-Amz-Credential'' [ak_AccessKey auth @ ''/'' @ credScope] q;
              q = gm_set ''X-Amz-Date'' [time_format lib ISO8601BasicFormat t] q;
              q = gm_set ''X-Amz-Expires'' [dec_int expires] q;
              q = gm_set ''X-Amz-SignedHeaders'' [''host''] q in
          (case canonicalRequest lib (req\<lparr>sq_query := q\<rparr>) False of
             (Inl e, req) \<Rightarrow> (Some e, req)
           | (Inr (_, hash, _), req) \<Rightarrow>
               (None, req\<lparr>sq_query := gm_set ''X-Amz-Signature'' [signature_of lib t auth regionName svcName hash] q\<rparr>)))"

definition SignV2 :: "'t sg_lib \<Rightarrow> Auth_keys \<Rightarrow> sg_request \<Rightarrow> sg_request" where
  "SignV2 lib auth req =
     (let q = gm_set ''AWSAccessKeyId'' [ak_AccessKey auth] (sq_query req);
          q = gm_set ''SignatureVersion'' [''2''] q;
          q = gm_set ''SignatureMethod'' [''HmacSHA256''] q;
          q = map (\<lambda>(k, xs). (k, sort xs)) q;
          payload = requestMethodVerb (sq_method req) @ nl @ sq_host req @ nl @ canonicalURI (sq_path req) @ nl @ canonicalQueryString q in
      req\<lparr>sq_query := gm_set ''Signature'' [base64 lib (hmac256 lib (ak_SecretKey auth) payload)] q\<rparr>)"

text \<open>What the S3 client does before it signs.\<close>

definition addAmazonDateHeader :: "'t sg_lib \<Rightarrow> 't \<Rightarrow> gvalues \<Rightarrow> gvalues" where
  "addAmazonDateHeader lib t h = header_Set ''x-amz-date'' (time_format lib ISO8601BasicFormat t) h"

end
