(* ===== verification/Sign_Correct.thy ===== *)
theory Sign_Correct
  imports Sign
begin

text \<open>
  What the signer does with the headers: the text it hashes is a function of the maps, not of the order in which Go
  ranges over them; signing again changes nothing; every header that goes out is signed; and with the date
  header that the S3 client adds it does not fail.
\<close>

section \<open>Maps, not lists\<close>

definition same_map :: "('k \<times> 'v) list \<Rightarrow> ('k \<times> 'v) list \<Rightarrow> bool" where
  "same_map h h' \<longleftrightarrow> gm_ok h \<and> gm_ok h' \<and> map_of h = map_of h'"

lemma same_map_refl: "gm_ok h \<Longrightarrow> same_map h h"
  by (simp add: same_map_def)

lemma same_map_set: "same_map h h' \<Longrightarrow> same_map (gm_set k v h) (gm_set k v h')"
  by (simp add: same_map_def)

lemma same_map_del: "same_map h h' \<Longrightarrow> same_map (del_key k h) (del_key k h')"
  by (simp add: same_map_def)

lemma same_map_mset: "same_map h h' \<Longrightarrow> mset h = mset h'"
proof -
  assume s: "same_map h h'"
  then have "distinct h" "distinct h'" by (auto simp: same_map_def distinct_map)
  moreover have "set h = set h'"
    using s map_of_eq_Some_iff [of h] map_of_eq_Some_iff [of h'] by (auto simp: same_map_def)
  ultimately show ?thesis by (simp add: set_eq_iff_mset_eq_distinct)
qed

lemma sort_mset: "mset xs = mset ys \<Longrightarrow> sort xs = sort ys"
  by (metis sorted_list_of_multiset_mset)

lemma sort_sort [simp]: "sort (sort xs) = sort xs" for xs :: "'a::linorder list"
  by (simp add: sorted_sort_id)

lemma same_map_names: "same_map h h' \<Longrightarrow> sortHeaderNames h ns = sortHeaderNames h' ns"
  unfolding sortHeaderNames_def by (rule sort_mset) (use same_map_mset in \<open>force simp: mset_map\<close>)

lemma names_dom:
  assumes "gm_ok a" "gm_ok b" "dom (map_of a) = dom (map_of b)"
  shows "sortHeaderNames a ns = sortHeaderNames b ns"
proof -
  have "set (map fst a) = set (map fst b)" using assms(3) by (simp only: dom_map_of_conv_image_fst set_map)
  then have "mset (map fst a) = mset (map fst b)" using assms(1,2) set_eq_iff_mset_eq_distinct by blast
  then have "mset (map to_lower (map fst a)) = mset (map to_lower (map fst b))" by (metis mset_map)
  then show ?thesis unfolding sortHeaderNames_def by (intro sort_mset) (simp add: case_prod_unfold comp_def)
qed

lemma sort_key_same_map: "same_map q q' \<Longrightarrow> sort_key fst q = sort_key fst q'"
  by (rule sort_key_inj_key_eq)
    (simp_all add: same_map_mset, simp add: same_map_def distinct_map)

lemma same_map_values: "same_map q q' \<Longrightarrow> same_map (map (\<lambda>(k, xs). (k, f xs)) q) (map (\<lambda>(k, xs). (k, f xs)) q')"
proof -
  assume s: "same_map q q'"
  have "map_of (map (\<lambda>(k, xs). (k, f xs)) q) = map_option f \<circ> map_of q" for q :: "('a \<times> 'b) list"
    by (induction q) (auto simp: fun_eq_iff)
  moreover have "map fst (map (\<lambda>(k, xs). (k, f xs)) q) = map fst q" for q :: "('a \<times> 'b) list"
    by (induction q) auto
  ultimately show ?thesis using s by (simp add: same_map_def del: map_map)
qed

lemma same_map_query: "same_map q q' \<Longrightarrow> canonicalQueryString q = canonicalQueryString q'"
  unfolding canonicalQueryString_def values_encode_def
  using sort_key_same_map [OF same_map_values [of q q' sort]] by simp

lemma same_map_Get: "same_map h h' \<Longrightarrow> header_Get k h = header_Get k h'"
  by (simp add: same_map_def header_Get_def)

section \<open>The headers\<close>

definition signed_values :: "gvalues \<Rightarrow> string \<Rightarrow> string list" where
  "signed_values h n = (case map_of h (CanonicalHeaderKey n) of Some xs \<Rightarrow> sort xs | None \<Rightarrow> [])"

definition header_line :: "string \<Rightarrow> gvalues \<Rightarrow> string \<Rightarrow> string" where
  "header_line host h n = n @ '':'' @ (if n = ''host'' then host else join '','' (signed_values h n)) @ [CHR 0x0A]"

text \<open>The loop in closed form: the text, and the header with the values of the names sorted.\<close>

lemma canonicalHeaders_spec:
  assumes "canonicalHeaders ns host h = (s, h')"
  shows "s = concat (map (header_line host h) ns)"
    and "map_of h' = (\<lambda>k. if k \<in> CanonicalHeaderKey ` (set ns - {''host''}) then map_option sort (map_of h k) else map_of h k)"
    and "gm_ok h \<Longrightarrow> gm_ok h'"
proof -
  have "s = concat (map (header_line host h) ns) \<and>
    map_of h' = (\<lambda>k. if k \<in> CanonicalHeaderKey ` (set ns - {''host''}) then map_option sort (map_of h k) else map_of h k) \<and>
    (gm_ok h \<longrightarrow> gm_ok h')"
    using assms
  proof (induction ns arbitrary: s h)
    case (Cons n ns)
    let ?k = "CanonicalHeaderKey n"
    define vs where "vs = (case map_of h ?k of Some xs \<Rightarrow> sort xs | None \<Rightarrow> [])"
    define h1 where "h1 = (if n = ''host'' \<or> map_of h ?k = None then h else gm_set ?k vs h)"
    have "canonicalHeaders (n # ns) host h = (header_line host h n @ fst (canonicalHeaders ns host h1), snd (canonicalHeaders ns host h1))"
      by (simp add: h1_def vs_def header_line_def signed_values_def Let_def case_prod_unfold)
    then obtain t where t: "canonicalHeaders ns host h1 = (t, h')" "s = header_line host h n @ t"
      using Cons.prems by (metis Pair_inject prod.collapse)
    have m1: "map_of h1 = (\<lambda>k. if n \<noteq> ''host'' \<and> k = ?k then map_option sort (map_of h k) else map_of h k)"
      by (auto simp: h1_def vs_def fun_eq_iff)
    have same: "header_line host h1 = header_line host h"
      by (auto simp: fun_eq_iff header_line_def signed_values_def m1 split: option.split)
    have "gm_ok h \<longrightarrow> gm_ok h1" by (simp add: h1_def)
    then show ?case using Cons.IH [OF t(1)] t(2) m1 same by (auto simp: fun_eq_iff option.map_comp comp_def)
  qed auto
  then show "s = concat (map (header_line host h) ns)"
    and "map_of h' = (\<lambda>k. if k \<in> CanonicalHeaderKey ` (set ns - {''host''}) then map_option sort (map_of h k) else map_of h k)"
    and "gm_ok h \<Longrightarrow> gm_ok h'" by auto
qed

section \<open>The signature\<close>

text \<open>The header that is hashed: without an old signature, with the hash of the body.\<close>

definition bare :: "gvalues \<Rightarrow> gvalues" where
  "bare h = del_key ''authorization'' (del_key ''Authorization'' h)"

definition hashed_header :: "'t sg_lib \<Rightarrow> sg_request \<Rightarrow> gvalues" where
  "hashed_header lib req =
     header_Set ''x-amz-content-sha256'' (hex_lower (sha256 lib (case sq_body req of Some (b, _) \<Rightarrow> b | None \<Rightarrow> []))) (bare (sq_header req))"

definition body_ok :: "sg_request \<Rightarrow> bool" where
  "body_ok req \<longleftrightarrow> (case sq_body req of Some (_, Some e) \<Rightarrow> False | _ \<Rightarrow> True)"

definition request_text :: "'t sg_lib \<Rightarrow> sg_request \<Rightarrow> string" where
  "request_text lib req =
     (let h = hashed_header lib req; names = sortHeaderNames h [''host''] in
      requestMethodVerb (sq_method req) @ nl @ canonicalURI (sq_path req) @ nl @ canonicalQueryString (sq_query req) @ nl @
      concat (map (header_line (sq_host req) h) names) @ nl @ join '';'' names @ nl @
      hex_lower (sha256 lib (case sq_body req of Some (b, _) \<Rightarrow> b | None \<Rightarrow> [])))"

definition authorization :: "'t sg_lib \<Rightarrow> Auth_keys \<Rightarrow> string \<Rightarrow> string \<Rightarrow> 't \<Rightarrow> sg_request \<Rightarrow> string" where
  "authorization lib auth rg svc t req =
     authHeaderString (ak_AccessKey auth) (signature_of lib t auth rg svc (hex_lower (sha256 lib (request_text lib req))))
       (credentialScope lib t rg svc) (sortHeaderNames (hashed_header lib req) [''host''])"

text \<open>When the time is known and the body is read, the signer sets one header and sorts values; it changes nothing else.\<close>

lemma SignV4_Ok:
  assumes "requestTime lib req = Inr t" and "body_ok req"
  obtains h where "SignV4 lib auth rg svc req = (None, req\<lparr>sq_header := header_Set ''Authorization'' (authorization lib auth rg svc t req) h,
        sq_body := map_option (\<lambda>(b, e). ([], e)) (sq_body req)\<rparr>)"
    and "map_of h = (\<lambda>k. if k \<in> CanonicalHeaderKey ` (set (sortHeaderNames (hashed_header lib req) [''host'']) - {''host''})
           then map_option sort (map_of (hashed_header lib req) k) else map_of (hashed_header lib req) k)"
    and "gm_ok (sq_header req) \<Longrightarrow> gm_ok h"
proof -
  let ?H = "hashed_header lib req" and ?b = "case sq_body req of Some (b, _) \<Rightarrow> b | None \<Rightarrow> []"
  obtain s h where c: "canonicalHeaders (sortHeaderNames ?H [''host'']) (sq_host req) ?H = (s, h)" by fastforce
  note spec = canonicalHeaders_spec [OF c]
  have "payloadHash lib (req\<lparr>sq_header := bare (sq_header req)\<rparr>) =
      (Inr (hex_lower (sha256 lib ?b)), req\<lparr>sq_header := bare (sq_header req), sq_body := map_option (\<lambda>(b, e). ([], e)) (sq_body req)\<rparr>)"
    using assms(2) by (auto simp: payloadHash_def read_body_def body_ok_def split: option.splits prod.splits)
  then have "canonicalRequest lib (req\<lparr>sq_header := bare (sq_header req)\<rparr>) True =
      (Inr (request_text lib req, hex_lower (sha256 lib (request_text lib req)), sortHeaderNames ?H [''host'']),
       req\<lparr>sq_header := h, sq_body := map_option (\<lambda>(b, e). ([], e)) (sq_body req)\<rparr>)"
    using c spec(1) by (simp add: canonicalRequest_def Let_def request_text_def hashed_header_def)
  then have "SignV4 lib auth rg svc req = (None, req\<lparr>sq_header := header_Set ''Authorization'' (authorization lib auth rg svc t req) h,
      sq_body := map_option (\<lambda>(b, e). ([], e)) (sq_body req)\<rparr>)"
    using assms(1) by (simp add: SignV4_def Let_def bare_def authorization_def)
  moreover have "gm_ok h" if "gm_ok (sq_header req)"
    by (rule spec(3)) (simp add: hashed_header_def header_Set_def bare_def that)
  ultimately show thesis using that spec(2) by blast
qed

lemma SignV4_error:
  assumes "requestTime lib req = Inl e \<or> \<not> body_ok req"
  shows "fst (SignV4 lib auth rg svc req) \<noteq> None"
  using assms
  by (auto simp: SignV4_def canonicalRequest_def payloadHash_def read_body_def body_ok_def Let_def
      split: option.splits prod.splits sum.splits)

lemma same_request_text:
  assumes "same_map (sq_header r) (sq_header r')" and "same_map (sq_query r) (sq_query r')"
    and "sq_method r' = sq_method r" "sq_host r' = sq_host r" "sq_path r' = sq_path r" "sq_body r' = sq_body r"
  shows "authorization lib auth rg svc t r' = authorization lib auth rg svc t r" and "requestTime lib r' = requestTime lib r"
    and "map_of (hashed_header lib r') = map_of (hashed_header lib r)"
    and "sortHeaderNames (hashed_header lib r') ns = sortHeaderNames (hashed_header lib r) ns"
proof -
  have h: "same_map (hashed_header lib r) (hashed_header lib r')"
    unfolding hashed_header_def header_Set_def bare_def assms(6) by (intro same_map_set same_map_del assms(1))
  then show "map_of (hashed_header lib r') = map_of (hashed_header lib r)" by (simp add: same_map_def)
  show n: "sortHeaderNames (hashed_header lib r') ns = sortHeaderNames (hashed_header lib r) ns" for ns
    using same_map_names [OF h] by simp
  have "header_line host (hashed_header lib r') = header_line host (hashed_header lib r)" for host
    using h by (simp add: fun_eq_iff header_line_def signed_values_def same_map_def)
  then have "request_text lib r' = request_text lib r"
    using same_map_query [OF assms(2)] by (simp add: request_text_def Let_def n assms(3-6))
  then show "authorization lib auth rg svc t r' = authorization lib auth rg svc t r" by (simp add: authorization_def n)
  show "requestTime lib r' = requestTime lib r"
    using same_map_Get [OF assms(1)] by (simp add: requestTime_def Let_def)
qed

lemma SignV4_runs: "fst (SignV4 lib auth rg svc req) = None \<longleftrightarrow> (\<exists>t. requestTime lib req = Inr t) \<and> body_ok req"
proof -
  have "\<exists>t. requestTime lib req = Inr t" if "\<nexists>e. requestTime lib req = Inl e" using that by (cases "requestTime lib req") auto
  moreover have "fst (SignV4 lib auth rg svc req) = None" if "requestTime lib req = Inr t" "body_ok req" for t
    by (rule SignV4_Ok [OF that, of auth rg svc]) simp
  ultimately show ?thesis using SignV4_error [of lib req _ auth rg svc] by (metis Inl_Inr_False)
qed

text \<open>The header after signing, as a map.\<close>

lemma SignV4_header:
  assumes "requestTime lib req = Inr t" and "body_ok req"
  shows "map_of (sq_header (snd (SignV4 lib auth rg svc req))) =
    (\<lambda>k. if k = ''Authorization'' then Some [authorization lib auth rg svc t req]
         else if k \<in> CanonicalHeaderKey ` (set (sortHeaderNames (hashed_header lib req) [''host'']) - {''host''})
         then map_option sort (map_of (hashed_header lib req) k) else map_of (hashed_header lib req) k)"
    and "gm_ok (sq_header req) \<Longrightarrow> gm_ok (sq_header (snd (SignV4 lib auth rg svc req)))"
proof -
  have a: "CanonicalHeaderKey ''Authorization'' = ''Authorization''" by code_simp
  obtain h where h: "SignV4 lib auth rg svc req = (None, req\<lparr>sq_header := header_Set ''Authorization'' (authorization lib auth rg svc t req) h,
        sq_body := map_option (\<lambda>(b, e). ([], e)) (sq_body req)\<rparr>)"
    "map_of h = (\<lambda>k. if k \<in> CanonicalHeaderKey ` (set (sortHeaderNames (hashed_header lib req) [''host'']) - {''host''})
           then map_option sort (map_of (hashed_header lib req) k) else map_of (hashed_header lib req) k)"
    "gm_ok (sq_header req) \<Longrightarrow> gm_ok h"
    by (rule SignV4_Ok [OF assms, of auth rg svc]) (rule that)
  then show "map_of (sq_header (snd (SignV4 lib auth rg svc req))) =
    (\<lambda>k. if k = ''Authorization'' then Some [authorization lib auth rg svc t req]
         else if k \<in> CanonicalHeaderKey ` (set (sortHeaderNames (hashed_header lib req) [''host'']) - {''host''})
         then map_option sort (map_of (hashed_header lib req) k) else map_of (hashed_header lib req) k)"
    and "gm_ok (sq_header req) \<Longrightarrow> gm_ok (sq_header (snd (SignV4 lib auth rg svc req)))"
    by (simp_all add: fun_eq_iff header_Set_def a)
qed

section \<open>Properties\<close>

text \<open>C28. The signature is a function of the request: two runs that range over the headers and the query in different
  orders either both fail or both give the same headers, the same signature included.\<close>

theorem sign_order_free:
  assumes "same_map (sq_header r) h'" and "same_map (sq_query r) q'" and "r' = r\<lparr>sq_header := h', sq_query := q'\<rparr>"
  shows "(fst (SignV4 lib auth rg svc r') = None \<longleftrightarrow> fst (SignV4 lib auth rg svc r) = None) \<and>
    (fst (SignV4 lib auth rg svc r) = None \<longrightarrow>
      map_of (sq_header (snd (SignV4 lib auth rg svc r'))) = map_of (sq_header (snd (SignV4 lib auth rg svc r))))"
proof -
  have r': "same_map (sq_header r) (sq_header r')" "same_map (sq_query r) (sq_query r')" "sq_method r' = sq_method r"
    "sq_host r' = sq_host r" "sq_path r' = sq_path r" "sq_body r' = sq_body r" "body_ok r' = body_ok r"
    using assms by (simp_all add: body_ok_def)
  note same = same_request_text [OF r'(1-6)]
  have "map_of (sq_header (snd (SignV4 lib auth rg svc r'))) = map_of (sq_header (snd (SignV4 lib auth rg svc r)))"
    if n: "fst (SignV4 lib auth rg svc r) = None"
  proof -
    obtain t where t: "requestTime lib r = Inr t" "body_ok r" using n [unfolded SignV4_runs] by blast
    then have t': "requestTime lib r' = Inr t" "body_ok r'" using same(2) [of lib] r'(7) by simp_all
    show ?thesis unfolding SignV4_header(1) [OF t] SignV4_header(1) [OF t'] same(1,3,4) ..
  qed
  then show ?thesis using same(2) [of lib] r'(7) by (simp add: SignV4_runs)
qed

definition toy_lib :: "nat sg_lib" where
  "toy_lib = \<lparr>sha256 = (\<lambda>b. take 4 (rev b)), hmac256 = (\<lambda>k b. take 4 (k @ b)), base64 = (\<lambda>b. b),
     time_parse = (\<lambda>f d. if d = f then Some 0 else None), time_format = (\<lambda>f t. f)\<rparr>"

definition toy_request :: sg_request where
  "toy_request = \<lparr>sq_method = ''PUT'', sq_host = ''s3.amazonaws.com'', sq_path = ''/b/a b'', sq_query = [],
     sq_header = [(''X-Amz-Date'', [ISO8601BasicFormat]), (''Content-Type'', [''text/plain''])], sq_body = Some (''data'', None)\<rparr>"

definition toy_auth :: Auth_keys where
  "toy_auth = \<lparr>ak_AccessKey = ''id'', ak_SecretKey = ''secret''\<rparr>"

lemma toy_runs: "fst (SignV4 toy_lib toy_auth ''us-east-1'' ''s3'' toy_request) = None"
  by code_simp

theorem sign_order_free_witness:
  "map_of (sq_header (snd (SignV4 toy_lib toy_auth ''us-east-1'' ''s3'' (toy_request\<lparr>sq_header := rev (sq_header toy_request), sq_query := []\<rparr>)))) =
   map_of (sq_header (snd (SignV4 toy_lib toy_auth ''us-east-1'' ''s3'' toy_request)))"
proof -
  have h: "same_map (sq_header toy_request) (rev (sq_header toy_request))" "same_map (sq_query toy_request) []"
    by (auto simp: same_map_def toy_request_def fun_eq_iff)
  show ?thesis using sign_order_free [OF h refl] toy_runs by blast
qed

text \<open>C29. Every header that goes out is signed: after signing, the list in the signature header is the sorted list of the
  lower-case names of all headers that the request has, the signature itself excepted, with the host.\<close>

theorem sign_covers_headers:
  assumes "gm_ok (sq_header req)" and "SignV4 lib auth rg svc req = (None, req')"
  shows "\<exists>t. requestTime lib req = Inr t \<and> header_Get ''Authorization'' (sq_header req') =
    authHeaderString (ak_AccessKey auth) (signature_of lib t auth rg svc (hex_lower (sha256 lib (request_text lib req))))
      (credentialScope lib t rg svc) (sortHeaderNames (del_key ''Authorization'' (sq_header req')) [''host''])"
proof -
  obtain t where t: "requestTime lib req = Inr t" "body_ok req" using SignV4_runs [of lib auth rg svc req] assms(2) by auto
  note h = SignV4_header [OF t, of auth rg svc]
  have dom: "dom (map_of (del_key ''Authorization'' (sq_header req'))) = dom (map_of (hashed_header lib req))"
  proof -
    have x: "CanonicalHeaderKey ''x-amz-content-sha256'' = ''X-Amz-Content-Sha256''" by code_simp
    have "map_of (hashed_header lib req) ''Authorization'' = None"
      by (simp add: hashed_header_def header_Set_def bare_def x)
    then show ?thesis using h(1) assms(2) by (auto simp: dom_def split: if_splits)
  qed
  have "sortHeaderNames (del_key ''Authorization'' (sq_header req')) [''host''] = sortHeaderNames (hashed_header lib req) [''host'']"
    using h(2) assms by (intro names_dom dom) (simp_all add: hashed_header_def header_Set_def bare_def)
  moreover have "CanonicalHeaderKey ''Authorization'' = ''Authorization''" by code_simp
  ultimately show ?thesis using t(1) h(1) assms(2) by (simp add: header_Get_def authorization_def)
qed

theorem sign_covers_headers_witness:
  "sortHeaderNames (del_key ''Authorization'' (sq_header (snd (SignV4 toy_lib toy_auth ''us-east-1'' ''s3'' toy_request)))) [''host''] =
     [''content-type'', ''host'', ''x-amz-content-sha256'', ''x-amz-date''] \<and>
   (\<exists>t. requestTime toy_lib toy_request = Inr t)"
proof -
  have "gm_ok (sq_header toy_request)" by (simp add: toy_request_def)
  then have "\<exists>t. requestTime toy_lib toy_request = Inr t"
    using sign_covers_headers [of toy_request toy_lib toy_auth "''us-east-1''" "''s3''"] toy_runs by (metis prod.collapse)
  moreover have "sortHeaderNames (del_key ''Authorization'' (sq_header (snd (SignV4 toy_lib toy_auth ''us-east-1'' ''s3'' toy_request)))) [''host''] =
     [''content-type'', ''host'', ''x-amz-content-sha256'', ''x-amz-date'']" by code_simp
  ultimately show ?thesis by blast
qed

text \<open>The names of the headers that the signer touches by name.\<close>

lemma canonical_names:
  "CanonicalHeaderKey ''Authorization'' = ''Authorization''" "CanonicalHeaderKey ''x-amz-content-sha256'' = ''X-Amz-Content-Sha256''"
  "CanonicalHeaderKey ''x-amz-date'' = ''X-Amz-Date''" "CanonicalHeaderKey ''date'' = ''Date''"
  by code_simp+

definition single_date :: "gvalues \<Rightarrow> bool" where
  "single_date h \<longleftrightarrow> (\<forall>k \<in> {''X-Amz-Date'', ''Date''}. \<forall>xs. map_of h k = Some xs \<longrightarrow> length xs \<le> 1)"

lemma sort_short: "length xs \<le> 1 \<Longrightarrow> sort xs = xs" for xs :: "'a::linorder list"
  by (cases xs; cases "tl xs") auto

lemma hashed_header_map:
  "map_of (hashed_header lib r) = (map_of (sq_header r))(''Authorization'' := None, ''authorization'' := None,
     ''X-Amz-Content-Sha256'' \<mapsto> [hex_lower (sha256 lib (case sq_body r of Some (b, _) \<Rightarrow> b | None \<Rightarrow> []))])"
  by (simp add: hashed_header_def header_Set_def bare_def canonical_names fun_eq_iff)

text \<open>A request that was signed and rewound: the header to hash is the old one with some values sorted, so the text is
  the same.\<close>

lemma resigned:
  assumes "gm_ok (sq_header req)" and "single_date (sq_header req)" and "requestTime lib req = Inr t" and "body_ok req"
    and "req2 = (snd (SignV4 lib auth rg svc req))\<lparr>sq_body := sq_body req\<rparr>"
  shows "requestTime lib req2 = Inr t" and "request_text lib req2 = request_text lib req"
    and "sortHeaderNames (hashed_header lib req2) ns = sortHeaderNames (hashed_header lib req) ns"
    and "map_of (hashed_header lib req2) = (\<lambda>k. if k \<in> CanonicalHeaderKey ` (set (sortHeaderNames (hashed_header lib req) [''host'']) - {''host''})
         then map_option sort (map_of (hashed_header lib req) k) else map_of (hashed_header lib req) k)"
proof -
  note h = SignV4_header [OF assms(3,4), of auth rg svc]
  have rest: "sq_method req2 = sq_method req" "sq_host req2 = sq_host req" "sq_path req2 = sq_path req"
    "sq_query req2 = sq_query req" "sq_body req2 = sq_body req" "sq_header req2 = sq_header (snd (SignV4 lib auth rg svc req))"
    by (rule SignV4_Ok [OF assms(3,4), of auth rg svc], simp add: assms(5))+
  show m: "map_of (hashed_header lib req2) = (\<lambda>k. if k \<in> CanonicalHeaderKey ` (set (sortHeaderNames (hashed_header lib req) [''host'']) - {''host''})
         then map_option sort (map_of (hashed_header lib req) k) else map_of (hashed_header lib req) k)"
    unfolding hashed_header_map [of lib req2] rest h(1) by (auto simp: fun_eq_iff hashed_header_map [of lib req])
  have ok: "gm_ok (hashed_header lib req)" "gm_ok (hashed_header lib req2)"
    using assms(1) h(2) by (simp_all add: hashed_header_def header_Set_def bare_def rest)
  show n: "sortHeaderNames (hashed_header lib req2) ns = sortHeaderNames (hashed_header lib req) ns" for ns
    by (rule names_dom [OF ok(2,1)]) (auto simp: m dom_def split: if_splits)
  have "header_line host (hashed_header lib req2) = header_line host (hashed_header lib req)" for host
    by (auto simp: fun_eq_iff header_line_def signed_values_def m split: option.split)
  then show "request_text lib req2 = request_text lib req" by (simp add: request_text_def Let_def n rest)
  have "map_of (sq_header req2) k = map_of (sq_header req) k" if "k \<in> {''X-Amz-Date'', ''Date''}" for k
  proof -
    have k: "k \<notin> {''Authorization'', ''authorization'', ''X-Amz-Content-Sha256''}" using that by auto
    then have "map_of (sq_header req2) k = map_of (sq_header req) k \<or> map_of (sq_header req2) k = map_option sort (map_of (sq_header req) k)"
      unfolding rest(6) h(1) hashed_header_map by simp
    moreover have "map_option sort (map_of (sq_header req) k) = map_of (sq_header req) k"
      using that assms(2) sort_short unfolding single_date_def by (cases "map_of (sq_header req) k") auto
    ultimately show ?thesis by metis
  qed
  then have "requestTime lib req2 = requestTime lib req"
    by (simp add: requestTime_def header_Get_def canonical_names Let_def)
  then show "requestTime lib req2 = Inr t" using assms(3) by simp
qed

text \<open>C30. Signing again changes nothing: a signed request whose body was rewound gives, when it is signed once more at the
  same time, exactly the headers it has. So a retry may sign anew, and an old signature never becomes part
  of the text. The date header has a single value.\<close>

theorem sign_again:
  assumes "gm_ok (sq_header req)" and "single_date (sq_header req)" and "SignV4 lib auth rg svc req = (None, req')"
  shows "fst (SignV4 lib auth rg svc (req'\<lparr>sq_body := sq_body req\<rparr>)) = None \<and>
    map_of (sq_header (snd (SignV4 lib auth rg svc (req'\<lparr>sq_body := sq_body req\<rparr>)))) = map_of (sq_header req')"
proof -
  obtain t where t: "requestTime lib req = Inr t" "body_ok req" using SignV4_runs [of lib auth rg svc req] assms(3) by auto
  define req2 where "req2 = (snd (SignV4 lib auth rg svc req))\<lparr>sq_body := sq_body req\<rparr>"
  note re = resigned [OF assms(1,2) t req2_def]
  have b: "body_ok req2" using t(2) by (simp add: body_ok_def req2_def)
  have "map_of (sq_header (snd (SignV4 lib auth rg svc req2))) = map_of (sq_header (snd (SignV4 lib auth rg svc req)))"
    unfolding SignV4_header(1) [OF re(1) b] SignV4_header(1) [OF t] authorization_def re(2-4)
    by (auto simp: fun_eq_iff option.map_comp comp_def)
  moreover have "fst (SignV4 lib auth rg svc req2) = None" using re(1) b by (simp add: SignV4_runs)
  ultimately show ?thesis using assms(3) by (simp add: req2_def)
qed

theorem sign_again_witness:
  "fst (SignV4 toy_lib toy_auth ''us-east-1'' ''s3'' ((snd (SignV4 toy_lib toy_auth ''us-east-1'' ''s3'' toy_request))\<lparr>sq_body := sq_body toy_request\<rparr>)) = None"
proof -
  have "gm_ok (sq_header toy_request)" "single_date (sq_header toy_request)" by (auto simp: toy_request_def single_date_def)
  then show ?thesis
    using sign_again [of toy_request toy_lib toy_auth "''us-east-1''" "''s3''"] toy_runs by (metis prod.collapse)
qed

text \<open>The requests of the S3 client are always signed: with the date header it adds, signing fails only if reading the
  body fails. The clock is one that reads what it writes in the one format, and writes something.\<close>

lemma sign_dated:
  assumes "time_parse lib ISO8601BasicFormat (time_format lib ISO8601BasicFormat t) \<noteq> None" and "time_format lib ISO8601BasicFormat t \<noteq> []"
    and "sq_header req = addAmazonDateHeader lib t h"
  shows "fst (SignV4 lib auth rg svc req) = None \<longleftrightarrow> body_ok req"
proof -
  let ?d = "time_format lib ISO8601BasicFormat t"
  have "header_Get ''x-amz-date'' (sq_header req) = ?d"
    by (simp add: assms(3) addAmazonDateHeader_def header_Set_def header_Get_def)
  moreover have "first_time lib timeFormats ?d \<noteq> None"
    using assms(1) by (auto simp: timeFormats_def split: option.splits)
  ultimately have "\<exists>u. requestTime lib req = Inr u" using assms(2) by (auto simp: requestTime_def Let_def)
  then show ?thesis by (simp add: SignV4_runs)
qed

end
