(* ===== verification/Amqp_Codec.thy ===== *)
theory Amqp_Codec
  imports Go_Prelude "HOL-Library.Word"
begin

text \<open>
  The values on the wire of the message broker: \<^verbatim>\<open>read.go\<close>, \<^verbatim>\<open>write.go\<close> and the tables of \<^verbatim>\<open>types.go\<close> of
  \<^verbatim>\<open>streadway/amqp\<close>. Integers have their width, a signed and an unsigned one of a width share their bits; floating
  point numbers are their bits. A table is a Go map, and the list that represents it is the order in which this
  run ranges over it.

  A reader is a function from the bytes that are left to a result and the bytes that are left then, also after
  an error, because one loop goes on after \<^verbatim>\<open>io.EOF\<close>. What is written goes to a buffer that is dropped after an error,
  so a writer gives the bytes or the error.
\<close>

section \<open>Bytes and integers\<close>

fun be :: "nat \<Rightarrow> nat \<Rightarrow> bytes" where
  "be 0 v = []"
| "be (Suc n) v = be n (v div 256) @ [char_of (v mod 256)]"

definition be_nat :: "bytes \<Rightarrow> nat" where
  "be_nat bs = foldl (\<lambda>a c. a * 256 + of_char c) 0 bs"

lemma length_be [simp]: "length (be n v) = n"
  by (induction n arbitrary: v) auto

lemma be_nat_be [simp]: "be_nat (be n v) = v mod 256 ^ n"
proof (induction n arbitrary: v)
  case (Suc n)
  have "be_nat (be (Suc n) v) = (v div 256 mod 256 ^ n) * 256 + v mod 256"
    using Suc [of "v div 256"] by (simp add: be_nat_def)
  also have "\<dots> = v mod (256 * 256 ^ n)" by (simp only: mod_mult2_eq mult.commute)
  finally show ?case by simp
qed (simp add: be_nat_def)

declare be.simps [simp del]

text \<open>\<^verbatim>\<open>io.EOF\<close> is compared by identity; no other error of this package has its text.\<close>

definition EOF :: error where "EOF = Errorf ''EOF''"
definition ErrUnexpectedEOF :: error where "ErrUnexpectedEOF = Errorf ''unexpected EOF''"
definition ErrSyntax :: error where "ErrSyntax = Errorf ''invalid field or value inside of a frame''"
definition ErrFieldType :: error where "ErrFieldType = Errorf ''unsupported table field type''"

text \<open>\<^verbatim>\<open>io.ReadFull\<close>, which \<^verbatim>\<open>binary.Read\<close> is built on: the bytes of a short read are gone.\<close>

definition read_full :: "nat \<Rightarrow> bytes \<Rightarrow> bytes res \<times> bytes" where
  "read_full n bs =
     (if n \<le> length bs then (Ok (take n bs), drop n bs)
      else (Fail (if bs = [] then EOF else ErrUnexpectedEOF), []))"

definition read_be :: "nat \<Rightarrow> bytes \<Rightarrow> nat res \<times> bytes" where
  "read_be n bs = andThen (read_full n bs) (\<lambda>b bs. (Ok (be_nat b), bs))"

lemma read_full_append [simp]: "length x = n \<Longrightarrow> read_full n (x @ r) = (Ok x, r)"
  by (simp add: read_full_def)

lemma read_be_append [simp]: "read_be n (be n v @ r) = (Ok (v mod 256 ^ n), r)"
  by (simp add: read_be_def)

lemma read_full_rest: "read_full n bs = (r, bs') \<Longrightarrow> length bs' \<le> length bs"
  by (auto simp: read_full_def split: if_splits)

lemma read_full_Ok: "read_full n bs = (Ok b, bs') \<longleftrightarrow> n \<le> length bs \<and> b = take n bs \<and> bs' = drop n bs"
  by (auto simp: read_full_def)

lemma read_be_Ok: "read_be n bs = (Ok v, bs') \<Longrightarrow> length bs = n + length bs'"
  by (auto simp: read_be_def andThen_eq_Ok read_full_Ok)

lemma andThen_cong [fundef_cong]:
  "m = m' \<Longrightarrow> (\<And>a w. m' = (Ok a, w) \<Longrightarrow> ok a w = ok' a w) \<Longrightarrow> andThen m ok = andThen m' ok'"
  by (cases m'; cases "fst m'") auto

text \<open>No reader makes bytes: what is left is at most what was there.\<close>

definition eats :: "'a res \<times> bytes \<Rightarrow> bytes \<Rightarrow> bool" where
  "eats m bs \<longleftrightarrow> length (snd m) \<le> length bs"

lemma eats_andThen:
  "eats m bs \<Longrightarrow> (\<And>a bs'. m = (Ok a, bs') \<Longrightarrow> eats (ok a bs') bs) \<Longrightarrow> eats (andThen m ok) bs"
  by (cases m; cases "fst m") (auto simp: eats_def)

lemma eats_seq: "eats m bs \<Longrightarrow> (\<And>a bs'. eats (ok a bs') bs') \<Longrightarrow> eats (andThen m ok) bs"
  by (cases m; cases "fst m") (auto simp: eats_def intro: order_trans)

lemma eats_Pair [simp]: "eats (r, bs') bs \<longleftrightarrow> length bs' \<le> length bs"
  by (simp add: eats_def)

lemma eats_read_full [simp, intro]: "length bs \<le> length bs' \<Longrightarrow> eats (read_full n bs) bs'"
  by (auto simp: read_full_def)

lemma eats_read_be [simp, intro]: "length bs \<le> length bs' \<Longrightarrow> eats (read_be n bs) bs'"
  unfolding read_be_def by (rule eats_andThen) (auto simp: read_full_Ok)

section \<open>Strings\<close>

definition writeShortstr :: "string \<Rightarrow> bytes" where
  "writeShortstr s = (let n = length s mod 2 ^ 8 in be 1 n @ take n s)"

definition writeLongstr :: "string \<Rightarrow> bytes" where
  "writeLongstr s = (let n = length s mod 2 ^ 32 in be 4 n @ take n s)"

definition readShortstr :: "bytes \<Rightarrow> string res \<times> bytes" where
  "readShortstr bs = andThen (read_be 1 bs) read_full"

definition readLongstr :: "bytes \<Rightarrow> string res \<times> bytes" where
  "readLongstr bs = andThen (read_be 4 bs) read_full"

lemma readShortstr_write [simp]: "length s < 256 \<Longrightarrow> readShortstr (writeShortstr s @ r) = (Ok s, r)"
  by (simp add: readShortstr_def writeShortstr_def)

lemma readLongstr_write [simp]: "length s < 2 ^ 32 \<Longrightarrow> readLongstr (writeLongstr s @ r) = (Ok s, r)"
  by (simp add: readLongstr_def writeLongstr_def)

lemma readShortstr_Ok: "readShortstr bs = (Ok s, bs') \<Longrightarrow> length bs = 1 + length s + length bs'"
  by (auto simp: readShortstr_def andThen_eq_Ok read_full_Ok dest: read_be_Ok)

lemma readLongstr_Ok: "readLongstr bs = (Ok s, bs') \<Longrightarrow> length bs = 4 + length s + length bs'"
  by (auto simp: readLongstr_def andThen_eq_Ok read_full_Ok dest: read_be_Ok)

lemma eats_strings [simp, intro]:
  "length bs \<le> length bs' \<Longrightarrow> eats (readShortstr bs) bs'" "length bs \<le> length bs' \<Longrightarrow> eats (readLongstr bs) bs'"
  unfolding readShortstr_def readLongstr_def by (auto intro!: eats_andThen dest!: read_be_Ok)

section \<open>Fields and tables\<close>

text \<open>A point in time: the zero value of \<^verbatim>\<open>time.Time\<close>, or seconds since 1970 (64 bits) and nanoseconds.\<close>

datatype gotime = ZeroTime | UnixTime "64 word" nat

fun Unix :: "gotime \<Rightarrow> 64 word" where
  "Unix ZeroTime = - 62135596800"
| "Unix (UnixTime s _) = s"

datatype field =
    FBool bool
  | FByte "8 word"
  | FInt16 "16 word"
  | FInt32 "32 word"
  | FInt64 "64 word"
  | FFloat32 "32 word"
  | FFloat64 "64 word"
  | FDecimal "8 word" "32 word"
  | FString string
  | FArray "field list"
  | FTime gotime
  | FTable "(string \<times> field) list"
  | FBytes bytes
  | FNil
  | FOther

type_synonym table = "(string \<times> field) list"

text \<open>\<open>FOther\<close> stands for a value of a Go type that is not in the list of the source.\<close>

definition put :: "nat \<Rightarrow> 'a::len word \<Rightarrow> bytes" where
  "put n w = be n (unat w)"

definition get :: "nat \<Rightarrow> bytes \<Rightarrow> 'a::len word res \<times> bytes" where
  "get n bs = andThen (read_be n bs) (\<lambda>v bs. (Ok (word_of_nat v), bs))"

lemma length_put [simp]: "length (put n w) = n"
  by (simp add: put_def)

lemma get_put:
  fixes w :: "'a::len word"
  assumes "8 * n = LENGTH('a)"
  shows "get n (put n w @ r) = (Ok w, r)"
proof -
  have "(256::nat) ^ n = 2 ^ LENGTH('a)" using assms [symmetric] by (simp add: power_mult)
  then have "unat w mod 256 ^ n = unat w" by simp
  then show ?thesis by (simp add: get_def put_def)
qed

lemma get_put_widths [simp]:
  "get (Suc 0) (put (Suc 0) (b :: 8 word) @ r) = (Ok b, r)" "get 2 (put 2 (s :: 16 word) @ r) = (Ok s, r)"
  "get 4 (put 4 (l :: 32 word) @ r) = (Ok l, r)" "get 8 (put 8 (q :: 64 word) @ r) = (Ok q, r)"
  by (rule get_put, simp)+

lemma get_Ok: "get n bs = (Ok w, bs') \<Longrightarrow> length bs = n + length bs'"
  by (auto simp: get_def andThen_eq_Ok dest: read_be_Ok)

lemma eats_get [simp, intro]: "length bs \<le> length bs' \<Longrightarrow> eats (get n bs) bs'"
  unfolding get_def by (rule eats_andThen) (auto dest: read_be_Ok)

subsection \<open>Writing\<close>

definition cat :: "error + bytes \<Rightarrow> error + bytes \<Rightarrow> error + bytes" where
  "cat a b = (case a of Inl e \<Rightarrow> Inl e | Inr x \<Rightarrow> (case b of Inl e \<Rightarrow> Inl e | Inr y \<Rightarrow> Inr (x @ y)))"

lemma cat_Inr [simp]: "cat a b = Inr z \<longleftrightarrow> (\<exists>x y. a = Inr x \<and> b = Inr y \<and> z = x @ y)"
  by (auto simp: cat_def split: sum.splits)

fun writeField :: "field \<Rightarrow> error + bytes"
  and writeFields :: "field list \<Rightarrow> error + bytes"
  and writeEntries :: "table \<Rightarrow> error + bytes" where
  "writeField (FBool b) = Inr (''t'' @ be 1 (of_bool b))"
| "writeField (FByte b) = Inr (''b'' @ put 1 b)"
| "writeField (FInt16 v) = Inr (''s'' @ put 2 v)"
| "writeField (FInt32 v) = Inr (''I'' @ put 4 v)"
| "writeField (FInt64 v) = Inr (''l'' @ put 8 v)"
| "writeField (FFloat32 v) = Inr (''f'' @ put 4 v)"
| "writeField (FFloat64 v) = Inr (''d'' @ put 8 v)"
| "writeField (FDecimal s v) = Inr (''D'' @ put 1 s @ put 4 v)"
| "writeField (FString v) = Inr (''S'' @ be 4 (length v mod 2 ^ 32) @ v)"
| "writeField (FArray v) =
     (case writeFields v of Inl e \<Rightarrow> Inl e | Inr sec \<Rightarrow> Inr (''A'' @ be 4 (length sec mod 2 ^ 32) @ sec))"
| "writeField (FTime v) = Inr (''T'' @ put 8 (Unix v))"
| "writeField (FTable v) = (case writeEntries v of Inl e \<Rightarrow> Inl e | Inr buf \<Rightarrow> Inr (''F'' @ writeLongstr buf))"
| "writeField (FBytes v) = Inr (''x'' @ be 4 (length v mod 2 ^ 32) @ v)"
| "writeField FNil = Inr ''V''"
| "writeField FOther = Inl ErrFieldType"
| "writeFields [] = Inr []"
| "writeFields (v # vs) = cat (writeField v) (writeFields vs)"
| "writeEntries [] = Inr []"
| "writeEntries ((k, v) # t) = cat (Inr (writeShortstr k)) (cat (writeField v) (writeEntries t))"

definition writeTable :: "table \<Rightarrow> error + bytes" where
  "writeTable t = (case writeEntries t of Inl e \<Rightarrow> Inl e | Inr buf \<Rightarrow> Inr (writeLongstr buf))"

subsection \<open>Validation\<close>

text \<open>The texts of these errors are shortened: the type of the value and the nested text are left out.\<close>

fun validateField :: "field \<Rightarrow> error option"
  and validate_array :: "field list \<Rightarrow> error option"
  and validate_table :: "table \<Rightarrow> error option" where
  "validateField (FArray fv) = validate_array fv"
| "validateField (FTable fv) = validate_table fv"
| "validateField FOther = Some (Errorf ''value not supported'')"
| "validateField f = None"
| "validate_array [] = None"
| "validate_array (v # vs) =
     (case validateField v of Some e \<Rightarrow> Some (Errorf ''in array'') | None \<Rightarrow> validate_array vs)"
| "validate_table [] = None"
| "validate_table ((k, v) # t) =
     (case validateField v of Some e \<Rightarrow> Some (Errorf (''table field '' @ k)) | None \<Rightarrow> validate_table t)"

definition Validate :: "table \<Rightarrow> error option" where
  "Validate t = validateField (FTable t)"

subsection \<open>Reading\<close>

definition readDecimal :: "bytes \<Rightarrow> field res \<times> bytes" where
  "readDecimal bs = andThen (get 1 bs) (\<lambda>s bs. andThen (get 4 bs) (\<lambda>v bs. (Ok (FDecimal s v), bs)))"

definition readTimestamp :: "bytes \<Rightarrow> gotime res \<times> bytes" where
  "readTimestamp bs = andThen (get 8 bs) (\<lambda>sec bs. (Ok (UnixTime sec 0), bs))"

text \<open>\<^verbatim>\<open>make([]byte, n)\<close> panics for a negative \<open>n\<close>; the length of a byte field is read as a signed integer.\<close>

definition read_blob :: "bytes \<Rightarrow> field res \<times> bytes" where
  "read_blob bs = andThen (get 4 bs) (\<lambda>n bs.
     if sint (n :: 32 word) < 0 then (Panic ''makeslice: len out of range'', bs)
     else andThen (read_full (unat n) bs) (\<lambda>v bs. (Ok (FBytes v), bs)))"

definition read_scalar :: "bytes \<Rightarrow> bytes \<Rightarrow> field res \<times> bytes" where
  "read_scalar typ bs =
     (if typ = ''t'' then andThen (read_be 1 bs) (\<lambda>v bs. (Ok (FBool (v \<noteq> 0)), bs))
      else if typ = ''b'' then andThen (get 1 bs) (\<lambda>v bs. (Ok (FByte v), bs))
      else if typ = ''s'' then andThen (get 2 bs) (\<lambda>v bs. (Ok (FInt16 v), bs))
      else if typ = ''I'' then andThen (get 4 bs) (\<lambda>v bs. (Ok (FInt32 v), bs))
      else if typ = ''l'' then andThen (get 8 bs) (\<lambda>v bs. (Ok (FInt64 v), bs))
      else if typ = ''f'' then andThen (get 4 bs) (\<lambda>v bs. (Ok (FFloat32 v), bs))
      else if typ = ''d'' then andThen (get 8 bs) (\<lambda>v bs. (Ok (FFloat64 v), bs))
      else if typ = ''D'' then readDecimal bs
      else if typ = ''S'' then andThen (readLongstr bs) (\<lambda>v bs. (Ok (FString v), bs))
      else if typ = ''T'' then andThen (readTimestamp bs) (\<lambda>v bs. (Ok (FTime v), bs))
      else if typ = ''x'' then read_blob bs
      else if typ = ''V'' then (Ok FNil, bs)
      else (Fail ErrSyntax, bs))"

text \<open>
  The three functions call each other. An array is read from a limited reader, so its loop sees the bytes of the
  array and what it leaves of them comes before the bytes after it; the loop stops at \<^verbatim>\<open>io.EOF\<close>. A table is read from a
  buffer of its own. The tests on lengths are for the termination proof only: a field that was read has taken at
  least one byte, so they always hold (\<open>read_loops\<close> below).
\<close>

function readField :: "bytes \<Rightarrow> field res \<times> bytes"
  and readArray_loop :: "bytes \<Rightarrow> field list res \<times> bytes"
  and readTable_loop :: "bytes \<Rightarrow> table \<Rightarrow> table res \<times> bytes" where
  "readField bs =
     andThen (read_full 1 bs) (\<lambda>typ bs.
       if typ = ''A'' then
         andThen (read_be 4 bs) (\<lambda>n bs.
           (case readArray_loop (take n bs) of
              (Ok vs, left) \<Rightarrow> (Ok (FArray vs), left @ drop n bs)
            | (Fail e, left) \<Rightarrow> (Fail e, left @ drop n bs)
            | (Panic p, left) \<Rightarrow> (Panic p, left @ drop n bs)))
       else if typ = ''F'' then
         andThen (readLongstr bs) (\<lambda>str bs.
           (case readTable_loop str [] of
              (Ok t, _) \<Rightarrow> (Ok (FTable t), bs)
            | (Fail e, _) \<Rightarrow> (Fail e, bs)
            | (Panic p, _) \<Rightarrow> (Panic p, bs)))
       else read_scalar typ bs)"
| "readArray_loop lim =
     (case readField lim of
        (Ok field, lim') \<Rightarrow>
          if length lim' < length lim
          then andThen (readArray_loop lim') (\<lambda>arr left. (Ok (field # arr), left))
          else (Panic ''unreachable'', lim')
      | (Fail e, lim') \<Rightarrow> if e = EOF then (Ok [], lim') else (Fail e, lim')
      | (Panic p, lim') \<Rightarrow> (Panic p, lim'))"
| "readTable_loop nested tab =
     (if nested = [] then (Ok tab, [])
      else andThen (readShortstr nested) (\<lambda>key n1.
        andThen (readField n1) (\<lambda>value n2.
          if length n2 < length nested then readTable_loop n2 (gm_set key value tab)
          else (Panic ''unreachable'', n2))))"
  by pat_completeness auto
termination
  by (relation "measure (\<lambda>x. case x of
        Inl bs \<Rightarrow> 2 * length bs | Inr (Inl lim) \<Rightarrow> 2 * length lim + 1 | Inr (Inr (n, _)) \<Rightarrow> 2 * length n)")
    (auto simp: read_full_Ok dest: read_be_Ok readLongstr_Ok readShortstr_Ok)

declare readField.simps [simp del] readArray_loop.simps [simp del] readTable_loop.simps [simp del]

definition readTable :: "bytes \<Rightarrow> table res \<times> bytes" where
  "readTable bs = andThen (readLongstr bs) (\<lambda>str bs. (fst (readTable_loop str []), bs))"

definition readArray :: "bytes \<Rightarrow> field list res \<times> bytes" where
  "readArray bs = andThen (read_be 4 bs) (\<lambda>n bs.
     let (r, left) = readArray_loop (take n bs) in (r, left @ drop n bs))"

end
