(* ===== verification/Amqp_Methods.thy ===== *)
theory Amqp_Methods
  imports Amqp_Codec
begin

text \<open>
  The methods of the protocol, \<^verbatim>\<open>spec091.go\<close> of \<^verbatim>\<open>streadway/amqp\<close>, which is generated. Every type there has the same five
  parts: a struct, its number, whether the caller waits for an answer, and a reader and a writer that go through
  the fields in the same order. Here a type is a signature, and one reader and one writer serve all of them
  (theory \<open>Amqp_Frame\<close>). Consecutive flags share an octet, the first in its lowest bit; no type has two such octets; the octet has no name
  of its own.
\<close>

datatype kind = KOctet | KShort | KLong | KLongLong | KShortstr | KLongstr | KTable | KBits "string list"

text \<open>Whether a caller waits: always, never, or unless the flag with this position is set.\<close>

datatype waits = Waits | NoReply | UnlessBit nat

record method_sig =
  ms_class :: nat
  ms_method :: nat
  ms_wait :: waits
  ms_content :: bool
  ms_args :: "(string \<times> kind) list"

abbreviation method_of :: "nat \<Rightarrow> nat \<Rightarrow> waits \<Rightarrow> bool \<Rightarrow> (string \<times> kind) list \<Rightarrow> method_sig" where
  "method_of c m w k as \<equiv> \<lparr>ms_class = c, ms_method = m, ms_wait = w, ms_content = k, ms_args = as\<rparr>"

section \<open>Class connection\<close>

definition connectionStart :: method_sig where
  "connectionStart = method_of 10 10 Waits False
     [(''VersionMajor'', KOctet), (''VersionMinor'', KOctet), (''ServerProperties'', KTable),
      (''Mechanisms'', KLongstr), (''Locales'', KLongstr)]"

definition connectionStartOk :: method_sig where
  "connectionStartOk = method_of 10 11 Waits False
     [(''ClientProperties'', KTable), (''Mechanism'', KShortstr), (''Response'', KLongstr), (''Locale'',
      KShortstr)]"

definition connectionSecure :: method_sig where
  "connectionSecure = method_of 10 20 Waits False
     [(''Challenge'', KLongstr)]"

definition connectionSecureOk :: method_sig where
  "connectionSecureOk = method_of 10 21 Waits False
     [(''Response'', KLongstr)]"

definition connectionTune :: method_sig where
  "connectionTune = method_of 10 30 Waits False
     [(''ChannelMax'', KShort), (''FrameMax'', KLong), (''Heartbeat'', KShort)]"

definition connectionTuneOk :: method_sig where
  "connectionTuneOk = method_of 10 31 Waits False
     [(''ChannelMax'', KShort), (''FrameMax'', KLong), (''Heartbeat'', KShort)]"

definition connectionOpen :: method_sig where
  "connectionOpen = method_of 10 40 Waits False
     [(''VirtualHost'', KShortstr), (''reserved1'', KShortstr), ('''', KBits [''reserved2''])]"

definition connectionOpenOk :: method_sig where
  "connectionOpenOk = method_of 10 41 Waits False
     [(''reserved1'', KShortstr)]"

definition connectionClose :: method_sig where
  "connectionClose = method_of 10 50 Waits False
     [(''ReplyCode'', KShort), (''ReplyText'', KShortstr), (''ClassId'', KShort), (''MethodId'', KShort)]"

definition connectionCloseOk :: method_sig where
  "connectionCloseOk = method_of 10 51 Waits False []"

definition connectionBlocked :: method_sig where
  "connectionBlocked = method_of 10 60 NoReply False
     [(''Reason'', KShortstr)]"

definition connectionUnblocked :: method_sig where
  "connectionUnblocked = method_of 10 61 NoReply False []"

section \<open>Class channel\<close>

definition channelOpen :: method_sig where
  "channelOpen = method_of 20 10 Waits False
     [(''reserved1'', KShortstr)]"

definition channelOpenOk :: method_sig where
  "channelOpenOk = method_of 20 11 Waits False
     [(''reserved1'', KLongstr)]"

definition channelFlow :: method_sig where
  "channelFlow = method_of 20 20 Waits False
     [('''', KBits [''Active''])]"

definition channelFlowOk :: method_sig where
  "channelFlowOk = method_of 20 21 NoReply False
     [('''', KBits [''Active''])]"

definition channelClose :: method_sig where
  "channelClose = method_of 20 40 Waits False
     [(''ReplyCode'', KShort), (''ReplyText'', KShortstr), (''ClassId'', KShort), (''MethodId'', KShort)]"

definition channelCloseOk :: method_sig where
  "channelCloseOk = method_of 20 41 Waits False []"

section \<open>Class exchange\<close>

definition exchangeDeclare :: method_sig where
  "exchangeDeclare = method_of 40 10 (UnlessBit 4) False
     [(''reserved1'', KShort), (''Exchange'', KShortstr), (''Type'', KShortstr), ('''', KBits [''Passive'',
      ''Durable'', ''AutoDelete'', ''Internal'', ''NoWait'']), (''Arguments'', KTable)]"

definition exchangeDeclareOk :: method_sig where
  "exchangeDeclareOk = method_of 40 11 Waits False []"

definition exchangeDelete :: method_sig where
  "exchangeDelete = method_of 40 20 (UnlessBit 1) False
     [(''reserved1'', KShort), (''Exchange'', KShortstr), ('''', KBits [''IfUnused'', ''NoWait''])]"

definition exchangeDeleteOk :: method_sig where
  "exchangeDeleteOk = method_of 40 21 Waits False []"

definition exchangeBind :: method_sig where
  "exchangeBind = method_of 40 30 (UnlessBit 0) False
     [(''reserved1'', KShort), (''Destination'', KShortstr), (''Source'', KShortstr), (''RoutingKey'',
      KShortstr), ('''', KBits [''NoWait'']), (''Arguments'', KTable)]"

definition exchangeBindOk :: method_sig where
  "exchangeBindOk = method_of 40 31 Waits False []"

definition exchangeUnbind :: method_sig where
  "exchangeUnbind = method_of 40 40 (UnlessBit 0) False
     [(''reserved1'', KShort), (''Destination'', KShortstr), (''Source'', KShortstr), (''RoutingKey'',
      KShortstr), ('''', KBits [''NoWait'']), (''Arguments'', KTable)]"

definition exchangeUnbindOk :: method_sig where
  "exchangeUnbindOk = method_of 40 51 Waits False []"

section \<open>Class queue\<close>

definition queueDeclare :: method_sig where
  "queueDeclare = method_of 50 10 (UnlessBit 4) False
     [(''reserved1'', KShort), (''Queue'', KShortstr), ('''', KBits [''Passive'', ''Durable'',
      ''Exclusive'', ''AutoDelete'', ''NoWait'']), (''Arguments'', KTable)]"

definition queueDeclareOk :: method_sig where
  "queueDeclareOk = method_of 50 11 Waits False
     [(''Queue'', KShortstr), (''MessageCount'', KLong), (''ConsumerCount'', KLong)]"

definition queueBind :: method_sig where
  "queueBind = method_of 50 20 (UnlessBit 0) False
     [(''reserved1'', KShort), (''Queue'', KShortstr), (''Exchange'', KShortstr), (''RoutingKey'',
      KShortstr), ('''', KBits [''NoWait'']), (''Arguments'', KTable)]"

definition queueBindOk :: method_sig where
  "queueBindOk = method_of 50 21 Waits False []"

definition queuePurge :: method_sig where
  "queuePurge = method_of 50 30 (UnlessBit 0) False
     [(''reserved1'', KShort), (''Queue'', KShortstr), ('''', KBits [''NoWait''])]"

definition queuePurgeOk :: method_sig where
  "queuePurgeOk = method_of 50 31 Waits False
     [(''MessageCount'', KLong)]"

definition queueDelete :: method_sig where
  "queueDelete = method_of 50 40 (UnlessBit 2) False
     [(''reserved1'', KShort), (''Queue'', KShortstr), ('''', KBits [''IfUnused'', ''IfEmpty'',
      ''NoWait''])]"

definition queueDeleteOk :: method_sig where
  "queueDeleteOk = method_of 50 41 Waits False
     [(''MessageCount'', KLong)]"

definition queueUnbind :: method_sig where
  "queueUnbind = method_of 50 50 Waits False
     [(''reserved1'', KShort), (''Queue'', KShortstr), (''Exchange'', KShortstr), (''RoutingKey'',
      KShortstr), (''Arguments'', KTable)]"

definition queueUnbindOk :: method_sig where
  "queueUnbindOk = method_of 50 51 Waits False []"

section \<open>Class basic\<close>

definition basicQos :: method_sig where
  "basicQos = method_of 60 10 Waits False
     [(''PrefetchSize'', KLong), (''PrefetchCount'', KShort), ('''', KBits [''Global''])]"

definition basicQosOk :: method_sig where
  "basicQosOk = method_of 60 11 Waits False []"

definition basicConsume :: method_sig where
  "basicConsume = method_of 60 20 (UnlessBit 3) False
     [(''reserved1'', KShort), (''Queue'', KShortstr), (''ConsumerTag'', KShortstr), ('''', KBits
      [''NoLocal'', ''NoAck'', ''Exclusive'', ''NoWait'']), (''Arguments'', KTable)]"

definition basicConsumeOk :: method_sig where
  "basicConsumeOk = method_of 60 21 Waits False
     [(''ConsumerTag'', KShortstr)]"

definition basicCancel :: method_sig where
  "basicCancel = method_of 60 30 (UnlessBit 0) False
     [(''ConsumerTag'', KShortstr), ('''', KBits [''NoWait''])]"

definition basicCancelOk :: method_sig where
  "basicCancelOk = method_of 60 31 Waits False
     [(''ConsumerTag'', KShortstr)]"

definition basicPublish :: method_sig where
  "basicPublish = method_of 60 40 NoReply True
     [(''reserved1'', KShort), (''Exchange'', KShortstr), (''RoutingKey'', KShortstr), ('''', KBits
      [''Mandatory'', ''Immediate''])]"

definition basicReturn :: method_sig where
  "basicReturn = method_of 60 50 NoReply True
     [(''ReplyCode'', KShort), (''ReplyText'', KShortstr), (''Exchange'', KShortstr), (''RoutingKey'',
      KShortstr)]"

definition basicDeliver :: method_sig where
  "basicDeliver = method_of 60 60 NoReply True
     [(''ConsumerTag'', KShortstr), (''DeliveryTag'', KLongLong), ('''', KBits [''Redelivered'']),
      (''Exchange'', KShortstr), (''RoutingKey'', KShortstr)]"

definition basicGet :: method_sig where
  "basicGet = method_of 60 70 Waits False
     [(''reserved1'', KShort), (''Queue'', KShortstr), ('''', KBits [''NoAck''])]"

definition basicGetOk :: method_sig where
  "basicGetOk = method_of 60 71 Waits True
     [(''DeliveryTag'', KLongLong), ('''', KBits [''Redelivered'']), (''Exchange'', KShortstr),
      (''RoutingKey'', KShortstr), (''MessageCount'', KLong)]"

definition basicGetEmpty :: method_sig where
  "basicGetEmpty = method_of 60 72 Waits False
     [(''reserved1'', KShortstr)]"

definition basicAck :: method_sig where
  "basicAck = method_of 60 80 NoReply False
     [(''DeliveryTag'', KLongLong), ('''', KBits [''Multiple''])]"

definition basicReject :: method_sig where
  "basicReject = method_of 60 90 NoReply False
     [(''DeliveryTag'', KLongLong), ('''', KBits [''Requeue''])]"

definition basicRecoverAsync :: method_sig where
  "basicRecoverAsync = method_of 60 100 NoReply False
     [('''', KBits [''Requeue''])]"

definition basicRecover :: method_sig where
  "basicRecover = method_of 60 110 Waits False
     [('''', KBits [''Requeue''])]"

definition basicRecoverOk :: method_sig where
  "basicRecoverOk = method_of 60 111 Waits False []"

definition basicNack :: method_sig where
  "basicNack = method_of 60 120 NoReply False
     [(''DeliveryTag'', KLongLong), ('''', KBits [''Multiple'', ''Requeue''])]"

section \<open>Class confirm\<close>

definition confirmSelect :: method_sig where
  "confirmSelect = method_of 85 10 Waits False
     [('''', KBits [''Nowait''])]"

definition confirmSelectOk :: method_sig where
  "confirmSelectOk = method_of 85 11 Waits False []"

section \<open>Class tx\<close>

definition txSelect :: method_sig where
  "txSelect = method_of 90 10 Waits False []"

definition txSelectOk :: method_sig where
  "txSelectOk = method_of 90 11 Waits False []"

definition txCommit :: method_sig where
  "txCommit = method_of 90 20 Waits False []"

definition txCommitOk :: method_sig where
  "txCommitOk = method_of 90 21 Waits False []"

definition txRollback :: method_sig where
  "txRollback = method_of 90 30 Waits False []"

definition txRollbackOk :: method_sig where
  "txRollbackOk = method_of 90 31 Waits False []"

section \<open>All of them\<close>

definition methods :: "method_sig list" where
  "methods =
     [connectionStart, connectionStartOk, connectionSecure, connectionSecureOk, connectionTune, connectionTuneOk,
      connectionOpen, connectionOpenOk, connectionClose, connectionCloseOk, connectionBlocked,
      connectionUnblocked,
      channelOpen, channelOpenOk, channelFlow, channelFlowOk, channelClose, channelCloseOk,
      exchangeDeclare, exchangeDeclareOk, exchangeDelete, exchangeDeleteOk, exchangeBind, exchangeBindOk,
      exchangeUnbind, exchangeUnbindOk,
      queueDeclare, queueDeclareOk, queueBind, queueBindOk, queuePurge, queuePurgeOk, queueDelete, queueDeleteOk,
      queueUnbind, queueUnbindOk,
      basicQos, basicQosOk, basicConsume, basicConsumeOk, basicCancel, basicCancelOk, basicPublish, basicReturn,
      basicDeliver, basicGet, basicGetOk, basicGetEmpty, basicAck, basicReject, basicRecoverAsync, basicRecover,
      basicRecoverOk, basicNack,
      txSelect, txSelectOk, txCommit, txCommitOk, txRollback, txRollbackOk,
      confirmSelect, confirmSelectOk]"

lemmas method_sig_defs =
  connectionStart_def connectionStartOk_def connectionSecure_def connectionSecureOk_def connectionTune_def
  connectionTuneOk_def connectionOpen_def connectionOpenOk_def connectionClose_def connectionCloseOk_def
  connectionBlocked_def connectionUnblocked_def channelOpen_def channelOpenOk_def channelFlow_def
  channelFlowOk_def channelClose_def channelCloseOk_def exchangeDeclare_def exchangeDeclareOk_def
  exchangeDelete_def exchangeDeleteOk_def exchangeBind_def exchangeBindOk_def exchangeUnbind_def
  exchangeUnbindOk_def queueDeclare_def queueDeclareOk_def queueBind_def queueBindOk_def queuePurge_def
  queuePurgeOk_def queueDelete_def queueDeleteOk_def queueUnbind_def queueUnbindOk_def basicQos_def
  basicQosOk_def basicConsume_def basicConsumeOk_def basicCancel_def basicCancelOk_def basicPublish_def
  basicReturn_def basicDeliver_def basicGet_def basicGetOk_def basicGetEmpty_def basicAck_def basicReject_def
  basicRecoverAsync_def basicRecover_def basicRecoverOk_def basicNack_def confirmSelect_def confirmSelectOk_def
  txSelect_def txSelectOk_def txCommit_def txCommitOk_def txRollback_def txRollbackOk_def

lemma methods_distinct: "distinct (map (\<lambda>s. (ms_class s, ms_method s)) methods)"
  by code_simp

lemma methods_wf: "s \<in> set methods \<Longrightarrow> ms_class s < 2 ^ 16 \<and> ms_method s < 2 ^ 16 \<and> list_all (\<lambda>(_, k). \<forall>ns. k = KBits ns \<longrightarrow> length ns \<le> 8) (ms_args s)"
  by (auto simp: methods_def method_sig_defs)

end
