(* ===== verification/Amqp_Frame.thy ===== *)
theory Amqp_Frame
  imports Amqp_Methods
begin

text \<open>
  Frames: \<^verbatim>\<open>read.go\<close>, \<^verbatim>\<open>write.go\<close> and the frame types of \<^verbatim>\<open>types.go\<close> of \<^verbatim>\<open>streadway/amqp\<close>, with the dispatch on the
  number of a method in \<^verbatim>\<open>spec091.go\<close>.
\<close>

unbundle bit_operations_syntax

section \<open>Methods\<close>

datatype arg =
    AOctet "8 word"
  | AShort "16 word"
  | ALong "32 word"
  | ALongLong "64 word"
  | AShortstr string
  | ALongstr string
  | ATable table
  | ABits "bool list"

fun write_arg :: "arg \<Rightarrow> error + bytes" where
  "write_arg (AOctet v) = Inr (put 1 v)"
| "write_arg (AShort v) = Inr (put 2 v)"
| "write_arg (ALong v) = Inr (put 4 v)"
| "write_arg (ALongLong v) = Inr (put 8 v)"
| "write_arg (AShortstr s) = Inr (writeShortstr s)"
| "write_arg (ALongstr s) = Inr (writeLongstr s)"
| "write_arg (ATable t) = writeTable t"
| "write_arg (ABits bs) = Inr (be 1 (horner_sum of_bool 2 bs))"

fun write_args :: "arg list \<Rightarrow> error + bytes" where
  "write_args [] = Inr []"
| "write_args (a # as) = cat (write_arg a) (write_args as)"

fun read_arg :: "kind \<Rightarrow> bytes \<Rightarrow> arg res \<times> bytes" where
  "read_arg KOctet bs = andThen (get 1 bs) (\<lambda>v bs. (Ok (AOctet v), bs))"
| "read_arg KShort bs = andThen (get 2 bs) (\<lambda>v bs. (Ok (AShort v), bs))"
| "read_arg KLong bs = andThen (get 4 bs) (\<lambda>v bs. (Ok (ALong v), bs))"
| "read_arg KLongLong bs = andThen (get 8 bs) (\<lambda>v bs. (Ok (ALongLong v), bs))"
| "read_arg KShortstr bs = andThen (readShortstr bs) (\<lambda>v bs. (Ok (AShortstr v), bs))"
| "read_arg KLongstr bs = andThen (readLongstr bs) (\<lambda>v bs. (Ok (ALongstr v), bs))"
| "read_arg KTable bs = andThen (readTable bs) (\<lambda>v bs. (Ok (ATable v), bs))"
| "read_arg (KBits ns) bs = andThen (read_be 1 bs) (\<lambda>v bs. (Ok (ABits (map (bit v) [0..<length ns])), bs))"

fun read_args :: "(string \<times> kind) list \<Rightarrow> bytes \<Rightarrow> arg list res \<times> bytes" where
  "read_args [] bs = (Ok [], bs)"
| "read_args ((_, k) # ks) bs = andThen (read_arg k bs) (\<lambda>a bs. andThen (read_args ks bs) (\<lambda>as bs. (Ok (a # as), bs)))"

section \<open>Content\<close>

record properties =
  pr_ContentType :: string
  pr_ContentEncoding :: string
  pr_Headers :: table
  pr_DeliveryMode :: "8 word"
  pr_Priority :: "8 word"
  pr_CorrelationId :: string
  pr_ReplyTo :: string
  pr_Expiration :: string
  pr_MessageId :: string
  pr_Timestamp :: gotime
  pr_Type :: string
  pr_UserId :: string
  pr_AppId :: string
  pr_reserved1 :: string

definition no_properties :: properties where
  "no_properties = \<lparr>pr_ContentType = [], pr_ContentEncoding = [], pr_Headers = [], pr_DeliveryMode = 0, pr_Priority = 0,
     pr_CorrelationId = [], pr_ReplyTo = [], pr_Expiration = [], pr_MessageId = [], pr_Timestamp = ZeroTime, pr_Type = [],
     pr_UserId = [], pr_AppId = [], pr_reserved1 = []\<rparr>"

definition flagContentType :: "16 word" where "flagContentType = 0x8000"
definition flagContentEncoding :: "16 word" where "flagContentEncoding = 0x4000"
definition flagHeaders :: "16 word" where "flagHeaders = 0x2000"
definition flagDeliveryMode :: "16 word" where "flagDeliveryMode = 0x1000"
definition flagPriority :: "16 word" where "flagPriority = 0x0800"
definition flagCorrelationId :: "16 word" where "flagCorrelationId = 0x0400"
definition flagReplyTo :: "16 word" where "flagReplyTo = 0x0200"
definition flagExpiration :: "16 word" where "flagExpiration = 0x0100"
definition flagMessageId :: "16 word" where "flagMessageId = 0x0080"
definition flagTimestamp :: "16 word" where "flagTimestamp = 0x0040"
definition flagType :: "16 word" where "flagType = 0x0020"
definition flagUserId :: "16 word" where "flagUserId = 0x0010"
definition flagAppId :: "16 word" where "flagAppId = 0x0008"
definition flagReserved1 :: "16 word" where "flagReserved1 = 0x0004"

lemmas flag_defs = flagContentType_def flagContentEncoding_def flagHeaders_def flagDeliveryMode_def flagPriority_def
  flagCorrelationId_def flagReplyTo_def flagExpiration_def flagMessageId_def flagTimestamp_def flagType_def
  flagUserId_def flagAppId_def flagReserved1_def

definition hasProperty :: "16 word \<Rightarrow> 16 word \<Rightarrow> bool" where
  "hasProperty flags prop \<longleftrightarrow> flags AND prop \<noteq> 0"

text \<open>A message of some type; properties and body are part of the struct if the type carries content.\<close>

record message =
  mg_type :: method_sig
  mg_args :: "arg list"
  mg_props :: properties
  mg_body :: bytes

fun flags_of :: "arg list \<Rightarrow> bool list" where
  "flags_of [] = []"
| "flags_of (ABits bs # as) = bs"
| "flags_of (a # as) = flags_of as"

definition message_wait :: "message \<Rightarrow> bool" where
  "message_wait m =
     (case ms_wait (mg_type m) of
        Waits \<Rightarrow> True
      | NoReply \<Rightarrow> False
      | UnlessBit i \<Rightarrow> (let bs = flags_of (mg_args m) in \<not> (i < length bs \<and> bs ! i)))"

datatype amqp_frame =
    MethodFrame "16 word" "16 word" "16 word" "message option"
  | HeaderFrame "16 word" "16 word" "16 word" "64 word" properties
  | BodyFrame "16 word" bytes
  | HeartbeatFrame "16 word"
  | ProtocolHeader

text \<open>\<^verbatim>\<open>channel()\<close>; it panics for the protocol header.\<close>

fun frame_channel :: "amqp_frame \<Rightarrow> 16 word res" where
  "frame_channel (MethodFrame c _ _ _) = Ok c"
| "frame_channel (HeaderFrame c _ _ _ _) = Ok c"
| "frame_channel (BodyFrame c _) = Ok c"
| "frame_channel (HeartbeatFrame c) = Ok c"
| "frame_channel ProtocolHeader = Panic ''only valid as initial handshake''"

section \<open>Writing\<close>

definition frameMethod :: nat where "frameMethod = 1"
definition frameHeader :: nat where "frameHeader = 2"
definition frameBody :: nat where "frameBody = 3"
definition frameHeartbeat :: nat where "frameHeartbeat = 8"
definition frameEnd :: nat where "frameEnd = 206"

lemmas frame_type_defs = frameMethod_def frameHeader_def frameBody_def frameHeartbeat_def

definition writeFrame :: "nat \<Rightarrow> 16 word \<Rightarrow> bytes \<Rightarrow> bytes" where
  "writeFrame t channel payload = be 1 t @ put 2 channel @ be 4 (length payload mod 2 ^ 32) @ payload @ be 1 frameEnd"

definition prop_mask :: "properties \<Rightarrow> 16 word" where
  "prop_mask p =
     (if pr_ContentType p \<noteq> [] then flagContentType else 0) OR
     (if pr_ContentEncoding p \<noteq> [] then flagContentEncoding else 0) OR
     (if pr_Headers p \<noteq> [] then flagHeaders else 0) OR
     (if pr_DeliveryMode p > 0 then flagDeliveryMode else 0) OR
     (if pr_Priority p > 0 then flagPriority else 0) OR
     (if pr_CorrelationId p \<noteq> [] then flagCorrelationId else 0) OR
     (if pr_ReplyTo p \<noteq> [] then flagReplyTo else 0) OR
     (if pr_Expiration p \<noteq> [] then flagExpiration else 0) OR
     (if pr_MessageId p \<noteq> [] then flagMessageId else 0) OR
     (if pr_Timestamp p \<noteq> ZeroTime then flagTimestamp else 0) OR
     (if pr_Type p \<noteq> [] then flagType else 0) OR
     (if pr_UserId p \<noteq> [] then flagUserId else 0) OR
     (if pr_AppId p \<noteq> [] then flagAppId else 0)"

definition write_if :: "bool \<Rightarrow> error + bytes \<Rightarrow> error + bytes" where
  "write_if c w = (if c then w else Inr [])"

definition write_properties :: "properties \<Rightarrow> error + bytes" where
  "write_properties p =
     (let flags = prop_mask p in
      cat (Inr (put 2 flags))
     (cat (write_if (hasProperty flags flagContentType) (Inr (writeShortstr (pr_ContentType p))))
     (cat (write_if (hasProperty flags flagContentEncoding) (Inr (writeShortstr (pr_ContentEncoding p))))
     (cat (write_if (hasProperty flags flagHeaders) (writeTable (pr_Headers p)))
     (cat (write_if (hasProperty flags flagDeliveryMode) (Inr (put 1 (pr_DeliveryMode p))))
     (cat (write_if (hasProperty flags flagPriority) (Inr (put 1 (pr_Priority p))))
     (cat (write_if (hasProperty flags flagCorrelationId) (Inr (writeShortstr (pr_CorrelationId p))))
     (cat (write_if (hasProperty flags flagReplyTo) (Inr (writeShortstr (pr_ReplyTo p))))
     (cat (write_if (hasProperty flags flagExpiration) (Inr (writeShortstr (pr_Expiration p))))
     (cat (write_if (hasProperty flags flagMessageId) (Inr (writeShortstr (pr_MessageId p))))
     (cat (write_if (hasProperty flags flagTimestamp) (Inr (put 8 (Unix (pr_Timestamp p)))))
     (cat (write_if (hasProperty flags flagType) (Inr (writeShortstr (pr_Type p))))
     (cat (write_if (hasProperty flags flagUserId) (Inr (writeShortstr (pr_UserId p))))
          (write_if (hasProperty flags flagAppId) (Inr (writeShortstr (pr_AppId p)))))))))))))))))"

text \<open>The payload is complete before anything of a frame is written.\<close>

fun frame_write :: "amqp_frame \<Rightarrow> error + bytes" where
  "frame_write (MethodFrame ch _ _ None) = Inl (Errorf ''malformed frame: missing method'')"
| "frame_write (MethodFrame ch _ _ (Some m)) =
     (case cat (Inr (be 2 (ms_class (mg_type m)) @ be 2 (ms_method (mg_type m)))) (write_args (mg_args m)) of
        Inl e \<Rightarrow> Inl e
      | Inr payload \<Rightarrow> Inr (writeFrame frameMethod ch payload))"
| "frame_write (HeaderFrame ch cls weight sz p) =
     (case cat (Inr (put 2 cls @ put 2 weight @ put 8 sz)) (write_properties p) of
        Inl e \<Rightarrow> Inl e
      | Inr payload \<Rightarrow> Inr (writeFrame frameHeader ch payload))"
| "frame_write (BodyFrame ch body) = Inr (writeFrame frameBody ch body)"
| "frame_write (HeartbeatFrame ch) = Inr (writeFrame frameHeartbeat ch [])"
| "frame_write ProtocolHeader = Inr (''AMQP'' @ [CHR 0x00, CHR 0x00, CHR 0x09, CHR 0x01])"

section \<open>Reading\<close>

definition ErrFrame :: error where "ErrFrame = Errorf ''frame could not be parsed''"
definition errHeartbeatPayload :: error where "errHeartbeatPayload = Errorf ''Heartbeats should not have a payload''"

definition find_method :: "16 word \<Rightarrow> 16 word \<Rightarrow> method_sig option" where
  "find_method c m = find (\<lambda>s. ms_class s = unat c \<and> ms_method s = unat m) methods"

definition parseMethodFrame :: "16 word \<Rightarrow> bytes \<Rightarrow> amqp_frame res \<times> bytes" where
  "parseMethodFrame channel bs =
     andThen (get 2 bs) (\<lambda>c bs.
     andThen (get 2 bs) (\<lambda>m bs.
       (case find_method c m of
          None \<Rightarrow> (Fail (Errorf ''Bad method frame''), bs)
        | Some s \<Rightarrow>
            andThen (read_args (ms_args s) bs) (\<lambda>as bs.
              (Ok (MethodFrame channel c m (Some \<lparr>mg_type = s, mg_args = as, mg_props = no_properties, mg_body = []\<rparr>)), bs)))))"

definition read_if ::
  "bool \<Rightarrow> (bytes \<Rightarrow> 'a res \<times> bytes) \<Rightarrow> ('a \<Rightarrow> properties \<Rightarrow> properties) \<Rightarrow> properties \<Rightarrow> bytes \<Rightarrow> properties res \<times> bytes" where
  "read_if c rd upd p bs = (if c then andThen (rd bs) (\<lambda>v bs. (Ok (upd v p), bs)) else (Ok p, bs))"

definition read_properties :: "bytes \<Rightarrow> properties res \<times> bytes" where
  "read_properties bs =
     andThen (get 2 bs) (\<lambda>flags bs.
     andThen (read_if (hasProperty flags flagContentType) readShortstr (\<lambda>v p. p\<lparr>pr_ContentType := v\<rparr>) no_properties bs) (\<lambda>p bs.
     andThen (read_if (hasProperty flags flagContentEncoding) readShortstr (\<lambda>v p. p\<lparr>pr_ContentEncoding := v\<rparr>) p bs) (\<lambda>p bs.
     andThen (read_if (hasProperty flags flagHeaders) readTable (\<lambda>v p. p\<lparr>pr_Headers := v\<rparr>) p bs) (\<lambda>p bs.
     andThen (read_if (hasProperty flags flagDeliveryMode) (get 1) (\<lambda>v p. p\<lparr>pr_DeliveryMode := v\<rparr>) p bs) (\<lambda>p bs.
     andThen (read_if (hasProperty flags flagPriority) (get 1) (\<lambda>v p. p\<lparr>pr_Priority := v\<rparr>) p bs) (\<lambda>p bs.
     andThen (read_if (hasProperty flags flagCorrelationId) readShortstr (\<lambda>v p. p\<lparr>pr_CorrelationId := v\<rparr>) p bs) (\<lambda>p bs.
     andThen (read_if (hasProperty flags flagReplyTo) readShortstr (\<lambda>v p. p\<lparr>pr_ReplyTo := v\<rparr>) p bs) (\<lambda>p bs.
     andThen (read_if (hasProperty flags flagExpiration) readShortstr (\<lambda>v p. p\<lparr>pr_Expiration := v\<rparr>) p bs) (\<lambda>p bs.
     andThen (read_if (hasProperty flags flagMessageId) readShortstr (\<lambda>v p. p\<lparr>pr_MessageId := v\<rparr>) p bs) (\<lambda>p bs.
     andThen (read_if (hasProperty flags flagTimestamp) readTimestamp (\<lambda>v p. p\<lparr>pr_Timestamp := v\<rparr>) p bs) (\<lambda>p bs.
     andThen (read_if (hasProperty flags flagType) readShortstr (\<lambda>v p. p\<lparr>pr_Type := v\<rparr>) p bs) (\<lambda>p bs.
     andThen (read_if (hasProperty flags flagUserId) readShortstr (\<lambda>v p. p\<lparr>pr_UserId := v\<rparr>) p bs) (\<lambda>p bs.
     andThen (read_if (hasProperty flags flagAppId) readShortstr (\<lambda>v p. p\<lparr>pr_AppId := v\<rparr>) p bs) (\<lambda>p bs.
       read_if (hasProperty flags flagReserved1) readShortstr (\<lambda>v p. p\<lparr>pr_reserved1 := v\<rparr>) p bs))))))))))))))"

definition parseHeaderFrame :: "16 word \<Rightarrow> bytes \<Rightarrow> amqp_frame res \<times> bytes" where
  "parseHeaderFrame channel bs =
     andThen (get 2 bs) (\<lambda>cls bs.
     andThen (get 2 bs) (\<lambda>weight bs.
     andThen (get 8 bs) (\<lambda>sz bs.
     andThen (read_properties bs) (\<lambda>p bs. (Ok (HeaderFrame channel cls weight sz p), bs)))))"

definition parseBodyFrame :: "16 word \<Rightarrow> nat \<Rightarrow> bytes \<Rightarrow> amqp_frame res \<times> bytes" where
  "parseBodyFrame channel sz bs = andThen (read_full sz bs) (\<lambda>b bs. (Ok (BodyFrame channel b), bs))"

definition parseHeartbeatFrame :: "16 word \<Rightarrow> nat \<Rightarrow> bytes \<Rightarrow> amqp_frame res \<times> bytes" where
  "parseHeartbeatFrame channel sz bs = (if sz > 0 then (Fail errHeartbeatPayload, bs) else (Ok (HeartbeatFrame channel), bs))"

text \<open>Method and header frames are read field by field; the size in the frame is not looked at.\<close>

definition ReadFrame :: "bytes \<Rightarrow> amqp_frame res \<times> bytes" where
  "ReadFrame bs =
     andThen (read_full 7 bs) (\<lambda>scratch bs.
       let t = be_nat (take 1 scratch); channel = word_of_nat (be_nat (take 2 (drop 1 scratch))); sz = be_nat (drop 3 scratch) in
       andThen
         (if t = frameMethod then parseMethodFrame channel bs
          else if t = frameHeader then parseHeaderFrame channel bs
          else if t = frameBody then parseBodyFrame channel sz bs
          else if t = frameHeartbeat then parseHeartbeatFrame channel sz bs
          else (Fail ErrFrame, bs)) (\<lambda>f bs.
       andThen (read_be 1 bs) (\<lambda>e bs. if e \<noteq> frameEnd then (Fail ErrFrame, bs) else (Ok f, bs))))"

end
