(* ===== verification/Amqp_Codec_Correct.thy ===== *)
theory Amqp_Codec_Correct
  imports Amqp_Codec
begin

text \<open>
  The codec of tables: reading takes bytes and never makes any, so its loops end; what is written is read back; a
  table that validates is a table that can be written.
\<close>

section \<open>The loops end\<close>

lemma read_scalar_rest: "length (snd (read_scalar typ bs)) \<le> length bs"
proof -
  have "eats (read_scalar typ bs) bs"
    unfolding read_scalar_def readDecimal_def readTimestamp_def read_blob_def
    by (simp add: eats_seq)
  then show ?thesis by (simp add: eats_def)
qed

lemma read_rest:
  "length (snd (readField bs)) \<le> length bs \<and> (\<forall>f r. readField bs = (Ok f, r) \<longrightarrow> length r < length bs)"
  "length (snd (readArray_loop lim)) \<le> length lim"
  "length (snd (readTable_loop nested tab)) \<le> length nested"
proof (induction bs and lim and nested tab rule: readField_readArray_loop_readTable_loop.induct)
  case (1 bs)
  have "length (snd (readField bs)) < length bs" if t: "read_full 1 bs = (Ok ty, b1)" for ty b1
  proof -
    have "eats (case readArray_loop (take n b2) of (Ok vs, left) \<Rightarrow> (Ok (FArray vs), left @ drop n b2)
        | (Fail e, left) \<Rightarrow> (Fail e, left @ drop n b2) | (Panic p, left) \<Rightarrow> (Panic p, left @ drop n b2)) b1"
      if "ty = ''A''" "read_be 4 b1 = (Ok n, b2)" for n b2
      using "1.IH"(1) [OF t that] read_be_Ok [OF that(2)] by (auto simp: min_def split: prod.split res.split if_splits)
    moreover have "eats (case readTable_loop str [] of (Ok t, _) \<Rightarrow> (Ok (FTable t), b2)
        | (Fail e, _) \<Rightarrow> (Fail e, b2) | (Panic p, _) \<Rightarrow> (Panic p, b2)) b2" for str b2
      by (simp split: prod.split res.split)
    ultimately have "eats (readField bs) b1"
      using read_scalar_rest [of ty b1] unfolding readField.simps [of bs] t andThen_simps
      by (auto simp: eats_def [of "read_scalar ty b1"] intro!: eats_andThen [of "read_be 4 b1"] eats_seq [of "readLongstr b1"])
    then show ?thesis using t by (auto simp: eats_def read_full_Ok)
  qed
  moreover have "length (snd (readField bs)) \<le> length bs \<and> (\<forall>f r. readField bs \<noteq> (Ok f, r))" if "\<nexists>ty b1. read_full 1 bs = (Ok ty, b1)"
    using that unfolding readField.simps [of bs] by (auto simp: read_full_def)
  ultimately show ?case by (metis less_imp_le snd_conv)
next
  case (2 lim)
  then show ?case
    unfolding readArray_loop.simps [of lim]
    by (auto simp: andThen_def on_def split: prod.split res.split)
next
  case (3 nested tab)
  have f: "eats (readField n1) nested" if "nested \<noteq> []" "readShortstr nested = (Ok k, n1)" for k n1
    using "3.IH"(1) [OF that] readShortstr_Ok [OF that(2)] by (simp add: eats_def)
  have v: "length n2 \<le> length nested" if "nested \<noteq> []" "readShortstr nested = (Ok k, n1)" "readField n1 = (Ok v, n2)" for k n1 v n2
    using f [OF that(1,2)] that(3) by simp
  have t: "eats (readTable_loop n2 (gm_set k v tab)) nested = True"
    if "nested \<noteq> []" "readShortstr nested = (Ok k, n1)" "readField n1 = (Ok v, n2)" "length n2 < length nested" for k n1 v n2
    using "3.IH"(2) [OF that] that(4) by (simp add: eats_def)
  have "eats (readTable_loop nested tab) nested"
    unfolding readTable_loop.simps [of nested] by (auto intro!: eats_andThen f simp: t) (use v in \<open>metis le_antisym not_le\<close>)
  then show ?case by (simp add: eats_def)
qed

text \<open>The equations of the source: the tests that were added for termination hold.\<close>

lemma read_loops:
  "readArray_loop lim =
     (case readField lim of
        (Ok field, lim') \<Rightarrow> andThen (readArray_loop lim') (\<lambda>arr left. (Ok (field # arr), left))
      | (Fail e, lim') \<Rightarrow> if e = EOF then (Ok [], lim') else (Fail e, lim')
      | (Panic p, lim') \<Rightarrow> (Panic p, lim'))"
  "readTable_loop nested tab =
     (if nested = [] then (Ok tab, [])
      else andThen (readShortstr nested) (\<lambda>key n1.
        andThen (readField n1) (\<lambda>value n2. readTable_loop n2 (gm_set key value tab))))"
proof -
  show "readArray_loop lim =
     (case readField lim of
        (Ok field, lim') \<Rightarrow> andThen (readArray_loop lim') (\<lambda>arr left. (Ok (field # arr), left))
      | (Fail e, lim') \<Rightarrow> if e = EOF then (Ok [], lim') else (Fail e, lim')
      | (Panic p, lim') \<Rightarrow> (Panic p, lim'))"
    by (subst readArray_loop.simps) (use read_rest(1) [of lim] in \<open>auto split: prod.split res.split\<close>)
  have "length n2 < length nested" if "readShortstr nested = (Ok k, n1)" "readField n1 = (Ok v, n2)" for k n1 v n2
    using readShortstr_Ok [OF that(1)] read_rest(1) [of n1] that(2) by auto
  then show "readTable_loop nested tab =
     (if nested = [] then (Ok tab, [])
      else andThen (readShortstr nested) (\<lambda>key n1.
        andThen (readField n1) (\<lambda>value n2. readTable_loop n2 (gm_set key value tab))))"
    by (subst readTable_loop.simps) (auto intro!: andThen_cong)
qed

section \<open>What is written is read back\<close>

text \<open>
  The values the wire can carry: lengths fit their width (a byte field's is read as a signed integer), a key has at
  most 255 bytes, keys of a table are distinct, times are whole seconds. Everything else is written, and read
  back as something else or not at all.
\<close>

fun field_ok :: "field \<Rightarrow> bool" and fields_ok :: "field list \<Rightarrow> bool" and entries_ok :: "table \<Rightarrow> bool" where
  "field_ok (FString v) = (length v < 2 ^ 32)"
| "field_ok (FBytes v) = (length v < 2 ^ 31)"
| "field_ok (FTime t) = (case t of UnixTime _ n \<Rightarrow> n = 0 | ZeroTime \<Rightarrow> False)"
| "field_ok (FArray v) = (fields_ok v \<and> (case writeFields v of Inr b \<Rightarrow> length b < 2 ^ 32 | Inl _ \<Rightarrow> False))"
| "field_ok (FTable t) = (entries_ok t \<and> gm_ok t \<and> (case writeEntries t of Inr b \<Rightarrow> length b < 2 ^ 32 | Inl _ \<Rightarrow> False))"
| "field_ok FOther = False"
| "field_ok _ = True"
| "fields_ok [] = True"
| "fields_ok (v # vs) = (field_ok v \<and> fields_ok vs)"
| "entries_ok [] = True"
| "entries_ok ((k, v) # t) = (length k < 256 \<and> field_ok v \<and> entries_ok t)"

lemma gm_set_new: "k \<notin> fst ` set t \<Longrightarrow> gm_set k v t = t @ [(k, v)]"
  by (induction k v t rule: gm_set.induct) auto

lemma get_be32: "v < 2 ^ 32 \<Longrightarrow> get 4 (be 4 v @ r) = (Ok (word_of_nat v :: 32 word), r)"
  by (simp add: get_def)

lemma readField_empty [simp]: "readField [] = (Fail EOF, [])"
  by (simp add: readField.simps read_full_def)

lemma readField_scalar:
  "c \<noteq> CHR ''A'' \<Longrightarrow> c \<noteq> CHR ''F'' \<Longrightarrow> readField (c # bs) = read_scalar [c] bs"
  by (simp add: readField.simps read_full_def)

lemma readField_blob:
  assumes "length v < 2 ^ 31"
  shows "readField (CHR ''x'' # be 4 (length v) @ v @ r) = (Ok (FBytes v), r)"
proof -
  have u: "unat (word_of_nat (length v) :: 32 word) = length v" using assms by (simp add: unat_of_nat)
  then have "\<not> sint (word_of_nat (length v) :: 32 word) < 0"
    using assms by (simp add: sint_uint signed_take_bit_int_eq_self uint_nat)
  then show ?thesis by (simp add: readField_scalar read_scalar_def read_blob_def get_be32 u assms [THEN order_less_trans])
qed

lemma writeField_ne: "writeField f = Inr b \<Longrightarrow> b \<noteq> []"
  by (cases f) (auto split: sum.splits)

lemma codec_round_trip:
  "field_ok f \<Longrightarrow> writeField f = Inr b \<Longrightarrow> readField (b @ r) = (Ok f, r)"
  "fields_ok fs \<Longrightarrow> writeFields fs = Inr b \<Longrightarrow> readArray_loop b = (Ok fs, [])"
  "entries_ok t \<Longrightarrow> gm_ok (tab @ t) \<Longrightarrow> writeEntries t = Inr b \<Longrightarrow> readTable_loop b tab = (Ok (tab @ t), [])"
proof (induction f and fs and t arbitrary: b r and b and b tab rule: writeField_writeFields_writeEntries.induct)
  case (10 v)
  then obtain sec where "writeFields v = Inr sec" "length sec < 2 ^ 32" "b = ''A'' @ be 4 (length sec) @ sec"
    by (auto split: sum.splits)
  then show ?case using 10 by (simp add: readField.simps read_full_def)
next
  case (12 v)
  then obtain buf where "writeEntries v = Inr buf" "length buf < 2 ^ 32" "b = ''F'' @ writeLongstr buf"
    by (auto split: sum.splits)
  then show ?case using 12 by (simp add: readField.simps read_full_def)
next
  case (13 v)
  then show ?case using readField_blob [of v r] by auto
next
  case 16
  then show ?case by (subst read_loops(1)) simp
next
  case (17 v vs)
  then obtain x y where "writeField v = Inr x" "writeFields vs = Inr y" "b = x @ y" by auto
  then show ?case using 17 by (subst read_loops(1)) simp
next
  case 18
  then show ?case by (subst read_loops(2)) simp
next
  case (19 k v t)
  then obtain x y where xy: "writeField v = Inr x" "writeEntries t = Inr y" "b = writeShortstr k @ x @ y" by auto
  moreover have "gm_set k v tab = tab @ [(k, v)]" using "19.prems"(2) by (intro gm_set_new) auto
  moreover have "b \<noteq> []" using writeField_ne [OF xy(1)] xy(3) by simp
  ultimately show ?case using 19 by (subst read_loops(2)) simp
qed (auto simp: readField_scalar read_scalar_def readDecimal_def readTimestamp_def readLongstr_def split: gotime.splits)

text \<open>Validation and writing agree, for any table and whatever the lengths.\<close>

lemma validate_iff:
  "validateField f = None \<longleftrightarrow> (\<exists>b. writeField f = Inr b)"
  "validate_array fs = None \<longleftrightarrow> (\<exists>b. writeFields fs = Inr b)"
  "validate_table t = None \<longleftrightarrow> (\<exists>b. writeEntries t = Inr b)"
proof (induction f and fs and t rule: writeField_writeFields_writeEntries.induct)
  case (17 v vs)
  then show ?case by (cases "validateField v") auto
next
  case (19 k v t)
  then show ?case by (cases "validateField v") auto
qed (auto split: sum.splits)

end
