(* ===== verification/Amqp_Frame_Correct.thy ===== *)
theory Amqp_Frame_Correct
  imports Amqp_Frame Amqp_Codec_Correct
begin

text \<open>
  Every frame the client writes is read back by the same library: all methods of the protocol, content headers with
  any choice of properties, bodies and heartbeats, whatever follows on the connection.
\<close>

section \<open>Methods\<close>

definition wire_table_ok :: "table \<Rightarrow> bool" where
  "wire_table_ok t \<longleftrightarrow> field_ok (FTable t)"

lemma readTable_write:
  assumes "wire_table_ok t" and "writeTable t = Inr b"
  shows "readTable (b @ r) = (Ok t, r)"
proof -
  obtain buf where buf: "writeEntries t = Inr buf" "length buf < 2 ^ 32" "b = writeLongstr buf" "entries_ok t" "gm_ok t"
    using assms by (auto simp: writeTable_def wire_table_ok_def split: sum.splits)
  have "readTable_loop buf [] = (Ok ([] @ t), [])" using buf codec_round_trip(3) [of t "[]" buf] by simp
  then show ?thesis using buf by (simp add: readTable_def)
qed

fun arg_ok :: "kind \<Rightarrow> arg \<Rightarrow> bool" where
  "arg_ok KOctet (AOctet _) = True"
| "arg_ok KShort (AShort _) = True"
| "arg_ok KLong (ALong _) = True"
| "arg_ok KLongLong (ALongLong _) = True"
| "arg_ok KShortstr (AShortstr s) = (length s < 256)"
| "arg_ok KLongstr (ALongstr s) = (length s < 2 ^ 32)"
| "arg_ok KTable (ATable t) = wire_table_ok t"
| "arg_ok (KBits ns) (ABits bs) = (length bs = length ns \<and> length ns \<le> 8)"
| "arg_ok _ _ = False"

fun args_ok :: "(string \<times> kind) list \<Rightarrow> arg list \<Rightarrow> bool" where
  "args_ok [] [] = True"
| "args_ok ((_, k) # ks) (a # as) = (arg_ok k a \<and> args_ok ks as)"
| "args_ok _ _ = False"

lemma bits_octet:
  assumes "length bs \<le> 8"
  shows "(horner_sum of_bool 2 bs :: nat) < 256"
proof -
  have "(horner_sum of_bool 2 bs :: nat) < 2 ^ length bs" by (induction bs) auto
  also have "\<dots> \<le> 2 ^ 8" by (rule power_increasing) (use assms in auto)
  finally show ?thesis by simp
qed

lemma read_bits: "length ns = length bs \<Longrightarrow> map (bit (horner_sum of_bool 2 bs :: nat)) [0..<length ns] = bs"
  by (auto intro!: nth_equalityI simp: bit_horner_sum_bit_iff)

lemma read_arg_write: "arg_ok k a \<Longrightarrow> write_arg a = Inr b \<Longrightarrow> read_arg k (b @ r) = (Ok a, r)"
  by (induction k a rule: arg_ok.induct)
    (auto simp: readTable_write bits_octet read_bits intro: readTable_write)

lemma read_args_write: "args_ok ks as \<Longrightarrow> write_args as = Inr b \<Longrightarrow> read_args ks (b @ r) = (Ok as, r)"
  by (induction ks as arbitrary: b rule: args_ok.induct) (auto simp: read_arg_write)

lemma find_method_own:
  assumes "s \<in> set methods"
  shows "find_method (word_of_nat (ms_class s)) (word_of_nat (ms_method s)) = Some s"
proof -
  have u: "unat (word_of_nat (ms_class s) :: 16 word) = ms_class s" "unat (word_of_nat (ms_method s) :: 16 word) = ms_method s"
    using methods_wf [OF assms] by (simp_all add: unat_of_nat)
  have "find (\<lambda>x. ms_class x = ms_class s \<and> ms_method x = ms_method s) ms = Some s"
    if "s \<in> set ms" "distinct (map (\<lambda>s. (ms_class s, ms_method s)) ms)" for ms :: "method_sig list"
    using that by (induction ms) force+
  then show ?thesis using assms methods_distinct by (simp add: find_method_def u)
qed

section \<open>Properties\<close>

lemma hasProperty_simps:
  "hasProperty (a OR b) f \<longleftrightarrow> hasProperty a f \<or> hasProperty b f"
  "hasProperty (if c then a else 0) f \<longleftrightarrow> c \<and> hasProperty a f"
  by (auto simp: hasProperty_def bit.conj_disj_distrib2 or_eq_0_iff)

text \<open>The flags are different bits, so the mask says which properties are there.\<close>

lemma flag_mask:
  "hasProperty (prop_mask p) flagContentType \<longleftrightarrow> pr_ContentType p \<noteq> []"
  "hasProperty (prop_mask p) flagContentEncoding \<longleftrightarrow> pr_ContentEncoding p \<noteq> []"
  "hasProperty (prop_mask p) flagHeaders \<longleftrightarrow> pr_Headers p \<noteq> []"
  "hasProperty (prop_mask p) flagDeliveryMode \<longleftrightarrow> pr_DeliveryMode p \<noteq> 0"
  "hasProperty (prop_mask p) flagPriority \<longleftrightarrow> pr_Priority p \<noteq> 0"
  "hasProperty (prop_mask p) flagCorrelationId \<longleftrightarrow> pr_CorrelationId p \<noteq> []"
  "hasProperty (prop_mask p) flagReplyTo \<longleftrightarrow> pr_ReplyTo p \<noteq> []"
  "hasProperty (prop_mask p) flagExpiration \<longleftrightarrow> pr_Expiration p \<noteq> []"
  "hasProperty (prop_mask p) flagMessageId \<longleftrightarrow> pr_MessageId p \<noteq> []"
  "hasProperty (prop_mask p) flagTimestamp \<longleftrightarrow> pr_Timestamp p \<noteq> ZeroTime"
  "hasProperty (prop_mask p) flagType \<longleftrightarrow> pr_Type p \<noteq> []"
  "hasProperty (prop_mask p) flagUserId \<longleftrightarrow> pr_UserId p \<noteq> []"
  "hasProperty (prop_mask p) flagAppId \<longleftrightarrow> pr_AppId p \<noteq> []"
  "\<not> hasProperty (prop_mask p) flagReserved1"
  unfolding prop_mask_def hasProperty_simps word_neq_0_conv
  by (simp_all add: hasProperty_def flag_defs)

definition opt_bytes :: "bool \<Rightarrow> bytes \<Rightarrow> bytes" where
  "opt_bytes c w = (if c then w else [])"

lemma write_if_Inr: "write_if c (Inr w) = Inr (opt_bytes c w)"
  by (simp add: write_if_def opt_bytes_def)

text \<open>A property that is there is read into its field; one that is not keeps the value it starts with.\<close>

lemma read_if_write:
  "length s < 256 \<Longrightarrow> upd [] p = p \<Longrightarrow> read_if (s \<noteq> []) readShortstr upd p (opt_bytes (s \<noteq> []) (writeShortstr s) @ r) = (Ok (upd s p), r)"
  "updb 0 p = p \<Longrightarrow> read_if (v \<noteq> 0) (get (Suc 0)) updb p (opt_bytes (v \<noteq> 0) (put (Suc 0) (v :: 8 word)) @ r) = (Ok (updb v p), r)"
  by (auto simp: read_if_def opt_bytes_def)

definition whole_second :: "gotime \<Rightarrow> bool" where
  "whole_second t \<longleftrightarrow> (case t of UnixTime _ n \<Rightarrow> n = 0 | ZeroTime \<Rightarrow> True)"

lemma read_if_time:
  "whole_second t \<Longrightarrow> upd ZeroTime p = p \<Longrightarrow>
    read_if (t \<noteq> ZeroTime) readTimestamp upd p (opt_bytes (t \<noteq> ZeroTime) (put 8 (Unix t)) @ r) = (Ok (upd t p), r)"
  by (cases t) (auto simp: read_if_def opt_bytes_def readTimestamp_def whole_second_def)

lemma read_if_table:
  "wire_table_ok h \<Longrightarrow> upd [] p = p \<Longrightarrow> writeTable h = Inr w \<Longrightarrow>
    read_if (h \<noteq> []) readTable upd p (opt_bytes (h \<noteq> []) w @ r) = (Ok (upd h p), r)"
  by (auto simp: read_if_def opt_bytes_def readTable_write)

lemma read_if_never: "read_if False rd upd p bs = (Ok p, bs)"
  by (simp add: read_if_def)

definition properties_ok :: "properties \<Rightarrow> bool" where
  "properties_ok p \<longleftrightarrow>
     list_all (\<lambda>s. length s < 256) [pr_ContentType p, pr_ContentEncoding p, pr_CorrelationId p, pr_ReplyTo p, pr_Expiration p,
       pr_MessageId p, pr_Type p, pr_UserId p, pr_AppId p] \<and>
     wire_table_ok (pr_Headers p) \<and> whole_second (pr_Timestamp p) \<and> pr_reserved1 p = []"

lemma wire_table_writes: "wire_table_ok t \<Longrightarrow> \<exists>b. writeTable t = Inr b"
  by (auto simp: wire_table_ok_def writeTable_def split: sum.splits)

lemma read_properties_write:
  assumes "properties_ok p" and "write_properties p = Inr b"
  shows "read_properties (b @ r) = (Ok p, r)"
proof -
  obtain w where w: "writeTable (pr_Headers p) = Inr w" using assms(1) wire_table_writes by (auto simp: properties_ok_def)
  have b: "b = put 2 (prop_mask p) @ opt_bytes (pr_ContentType p \<noteq> []) (writeShortstr (pr_ContentType p)) @
      opt_bytes (pr_ContentEncoding p \<noteq> []) (writeShortstr (pr_ContentEncoding p)) @ opt_bytes (pr_Headers p \<noteq> []) w @
      opt_bytes (pr_DeliveryMode p \<noteq> 0) (put (Suc 0) (pr_DeliveryMode p)) @ opt_bytes (pr_Priority p \<noteq> 0) (put (Suc 0) (pr_Priority p)) @
      opt_bytes (pr_CorrelationId p \<noteq> []) (writeShortstr (pr_CorrelationId p)) @ opt_bytes (pr_ReplyTo p \<noteq> []) (writeShortstr (pr_ReplyTo p)) @
      opt_bytes (pr_Expiration p \<noteq> []) (writeShortstr (pr_Expiration p)) @ opt_bytes (pr_MessageId p \<noteq> []) (writeShortstr (pr_MessageId p)) @
      opt_bytes (pr_Timestamp p \<noteq> ZeroTime) (put 8 (Unix (pr_Timestamp p))) @ opt_bytes (pr_Type p \<noteq> []) (writeShortstr (pr_Type p)) @
      opt_bytes (pr_UserId p \<noteq> []) (writeShortstr (pr_UserId p)) @ opt_bytes (pr_AppId p \<noteq> []) (writeShortstr (pr_AppId p))"
    using assms(2) by (simp add: write_properties_def Let_def flag_mask write_if_Inr w)
  show ?thesis
    using assms(1) unfolding b
    by (simp add: read_properties_def flag_mask read_if_write read_if_time read_if_table w read_if_never no_properties_def
        properties_ok_def)
qed

section \<open>Frames\<close>

text \<open>What arrives: the numbers of the method are filled in, and its content comes in frames of its own.\<close>

fun arrives :: "amqp_frame \<Rightarrow> amqp_frame" where
  "arrives (MethodFrame ch _ _ (Some m)) =
     MethodFrame ch (word_of_nat (ms_class (mg_type m))) (word_of_nat (ms_method (mg_type m)))
       (Some (m\<lparr>mg_props := no_properties, mg_body := []\<rparr>))"
| "arrives f = f"

fun frame_ok :: "amqp_frame \<Rightarrow> bool" where
  "frame_ok (MethodFrame ch _ _ (Some m)) = (mg_type m \<in> set methods \<and> args_ok (ms_args (mg_type m)) (mg_args m))"
| "frame_ok (MethodFrame ch _ _ None) = False"
| "frame_ok (HeaderFrame ch cls weight sz p) = properties_ok p"
| "frame_ok (BodyFrame ch b) = (length b < 2 ^ 32)"
| "frame_ok (HeartbeatFrame ch) = True"
| "frame_ok ProtocolHeader = False"

lemma read_frame_header:
  assumes "t < 256" and "n < 2 ^ 32"
  shows "ReadFrame (be 1 t @ put 2 ch @ be 4 n @ rest) =
    andThen
      (if t = frameMethod then parseMethodFrame ch rest
       else if t = frameHeader then parseHeaderFrame ch rest
       else if t = frameBody then parseBodyFrame ch n rest
       else if t = frameHeartbeat then parseHeartbeatFrame ch n rest
       else (Fail ErrFrame, rest)) (\<lambda>f bs.
    andThen (read_be 1 bs) (\<lambda>e bs. if e \<noteq> frameEnd then (Fail ErrFrame, bs) else (Ok f, bs)))"
proof -
  have "read_full 7 ((be 1 t @ put 2 ch @ be 4 n) @ rest) = (Ok (be 1 t @ put 2 ch @ be 4 n), rest)"
    by (rule read_full_append) simp
  moreover have "unat ch < 65536" using unsigned_less [of ch] by simp
  then have "word_of_nat (be_nat (put 2 ch)) = ch" by (simp add: put_def)
  ultimately show ?thesis using assms by (simp add: ReadFrame_def Let_def)
qed

lemma read_end: "read_be 1 (be 1 frameEnd @ r) = (Ok frameEnd, r)"
  by (simp add: frameEnd_def)

text \<open>The general shape: if the payload is parsed up to its end, the frame is read.\<close>

lemma ReadFrame_writeFrame:
  assumes "t < 256"
    and "(if t = frameMethod then parseMethodFrame ch (pay @ be 1 frameEnd @ r)
       else if t = frameHeader then parseHeaderFrame ch (pay @ be 1 frameEnd @ r)
       else if t = frameBody then parseBodyFrame ch (length pay mod 2 ^ 32) (pay @ be 1 frameEnd @ r)
       else if t = frameHeartbeat then parseHeartbeatFrame ch (length pay mod 2 ^ 32) (pay @ be 1 frameEnd @ r)
       else (Fail ErrFrame, pay @ be 1 frameEnd @ r)) = (Ok f, be 1 frameEnd @ r)"
  shows "ReadFrame (writeFrame t ch pay @ r) = (Ok f, r)"
proof -
  have n: "length pay mod 2 ^ 32 < 2 ^ 32" by simp
  have eq: "writeFrame t ch pay @ r = be 1 t @ put 2 ch @ be 4 (length pay mod 2 ^ 32) @ pay @ be 1 frameEnd @ r"
    by (simp add: writeFrame_def)
  show ?thesis unfolding eq read_frame_header [OF assms(1) n] assms(2) andThen_simps read_end by simp
qed

lemma frame_round_trip:
  assumes "frame_ok f" and "frame_write f = Inr b"
  shows "ReadFrame (b @ r) = (Ok (arrives f), r)"
  using assms
proof (cases f rule: frame_ok.cases)
  case (1 ch c m msg)
  let ?s = "mg_type msg"
  obtain as where as: "write_args (mg_args msg) = Inr as"
      "b = writeFrame frameMethod ch (be 2 (ms_class ?s) @ be 2 (ms_method ?s) @ as)"
    using assms(2) by (auto simp: 1 split: sum.splits)
  have ok: "?s \<in> set methods" "args_ok (ms_args ?s) (mg_args msg)" using assms(1) by (simp_all add: 1)
  have "get 2 (be 2 v @ x) = (Ok (word_of_nat v :: 16 word), x)" if "v < 2 ^ 16" for v x
    using that by (simp add: get_def)
  then have "parseMethodFrame ch ((be 2 (ms_class ?s) @ be 2 (ms_method ?s) @ as) @ be 1 frameEnd @ r) = (Ok (arrives f), be 1 frameEnd @ r)"
    using methods_wf [OF ok(1)] read_args_write [OF ok(2) as(1), of "be 1 frameEnd @ r"] find_method_own [OF ok(1)]
    by (simp add: parseMethodFrame_def 1)
  then show ?thesis unfolding as(2) by (intro ReadFrame_writeFrame) (simp_all add: frame_type_defs)
next
  case (3 ch cls weight sz p)
  obtain w where w: "write_properties p = Inr w" "b = writeFrame frameHeader ch (put 2 cls @ put 2 weight @ put 8 sz @ w)"
    using assms(2) by (auto simp: 3 split: sum.splits)
  have "parseHeaderFrame ch ((put 2 cls @ put 2 weight @ put 8 sz @ w) @ be 1 frameEnd @ r) = (Ok f, be 1 frameEnd @ r)"
    using read_properties_write [OF _ w(1), of "be 1 frameEnd @ r"] assms(1) by (simp add: parseHeaderFrame_def 3)
  then show ?thesis unfolding w(2) by (intro ReadFrame_writeFrame) (simp_all add: frame_type_defs 3)
next
  case (4 ch body)
  then show ?thesis using assms
    by (auto intro!: ReadFrame_writeFrame simp: frame_type_defs parseBodyFrame_def)
next
  case (5 ch)
  then show ?thesis using assms
    by (auto intro!: ReadFrame_writeFrame simp: frame_type_defs parseHeartbeatFrame_def)
qed auto

text \<open>Such a frame can be written.\<close>

lemma args_ok_writes: "args_ok ks as \<Longrightarrow> \<exists>b. write_args as = Inr b"
proof (induction ks as rule: args_ok.induct)
  case (2 uu k ks a as)
  then have "\<exists>x. write_arg a = Inr x" using wire_table_writes by (cases k; cases a) auto
  then show ?case using 2 by auto
qed auto

lemma properties_ok_writes: "properties_ok p \<Longrightarrow> \<exists>b. write_properties p = Inr b"
  using wire_table_writes [of "pr_Headers p"]
  by (auto simp: write_properties_def properties_ok_def Let_def write_if_Inr)

lemma frame_ok_writes: "frame_ok f \<Longrightarrow> \<exists>b. frame_write f = Inr b"
  by (cases f rule: frame_ok.cases) (auto dest!: args_ok_writes properties_ok_writes simp: cat_def)

section \<open>Frames take bytes\<close>

text \<open>A frame that was read has taken bytes, so a loop over frames ends with its input.\<close>

lemma eats_weaken: "eats m bs \<Longrightarrow> length bs \<le> length bs' \<Longrightarrow> eats m bs'"
  by (simp add: eats_def)

lemma eats_readTable: "eats (readTable bs) bs"
  unfolding readTable_def by (rule eats_seq) auto

lemma eats_arg: "eats (read_arg k bs) bs"
  by (cases k) (auto intro!: eats_seq eats_readTable)

lemma eats_args: "eats (read_args ks bs) bs"
  by (induction ks arbitrary: bs) (auto intro!: eats_seq eats_arg)

lemma eats_read_if: "(\<And>bs. eats (rd bs) bs) \<Longrightarrow> eats (read_if c rd upd p bs) bs"
  by (auto simp: read_if_def intro!: eats_seq)

lemma eats_readTimestamp: "eats (readTimestamp bs) bs"
  unfolding readTimestamp_def by (rule eats_seq) auto

lemma eats_read_properties: "eats (read_properties bs) bs"
  unfolding read_properties_def
  by (intro eats_seq eats_read_if eats_readTable eats_readTimestamp eats_get eats_strings order_refl)

lemma eats_parse:
  "eats (parseMethodFrame ch bs) bs" "eats (parseHeaderFrame ch bs) bs" "eats (parseBodyFrame ch n bs) bs"
  "eats (parseHeartbeatFrame ch n bs) bs"
  unfolding parseMethodFrame_def parseHeaderFrame_def parseBodyFrame_def parseHeartbeatFrame_def
  by (auto intro!: eats_seq eats_args eats_read_properties split: option.split)

lemma ReadFrame_Ok: "ReadFrame bs = (Ok f, bs') \<Longrightarrow> length bs' < length bs"
proof -
  assume a: "ReadFrame bs = (Ok f, bs')"
  then obtain x bs1 where x: "read_full 7 bs = (Ok x, bs1)" by (auto simp: ReadFrame_def andThen_eq_Ok)
  have "eats (ReadFrame bs) bs1"
    unfolding ReadFrame_def x andThen_simps Let_def by (auto intro!: eats_seq eats_parse)
  then show "length bs' < length bs" using a x by (auto simp: read_full_Ok)
qed

end
