(* ===== verification/Amqp_Alloc.thy ===== *)
theory Amqp_Alloc
  imports Go_Prelude "HOL-Library.Word" "HOL-Library.AList"
begin

text \<open>
  Two bookkeepers of the client of the message broker: \<^verbatim>\<open>allocator.go\<close>, which hands out channel numbers from a bit set,
  and \<^verbatim>\<open>confirms.go\<close>, which puts confirmations that arrive in any order into the order of publishing. The bit set is a
  \<^verbatim>\<open>big.Int\<close>, so an unbounded integer; delivery tags have 64 bits. What the listeners receive is kept as a list for each.
\<close>

unbundle bit_operations_syntax

section \<open>The allocator\<close>

record allocator =
  al_pool :: int
  al_last :: int
  al_low :: int
  al_high :: int

definition newAllocator :: "int \<Rightarrow> int \<Rightarrow> allocator" where
  "newAllocator low high = \<lparr>al_pool = 0, al_last = low, al_low = low, al_high = high\<rparr>"

definition reserved :: "int \<Rightarrow> allocator \<Rightarrow> bool" where
  "reserved n a \<longleftrightarrow> bit (al_pool a) (nat (n - al_low a))"

definition reserve :: "int \<Rightarrow> allocator \<Rightarrow> bool \<times> allocator" where
  "reserve n a =
     (if reserved n a then (False, a) else (True, a\<lparr>al_pool := set_bit (nat (n - al_low a)) (al_pool a)\<rparr>))"

text \<open>A loop over \<^verbatim>\<open>a.last\<close> up to, and without, \<open>stop\<close>.\<close>

function find_free :: "int \<Rightarrow> allocator \<Rightarrow> bool \<times> allocator" where
  "find_free stop a =
     (if al_last a < stop then
        (case reserve (al_last a) a of
           (True, a') \<Rightarrow> (True, a')
         | (False, a') \<Rightarrow> find_free stop (a\<lparr>al_last := al_last a + 1\<rparr>))
      else (False, a))"
  by pat_completeness auto
termination
  by (relation "measure (\<lambda>(stop, a). nat (stop - al_last a))") auto

declare find_free.simps [simp del]

definition alloc_next :: "allocator \<Rightarrow> int option \<times> allocator" where
  "alloc_next a =
     (let wrapped = al_last a in
      case find_free (al_high a + 1) a of
        (True, a1) \<Rightarrow> (Some (al_last a1), a1)
      | (False, a1) \<Rightarrow>
          (case find_free wrapped (a1\<lparr>al_last := al_low a1\<rparr>) of
             (True, a2) \<Rightarrow> (Some (al_last a2), a2)
           | (False, a2) \<Rightarrow> (None, a2)))"

text \<open>Setting a bit with a negative index panics.\<close>

definition alloc_release :: "int \<Rightarrow> allocator \<Rightarrow> allocator res" where
  "alloc_release n a =
     (if n < al_low a then Panic ''negative bit index''
      else Ok (a\<lparr>al_pool := unset_bit (nat (n - al_low a)) (al_pool a)\<rparr>))"

subsection \<open>A pool of numbers\<close>

text \<open>
  What the connection relies on: numbers that are handed out are in the range and were not in use, the pool is
  exhausted only when all are in use, and a released number can be handed out again.
\<close>

locale number_pool =
  fixes fresh :: "'p \<Rightarrow> int option \<times> 'p" and free :: "int \<Rightarrow> 'p \<Rightarrow> 'p res"
    and ok :: "'p \<Rightarrow> bool" and used :: "'p \<Rightarrow> int set" and range :: "'p \<Rightarrow> int set"
  assumes fresh_ok: "ok p \<Longrightarrow> fresh p = (r, p') \<Longrightarrow> ok p' \<and> range p' = range p"
    and fresh_Some: "ok p \<Longrightarrow> fresh p = (Some n, p') \<Longrightarrow> n \<in> range p \<and> n \<notin> used p \<and> used p' = insert n (used p)"
    and fresh_None: "ok p \<Longrightarrow> fresh p = (None, p') \<Longrightarrow> used p = range p \<and> used p' = used p"
    and free_ok: "ok p \<Longrightarrow> n \<in> range p \<Longrightarrow> \<exists>p'. free n p = Ok p' \<and> ok p' \<and> range p' = range p \<and> used p' = used p - {n}"
begin

text \<open>A pool that is not exhausted always gives a number.\<close>

lemma fresh_total: "ok p \<Longrightarrow> used p \<subset> range p \<Longrightarrow> \<exists>n p'. fresh p = (Some n, p')"
  using fresh_None by (metis option.exhaust order_less_irrefl prod.exhaust)

text \<open>A number that was released is available until it is handed out.\<close>

lemma free_then_fresh: "ok p \<Longrightarrow> n \<in> range p \<Longrightarrow> free n p = Ok p' \<Longrightarrow> \<exists>m p''. fresh p' = (Some m, p'')"
  using free_ok [of p n] fresh_total [of p'] fresh_None [of p'] by (metis Diff_iff insertCI option.exhaust prod.exhaust res.inject(1))

end

definition al_ok :: "allocator \<Rightarrow> bool" where
  "al_ok a \<longleftrightarrow> al_low a \<le> al_last a \<and> al_last a \<le> al_high a + 1"

definition al_range :: "allocator \<Rightarrow> int set" where
  "al_range a = {al_low a..al_high a}"

definition al_used :: "allocator \<Rightarrow> int set" where
  "al_used a = {n \<in> al_range a. reserved n a}"

lemma reserved_last [simp]: "reserved n (a\<lparr>al_last := l\<rparr>) = reserved n a"
  by (simp add: reserved_def)

lemma find_free_spec:
  assumes "find_free stop a = (b, a')" and "al_low a \<le> al_last a"
  shows "al_low a' = al_low a \<and> al_high a' = al_high a \<and> al_last a \<le> al_last a' \<and>
    (if b then al_last a' < stop \<and> \<not> reserved (al_last a') a \<and> al_pool a' = set_bit (nat (al_last a' - al_low a)) (al_pool a)
     else al_last a' = max (al_last a) stop \<and> al_pool a' = al_pool a \<and> (\<forall>n. al_last a \<le> n \<and> n < stop \<longrightarrow> reserved n a))"
  using assms
proof (induction stop a rule: find_free.induct)
  case (1 stop a)
  show ?case
  proof (cases "al_last a < stop \<and> reserved (al_last a) a")
    case True
    then have f: "find_free stop (a\<lparr>al_last := al_last a + 1\<rparr>) = (b, a')"
      using "1.prems"(1) by (subst (asm) find_free.simps) (simp add: reserve_def)
    have "reserve (al_last a) a = (False, a)" using True by (simp add: reserve_def)
    then have IH: "al_low a' = al_low a \<and> al_high a' = al_high a \<and> al_last a + 1 \<le> al_last a' \<and>
      (if b then al_last a' < stop \<and> \<not> reserved (al_last a') a \<and> al_pool a' = set_bit (nat (al_last a' - al_low a)) (al_pool a)
       else al_last a' = max (al_last a + 1) stop \<and> al_pool a' = al_pool a \<and> (\<forall>n. al_last a + 1 \<le> n \<and> n < stop \<longrightarrow> reserved n a))"
      using "1.IH" [of False a] True f "1.prems"(2) by (auto split: if_splits)
    have "reserved n a" if "\<forall>n. al_last a + 1 \<le> n \<and> n < stop \<longrightarrow> reserved n a" "al_last a \<le> n" "n < stop" for n
      using that True by (cases "n = al_last a") auto
    then show ?thesis using IH True by auto
  next
    case False
    then show ?thesis using "1.prems"
      by (subst (asm) find_free.simps) (auto simp: reserve_def split: if_splits)
  qed
qed

lemma al_used_set:
  assumes "n \<in> al_range a" and "al_pool a' = set_bit (nat (n - al_low a)) (al_pool a)" and "al_low a' = al_low a" "al_high a' = al_high a"
  shows "al_used a' = insert n (al_used a)"
  using assms by (auto simp: al_used_def al_range_def reserved_def bit_set_bit_iff eq_nat_nat_iff)

lemma al_used_unset:
  assumes "n \<in> al_range a"
  shows "al_used (a\<lparr>al_pool := unset_bit (nat (n - al_low a)) (al_pool a)\<rparr>) = al_used a - {n}"
  using assms by (auto simp: al_used_def al_range_def reserved_def bit_unset_bit_iff eq_nat_nat_iff)

lemma al_used_same: "al_pool a' = al_pool a \<Longrightarrow> al_low a' = al_low a \<Longrightarrow> al_high a' = al_high a \<Longrightarrow> al_used a' = al_used a"
  by (simp add: al_used_def al_range_def reserved_def)

lemma alloc_next_spec:
  assumes "al_ok a" and "alloc_next a = (r, a')"
  shows "al_ok a' \<and> al_range a' = al_range a \<and>
    (case r of
       Some n \<Rightarrow> n \<in> al_range a \<and> n \<notin> al_used a \<and> al_used a' = insert n (al_used a)
     | None \<Rightarrow> al_used a = al_range a \<and> al_used a' = al_used a)"
proof -
  obtain b1 a1 where 1: "find_free (al_high a + 1) a = (b1, a1)" by fastforce
  have ok: "al_low a \<le> al_last a" "al_last a \<le> al_high a + 1" using assms(1) by (simp_all add: al_ok_def)
  note s1 = find_free_spec [OF 1 ok(1)]
  show ?thesis
  proof (cases b1)
    case True
    then have r: "r = Some (al_last a1)" "a' = a1" using assms(2) 1 by (auto simp: alloc_next_def)
    have "al_last a1 \<in> al_range a" using s1 True assms(1) by (auto simp: al_range_def al_ok_def)
    then show ?thesis
      using s1 True r assms(1) al_used_set [of "al_last a1" a a1] by (auto simp: al_ok_def al_range_def al_used_def)
  next
    case False
    obtain b2 a2 where 2: "find_free (al_last a) (a1\<lparr>al_last := al_low a1\<rparr>) = (b2, a2)" by fastforce
    have same: "al_low a1 = al_low a" "al_high a1 = al_high a" "al_pool a1 = al_pool a" using s1 False by auto
    have s2: "al_low a2 = al_low a \<and> al_high a2 = al_high a \<and> al_low a \<le> al_last a2 \<and>
      (if b2 then al_last a2 < al_last a \<and> \<not> reserved (al_last a2) a \<and> al_pool a2 = set_bit (nat (al_last a2 - al_low a)) (al_pool a)
       else al_last a2 = max (al_low a) (al_last a) \<and> al_pool a2 = al_pool a \<and> (\<forall>n. al_low a \<le> n \<and> n < al_last a \<longrightarrow> reserved n a))"
      using find_free_spec [OF 2] same by (auto simp: reserved_def split: if_splits)
    have r: "r = (if b2 then Some (al_last a2) else None)" "a' = a2"
      using assms(2) 1 2 False by (auto simp: alloc_next_def Let_def split: bool.splits)
    show ?thesis
    proof (cases b2)
      case True
      then have "al_last a2 \<in> al_range a" using s2 ok by (auto simp: al_range_def)
      then show ?thesis
        using s2 True r ok al_used_set [of "al_last a2" a a2] by (auto simp: al_ok_def al_range_def al_used_def)
    next
      case b2: False
      have "reserved n a" if "n \<in> al_range a" for n
        using s1 s2 False b2 that by (cases "n < al_last a") (auto simp: al_range_def)
      then have "al_used a = al_range a" by (auto simp: al_used_def)
      moreover have "al_used a2 = al_used a" using s2 b2 by (intro al_used_same) auto
      ultimately show ?thesis using s2 b2 r ok by (auto simp: al_ok_def al_range_def)
    qed
  qed
qed

lemma alloc_release_spec:
  assumes "al_ok a" and "n \<in> al_range a"
  shows "\<exists>a'. alloc_release n a = Ok a' \<and> al_ok a' \<and> al_range a' = al_range a \<and> al_used a' = al_used a - {n}"
  using assms al_used_unset [OF assms(2)] by (auto simp: alloc_release_def al_ok_def al_range_def)

interpretation alloc: number_pool alloc_next alloc_release al_ok al_used al_range
  by unfold_locales (use alloc_next_spec alloc_release_spec in \<open>fastforce+\<close>)

lemma newAllocator_ok: "low \<le> high + 1 \<Longrightarrow> al_ok (newAllocator low high) \<and> al_used (newAllocator low high) = {} \<and> al_range (newAllocator low high) = {low..high}"
  by (auto simp: newAllocator_def al_ok_def al_used_def al_range_def reserved_def)

section \<open>Confirmations\<close>

record Confirmation =
  cf_DeliveryTag :: "64 word"
  cf_Ack :: bool

record confirms =
  co_listeners :: "Confirmation list list"
  co_sequencer :: "(64 word \<times> Confirmation) list"
  co_published :: "64 word"
  co_expecting :: "64 word"

definition newConfirms :: confirms where
  "newConfirms = \<lparr>co_listeners = [], co_sequencer = [], co_published = 0, co_expecting = 1\<rparr>"

definition Listen :: "confirms \<Rightarrow> confirms" where
  "Listen c = c\<lparr>co_listeners := co_listeners c @ [[]]\<rparr>"

definition confirms_Publish :: "confirms \<Rightarrow> 64 word \<times> confirms" where
  "confirms_Publish c = (let n = co_published c + 1 in (n, c\<lparr>co_published := n\<rparr>))"

definition confirm :: "Confirmation \<Rightarrow> confirms \<Rightarrow> confirms" where
  "confirm cf c = c\<lparr>co_sequencer := AList.delete (co_expecting c) (co_sequencer c), co_expecting := co_expecting c + 1,
     co_listeners := map (\<lambda>l. l @ [cf]) (co_listeners c)\<rparr>"

function resequence :: "confirms \<Rightarrow> confirms" where
  "resequence c =
     (if co_expecting c \<le> co_published c then
        (case map_of (co_sequencer c) (co_expecting c) of
           None \<Rightarrow> c
         | Some sequenced \<Rightarrow> resequence (confirm sequenced c))
      else c)"
  by pat_completeness auto
termination
proof (relation "measure (\<lambda>c. length (co_sequencer c))")
  fix c :: confirms and cf
  assume "map_of (co_sequencer c) (co_expecting c) = Some cf"
  then have "(co_expecting c, cf) \<in> set (co_sequencer c)" by (rule map_of_SomeD)
  then show "(confirm cf c, c) \<in> measure (\<lambda>c. length (co_sequencer c))"
    by (auto simp: confirm_def AList.delete_eq intro!: length_filter_less)
qed simp

declare resequence.simps [simp del]

definition confirms_One :: "Confirmation \<Rightarrow> confirms \<Rightarrow> confirms" where
  "confirms_One cf c =
     resequence (if co_expecting c = cf_DeliveryTag cf then confirm cf c
       else c\<lparr>co_sequencer := gm_set (cf_DeliveryTag cf) cf (co_sequencer c)\<rparr>)"

text \<open>The loop of \<^verbatim>\<open>Multiple\<close>: for the greatest tag it does not end, since no counter is greater.\<close>

partial_function (option) confirms_Multiple :: "Confirmation \<Rightarrow> confirms \<Rightarrow> confirms option" where
  "confirms_Multiple cf c =
     (if co_expecting c \<le> cf_DeliveryTag cf
      then confirms_Multiple cf (confirm \<lparr>cf_DeliveryTag = co_expecting c, cf_Ack = cf_Ack cf\<rparr> c)
      else Some c)"

definition confirms_Close :: "confirms \<Rightarrow> confirms" where
  "confirms_Close c = c\<lparr>co_listeners := []\<rparr>"

end
