(* ===== verification/Amqp_Confirms.thy ===== *)
theory Amqp_Confirms
  imports Amqp_Alloc
begin

text \<open>
  What the confirmations promise: a listener sees the tags in the order of publishing without a gap, whatever
  arrives and in whatever order; confirmations that arrive in any order leave in theirs; the loop over many
  tags ends for every tag but the greatest.
\<close>

section \<open>Without a gap\<close>

inductive confirms_reach :: "confirms \<Rightarrow> bool" where
  reach_new: "confirms_reach newConfirms"
| reach_Listen: "confirms_reach c \<Longrightarrow> confirms_reach (Listen c)"
| reach_Publish: "confirms_reach c \<Longrightarrow> confirms_Publish c = (n, c') \<Longrightarrow> confirms_reach c'"
| reach_One: "confirms_reach c \<Longrightarrow> confirms_reach (confirms_One cf c)"
| reach_Multiple: "confirms_reach c \<Longrightarrow> confirms_Multiple cf c = Some c' \<Longrightarrow> confirms_reach c'"
| reach_Close: "confirms_reach c \<Longrightarrow> confirms_reach (confirms_Close c)"

text \<open>The tags of a list count up to the one before \<open>e\<close>.\<close>

definition counts_to :: "64 word \<Rightarrow> Confirmation list \<Rightarrow> bool" where
  "counts_to e l \<longleftrightarrow> map cf_DeliveryTag l = map (\<lambda>i. e - word_of_nat i) (rev [1..<Suc (length l)])"

lemma counts_to_snoc: "counts_to e l \<Longrightarrow> cf_DeliveryTag cf = e \<Longrightarrow> counts_to (e + 1) (l @ [cf])"
proof -
  assume a: "counts_to e l" "cf_DeliveryTag cf = e"
  have "[1..<Suc (Suc n)] = 1 # map Suc [1..<Suc n]" for n
    by (subst upt_conv_Cons) (simp_all add: map_Suc_upt del: upt_Suc)
  then show ?thesis using a by (simp add: counts_to_def rev_map comp_def del: upt_Suc)
qed

definition confirms_inv :: "confirms \<Rightarrow> bool" where
  "confirms_inv c \<longleftrightarrow> (\<forall>l \<in> set (co_listeners c). counts_to (co_expecting c) l) \<and>
     (\<forall>k cf. map_of (co_sequencer c) k = Some cf \<longrightarrow> cf_DeliveryTag cf = k)"

lemma confirm_inv: "confirms_inv c \<Longrightarrow> cf_DeliveryTag cf = co_expecting c \<Longrightarrow> confirms_inv (confirm cf c)"
  by (auto simp: confirms_inv_def confirm_def counts_to_snoc delete_conv' split: if_splits)

lemma resequence_idle: "\<not> co_expecting c \<le> co_published c \<Longrightarrow> resequence c = c"
  by (subst resequence.simps) simp

lemma resequence_inv: "confirms_inv c \<Longrightarrow> confirms_inv (resequence c)"
proof (induction c rule: resequence.induct)
  case (1 c)
  show ?case
  proof (cases "co_expecting c \<le> co_published c \<and> map_of (co_sequencer c) (co_expecting c) \<noteq> None")
    case True
    then obtain cf where cf: "map_of (co_sequencer c) (co_expecting c) = Some cf" by auto
    then have "confirms_inv (confirm cf c)" using 1 by (intro confirm_inv) (auto simp: confirms_inv_def)
    then show ?thesis using "1.IH" cf True by (subst resequence.simps) simp
  next
    case False
    then show ?thesis using "1.prems" by (subst resequence.simps) auto
  qed
qed

text \<open>What one round keeps, the loop keeps.\<close>

lemma Multiple_keeps:
  assumes "confirms_Multiple cf c = Some c'" and "I c"
    and "\<And>c. I c \<Longrightarrow> co_expecting c \<le> cf_DeliveryTag cf \<Longrightarrow> I (confirm \<lparr>cf_DeliveryTag = co_expecting c, cf_Ack = cf_Ack cf\<rparr> c)"
  shows "I c' \<and> \<not> co_expecting c' \<le> cf_DeliveryTag cf"
proof -
  have "(\<forall>c. I c \<longrightarrow> co_expecting c \<le> cf_DeliveryTag cf \<longrightarrow> I (confirm \<lparr>cf_DeliveryTag = co_expecting c, cf_Ack = cf_Ack cf\<rparr> c)) \<longrightarrow>
    I c \<longrightarrow> I c' \<and> \<not> co_expecting c' \<le> cf_DeliveryTag cf"
    by (rule confirms_Multiple.raw_induct [OF _ assms(1)]) (fastforce split: if_splits)
  then show ?thesis using assms(2,3) by blast
qed

lemma Multiple_inv: "confirms_Multiple cf c = Some c' \<Longrightarrow> confirms_inv c \<Longrightarrow> confirms_inv c'"
  by (rule Multiple_keeps [where I = confirms_inv, THEN conjunct1]) (auto intro: confirm_inv)

lemma reach_inv: "confirms_reach c \<Longrightarrow> confirms_inv c"
proof (induction rule: confirms_reach.induct)
  case (reach_One c cf)
  then show ?case
    by (auto simp: confirms_One_def confirm_inv intro!: resequence_inv)
      (auto simp: confirms_inv_def)
next
  case (reach_Multiple c cf c')
  then show ?case by (blast intro: Multiple_inv)
qed (auto simp: confirms_inv_def newConfirms_def Listen_def confirms_Publish_def confirms_Close_def counts_to_def Let_def)

section \<open>Many at once\<close>

lemma succ_unat: "w \<noteq> - 1 \<Longrightarrow> unat (w + 1) = Suc (unat w)" for w :: "64 word"
  by (metis add.commute add.right_inverse add_left_cancel unatSuc)

text \<open>The loop over the tags up to one ends, and has then confirmed them all, unless the tag is the greatest there is.\<close>

lemma Multiple_ends:
  assumes "cf_DeliveryTag cf \<noteq> - 1"
  shows "\<exists>c'. confirms_Multiple cf c = Some c'"
proof (induction "2 ^ 64 - unat (co_expecting c)" arbitrary: c rule: less_induct)
  case less
  show ?case
  proof (cases "co_expecting c \<le> cf_DeliveryTag cf")
    case True
    let ?c = "confirm \<lparr>cf_DeliveryTag = co_expecting c, cf_Ack = cf_Ack cf\<rparr> c"
    have "co_expecting c \<noteq> - 1" using True assms by (auto simp: word_order.extremum_unique)
    then have "unat (co_expecting ?c) = Suc (unat (co_expecting c))" by (simp add: confirm_def succ_unat)
    moreover have "unat (co_expecting c) < 2 ^ 64" using unsigned_less [of "co_expecting c"] by simp
    ultimately have "\<exists>c'. confirms_Multiple cf ?c = Some c'" using less by simp
    then show ?thesis using True by (subst confirms_Multiple.simps) simp
  next
    case False
    then show ?thesis by (subst confirms_Multiple.simps) simp
  qed
qed

lemma Multiple_greatest:
  assumes "cf_DeliveryTag cf = - 1"
  shows "confirms_Multiple cf c = None"
proof -
  have "\<not> co_expecting c' \<le> cf_DeliveryTag cf" if "confirms_Multiple cf c = Some c'" for c'
    using Multiple_keeps [OF that, where I = "\<lambda>_. True"] by simp
  then show ?thesis using assms by (cases "confirms_Multiple cf c") (auto simp: word_order.extremum)
qed

section \<open>In any order\<close>

lemma word_tag_eq: "a < 2 ^ 64 \<Longrightarrow> b < 2 ^ 64 \<Longrightarrow> (word_of_nat a :: 64 word) = word_of_nat b \<longleftrightarrow> a = b"
  and word_tag_le: "a < 2 ^ 64 \<Longrightarrow> b < 2 ^ 64 \<Longrightarrow> (word_of_nat a :: 64 word) \<le> word_of_nat b \<longleftrightarrow> a \<le> b"
  by (simp_all add: word_unat_eq_iff word_le_nat_alt unat_of_nat)

text \<open>
  The state after the confirmations of the tags in \<open>S\<close>, of \<open>n\<close> published: those up to \<open>m\<close> have left, in order; the others
  wait. \<open>f\<close> gives the confirmation of a tag.
\<close>

definition waiting :: "(nat \<Rightarrow> Confirmation) \<Rightarrow> nat \<Rightarrow> Confirmation list list \<Rightarrow> nat set \<Rightarrow> nat \<Rightarrow> confirms \<Rightarrow> bool" where
  "waiting f n ls S m c \<longleftrightarrow>
     m \<le> n \<and> {1..m} \<subseteq> S \<and> S \<subseteq> {1..n} \<and> co_expecting c = word_of_nat (Suc m) \<and> co_published c = word_of_nat n \<and>
     co_listeners c = map (\<lambda>l. l @ map f [1..<Suc m]) ls \<and>
     (\<forall>t \<in> {Suc m..n}. map_of (co_sequencer c) (word_of_nat t) = (if t \<in> S then Some (f t) else None))"

lemma waiting_confirm:
  assumes "waiting f n ls S m c" and "n < 2 ^ 64 - 1" and "Suc m \<le> n" and "S' = insert (Suc m) S"
  shows "waiting f n ls S' (Suc m) (confirm (f (Suc m)) c)"
proof -
  have "map_of (AList.delete (word_of_nat (Suc m)) (co_sequencer c)) (word_of_nat t) = map_of (co_sequencer c) (word_of_nat t)"
    if "Suc (Suc m) \<le> t" "t \<le> n" for t
    using that assms(2) word_tag_eq [of t "Suc m"] by (simp add: delete_conv')
  moreover have "word_of_nat (Suc m) + 1 = (word_of_nat (Suc (Suc m)) :: 64 word)" by simp
  moreover have "{1..Suc m} \<subseteq> S'" using assms(1,4) by (auto simp: waiting_def le_Suc_eq)
  ultimately show ?thesis using assms unfolding waiting_def confirm_def by (auto simp del: of_nat_Suc)
qed

lemma waiting_resequence:
  assumes "waiting f n ls S m c" and "n < 2 ^ 64 - 1"
  shows "\<exists>m'. waiting f n ls S m' (resequence c) \<and> Suc m' \<notin> S"
  using assms
proof (induction c arbitrary: m rule: resequence.induct)
  case (1 c)
  have e: "co_expecting c \<le> co_published c \<longleftrightarrow> Suc m \<le> n" and le: "m \<le> n" and S: "S \<subseteq> {1..n}"
    using "1.prems" word_tag_le [of "Suc m" n] by (auto simp: waiting_def simp del: of_nat_Suc)
  show ?case
  proof (cases "Suc m \<in> S")
    case True
    then have n: "Suc m \<le> n" using S by auto
    then have "map_of (co_sequencer c) (co_expecting c) = Some (f (Suc m))"
      using "1.prems"(1) True by (auto simp: waiting_def simp del: of_nat_Suc)
    moreover have "waiting f n ls S (Suc m) (confirm (f (Suc m)) c)"
      using waiting_confirm [OF "1.prems" n] True by (simp add: insert_absorb)
    ultimately show ?thesis using "1.IH" e n "1.prems"(2) by (subst resequence.simps) simp
  next
    case False
    then have "resequence c = c"
      using "1.prems"(1) e by (subst resequence.simps) (auto simp: waiting_def simp del: of_nat_Suc)
    then show ?thesis using "1.prems"(1) False by auto
  qed
qed

lemma waiting_One:
  assumes "waiting f n ls S m c" and "n < 2 ^ 64 - 1" and "Suc m \<notin> S" and "t \<in> {1..n}" "t \<notin> S"
    and tag: "cf_DeliveryTag (f t) = word_of_nat t"
  shows "\<exists>m'. waiting f n ls (insert t S) m' (confirms_One (f t) c) \<and> Suc m' \<notin> insert t S"
proof -
  have m: "m < t" "m \<le> n" using assms(1,4,5) by (auto simp: waiting_def subset_iff not_less)
  have e: "co_expecting c = cf_DeliveryTag (f t) \<longleftrightarrow> t = Suc m"
    using assms(1,2,4) m tag word_tag_eq [of "Suc m" t] by (auto simp: waiting_def simp del: of_nat_Suc)
  show ?thesis
  proof (cases "t = Suc m")
    case True
    then have "waiting f n ls (insert t S) (Suc m) (confirm (f t) c)" using waiting_confirm [OF assms(1,2)] assms(4) by auto
    from waiting_resequence [OF this assms(2)] show ?thesis using e True by (simp add: confirms_One_def)
  next
    case False
    let ?c = "c\<lparr>co_sequencer := gm_set (cf_DeliveryTag (f t)) (f t) (co_sequencer c)\<rparr>"
    have "waiting f n ls (insert t S) m ?c"
      using assms(1,2,4) m tag word_tag_eq [of _ t] by (auto simp: waiting_def simp del: of_nat_Suc)
    from waiting_resequence [OF this assms(2)] show ?thesis using e False by (simp add: confirms_One_def)
  qed
qed

lemma waiting_all:
  assumes "waiting f n ls S m c" and "n < 2 ^ 64 - 1" and "Suc m \<notin> S" and "distinct ts" and "set ts \<subseteq> {1..n} - S"
    and "\<And>t. t \<in> {1..n} \<Longrightarrow> cf_DeliveryTag (f t) = word_of_nat t"
  shows "\<exists>m'. waiting f n ls (set ts \<union> S) m' (fold confirms_One (map f ts) c) \<and> Suc m' \<notin> set ts \<union> S"
  using assms
proof (induction ts arbitrary: S m c)
  case (Cons t ts)
  then obtain m' where "waiting f n ls (insert t S) m' (confirms_One (f t) c)" "Suc m' \<notin> insert t S"
    using waiting_One [OF Cons.prems(1-3), of t] by auto
  then show ?case using Cons.IH [of "insert t S" m' "confirms_One (f t) c"] Cons.prems by auto
qed auto

lemma confirms_any_order:
  assumes "n < 2 ^ 64 - 1" and "distinct ts" and "set ts = {1..n}" and "\<And>t. t \<in> {1..n} \<Longrightarrow> cf_DeliveryTag (f t) = word_of_nat t"
    and "co_expecting c = 1" and "co_sequencer c = []" and "co_published c = word_of_nat n"
  shows "co_listeners (fold confirms_One (map f ts) c) = map (\<lambda>l. l @ map f [1..<Suc n]) (co_listeners c)"
proof -
  have "waiting f n (co_listeners c) {} 0 c" using assms by (simp add: waiting_def)
  then obtain m where m: "waiting f n (co_listeners c) {1..n} m (fold confirms_One (map f ts) c)" "Suc m \<notin> {1..n}"
    using waiting_all [of f n "co_listeners c" "{}" 0 c ts] assms by auto
  then have "m = n" by (auto simp: waiting_def)
  then show ?thesis using m(1) by (simp add: waiting_def)
qed

end
