(* ===== verification/Amqp_Channel.thy ===== *)
theory Amqp_Channel
  imports Amqp_Frame_Correct Amqp_Confirms "HOL-Library.Monad_Syntax"
begin

text \<open>
  Connections and channels of the client of the message broker: \<^verbatim>\<open>channel.go\<close> and \<^verbatim>\<open>connection.go\<close> of
  \<^verbatim>\<open>streadway/amqp\<close>. A channel sends a message as frames and puts frames together into messages; a connection
  numbers the channels and hands each frame to its channel.

  Every operation runs alone here, under the mutex of the source. What the client's Go channels receive is a list
  of events; a broadcast to the listeners of one kind is one event. What the transport does with a frame is a
  script: it takes it, or fails after some of its bytes. A result \<open>None\<close> is a loop that does not end; a panic is a
  value of the result. A shutdown that the source starts in a goroutine is noted in the state.
\<close>

section \<open>State\<close>

record amqp_error =
  ae_Code :: nat
  ae_Reason :: string
  ae_Server :: bool
  ae_Recover :: bool

definition isSoftExceptionCode :: "nat \<Rightarrow> bool" where
  "isSoftExceptionCode c \<longleftrightarrow> c \<in> {311, 312, 313, 403, 404, 405, 406}"

definition newError :: "16 word \<Rightarrow> string \<Rightarrow> amqp_error" where
  "newError code text = \<lparr>ae_Code = unat code, ae_Reason = text, ae_Server = True, ae_Recover = isSoftExceptionCode (unat code)\<rparr>"

definition ErrClosed :: error where "ErrClosed = Errorf ''channel/connection is not open''"
definition ErrChannelMax :: error where "ErrChannelMax = Errorf ''channel id space exhausted''"
definition ErrCommandInvalid :: error where "ErrCommandInvalid = Errorf ''unexpected command received''"

datatype event =
    EvRpc message
  | EvFlow bool
  | EvCancel string
  | EvReturn message
  | EvDeliver string message
  | EvClose amqp_error
  | EvError amqp_error
  | EvBlocked bool string
  | EvClosed

datatype recv_state = RecvMethod | RecvHeader | RecvContent

record channel =
  ch_id :: "16 word"
  ch_open :: bool
  ch_recv :: recv_state
  ch_message :: "message option"
  ch_header :: "(64 word \<times> properties) option"
  ch_body :: bytes
  ch_consumers :: "string list"
  ch_confirms :: confirms
  ch_confirming :: bool
  ch_noNotify :: bool
  ch_out :: "event list"

definition newChannel :: "16 word \<Rightarrow> channel" where
  "newChannel i = \<lparr>ch_id = i, ch_open = True, ch_recv = RecvMethod, ch_message = None, ch_header = None, ch_body = [],
     ch_consumers = [], ch_confirms = newConfirms, ch_confirming = False, ch_noNotify = False, ch_out = []\<rparr>"

record connection =
  cn_wire :: bytes
  cn_script :: "(nat \<times> error) option list"
  cn_down :: bool
  cn_FrameSize :: int
  cn_ChannelMax :: int
  cn_allocator :: allocator
  cn_channels :: "(16 word \<times> channel) list"
  cn_closed :: bool
  cn_out :: "event list"

definition put_event :: "event \<Rightarrow> channel \<Rightarrow> channel" where
  "put_event e ch = ch\<lparr>ch_out := ch_out ch @ [e]\<rparr>"

section \<open>Sending\<close>

definition conn_send :: "amqp_frame \<Rightarrow> connection \<Rightarrow> unit res \<times> connection" where
  "conn_send f cn =
     (case frame_write f of
        Inl e \<Rightarrow> (Fail e, cn\<lparr>cn_down := True\<rparr>)
      | Inr b \<Rightarrow>
          (case cn_script cn of
             Some (n, e) # s \<Rightarrow> (Fail e, cn\<lparr>cn_wire := cn_wire cn @ take n b, cn_script := s, cn_down := True\<rparr>)
           | s \<Rightarrow> (Ok (), cn\<lparr>cn_wire := cn_wire cn @ b, cn_script := tl s\<rparr>)))"

text \<open>
  The loop over the parts of a body, \<^verbatim>\<open>for i, j := 0, size; i < len(body); i, j = j, j+size\<close>. A slice with \<open>j < i\<close> panics; with
  \<open>size = 0\<close> it sends empty frames for ever.
\<close>

partial_function (option) send_body ::
  "16 word \<Rightarrow> bytes \<Rightarrow> int \<Rightarrow> int \<Rightarrow> int \<Rightarrow> connection \<Rightarrow> (unit res \<times> connection) option" where
  "send_body chan body sz i j cn =
     (if i < int (length body) then
        let j = (if j > int (length body) then int (length body) else j) in
        if j < i then Some (Panic ''slice bounds out of range'', cn)
        else
          (case conn_send (BodyFrame chan (take (nat (j - i)) (drop (nat i) body))) cn of
             (Ok _, cn) \<Rightarrow> send_body chan body sz j (j + sz) cn
           | (Fail e, cn) \<Rightarrow> Some (Fail e, cn)
           | (Panic p, cn) \<Rightarrow> Some (Panic p, cn))
      else Some (Ok (), cn))"

definition frameHeaderSize :: int where "frameHeaderSize = 1 + 2 + 4 + 1"

definition sendOpen :: "message \<Rightarrow> channel \<Rightarrow> connection \<Rightarrow> (unit res \<times> connection) option" where
  "sendOpen m ch cn =
     (if ms_content (mg_type m) then
        let sz = (if cn_FrameSize cn > 0 then cn_FrameSize cn - frameHeaderSize else int (length (mg_body m))) in
        (case conn_send (MethodFrame (ch_id ch) 0 0 (Some m)) cn of
           (Ok _, cn) \<Rightarrow>
             (case conn_send (HeaderFrame (ch_id ch) (word_of_nat (ms_class (mg_type m))) 0 (word_of_nat (length (mg_body m))) (mg_props m)) cn of
                (Ok _, cn) \<Rightarrow> send_body (ch_id ch) (mg_body m) sz 0 sz cn
              | (Fail e, cn) \<Rightarrow> Some (Fail e, cn)
              | (Panic p, cn) \<Rightarrow> Some (Panic p, cn))
         | (Fail e, cn) \<Rightarrow> Some (Fail e, cn)
         | (Panic p, cn) \<Rightarrow> Some (Panic p, cn))
      else Some (conn_send (MethodFrame (ch_id ch) 0 0 (Some m)) cn))"

definition sendClosed :: "message \<Rightarrow> channel \<Rightarrow> connection \<Rightarrow> unit res \<times> connection" where
  "sendClosed m ch cn =
     (if mg_type m = channelCloseOk then conn_send (MethodFrame (ch_id ch) 0 0 (Some m)) cn else (Fail ErrClosed, cn))"

definition channel_send :: "message \<Rightarrow> channel \<Rightarrow> connection \<Rightarrow> (unit res \<times> connection) option" where
  "channel_send m ch cn = (if ch_open ch then sendOpen m ch cn else Some (sendClosed m ch cn))"

abbreviation plain :: "method_sig \<Rightarrow> arg list \<Rightarrow> message" where
  "plain t as \<equiv> \<lparr>mg_type = t, mg_args = as, mg_props = no_properties, mg_body = []\<rparr>"

text \<open>Publishing: the headers are validated before anything is sent; in confirm mode the message is counted.\<close>

definition Publish ::
  "string \<Rightarrow> string \<Rightarrow> bool \<Rightarrow> bool \<Rightarrow> properties \<Rightarrow> bytes \<Rightarrow> channel \<Rightarrow> connection \<Rightarrow> (unit res \<times> channel \<times> connection) option" where
  "Publish exchange key mandatory immediate props body ch cn =
     (case Validate (pr_Headers props) of
        Some e \<Rightarrow> Some (Fail e, ch, cn)
      | None \<Rightarrow>
          do {
            (r, cn) \<leftarrow> channel_send \<lparr>mg_type = basicPublish, mg_args = [AShort 0, AShortstr exchange, AShortstr key, ABits [mandatory, immediate]],
              mg_props = props\<lparr>pr_reserved1 := []\<rparr>, mg_body = body\<rparr> ch cn;
            Some (r, if r = Ok () \<and> ch_confirming ch then ch\<lparr>ch_confirms := snd (confirms_Publish (ch_confirms ch))\<rparr> else ch, cn)
          })"

section \<open>The registry\<close>

definition allocateChannel :: "connection \<Rightarrow> channel res \<times> connection" where
  "allocateChannel cn =
     (case alloc_next (cn_allocator cn) of
        (None, a) \<Rightarrow> (Fail ErrChannelMax, cn\<lparr>cn_allocator := a\<rparr>)
      | (Some i, a) \<Rightarrow>
          let ch = newChannel (word_of_int i) in
          (Ok ch, cn\<lparr>cn_allocator := a, cn_channels := gm_set (word_of_int i) ch (cn_channels cn)\<rparr>))"

definition releaseChannel :: "16 word \<Rightarrow> connection \<Rightarrow> unit res \<times> connection" where
  "releaseChannel i cn =
     (let cn = cn\<lparr>cn_channels := AList.delete i (cn_channels cn)\<rparr> in
      case alloc_release (uint i) (cn_allocator cn) of
        Ok a \<Rightarrow> (Ok (), cn\<lparr>cn_allocator := a\<rparr>)
      | Fail e \<Rightarrow> (Fail e, cn)
      | Panic p \<Rightarrow> (Panic p, cn))"

text \<open>The shutdown of a channel runs once; \<open>ch_noNotify\<close> says that it has.\<close>

definition channel_shutdown :: "amqp_error option \<Rightarrow> channel \<Rightarrow> channel" where
  "channel_shutdown e ch =
     (if ch_noNotify ch then ch
      else
        let ch = (case e of Some err \<Rightarrow> put_event (EvError err) (put_event (EvClose err) ch) | None \<Rightarrow> ch) in
        put_event EvClosed (ch\<lparr>ch_open := False, ch_consumers := [], ch_confirms := confirms_Close (ch_confirms ch), ch_noNotify := True\<rparr>))"

definition closeChannel :: "channel \<Rightarrow> amqp_error option \<Rightarrow> connection \<Rightarrow> channel \<times> unit res \<times> connection" where
  "closeChannel ch e cn = (let ch = channel_shutdown e ch; (r, cn) = releaseChannel (ch_id ch) cn in (ch, r, cn))"

section \<open>Receiving\<close>

definition confirm_with :: "64 word \<Rightarrow> bool \<Rightarrow> bool \<Rightarrow> channel \<Rightarrow> channel option" where
  "confirm_with tag multiple ack ch =
     (if \<not> ch_confirming ch then Some ch
      else if multiple then
        map_option (\<lambda>c. ch\<lparr>ch_confirms := c\<rparr>) (confirms_Multiple \<lparr>cf_DeliveryTag = tag, cf_Ack = ack\<rparr> (ch_confirms ch))
      else Some (ch\<lparr>ch_confirms := confirms_One \<lparr>cf_DeliveryTag = tag, cf_Ack = ack\<rparr> (ch_confirms ch)\<rparr>))"

text \<open>The results of the answers that are sent here are dropped by the source, panics apart.\<close>

definition answer :: "message \<Rightarrow> channel \<Rightarrow> connection \<Rightarrow> (unit res \<times> channel \<times> connection) option" where
  "answer m ch cn =
     do {
       (r, cn) \<leftarrow> channel_send m ch cn;
       Some (case r of Panic p \<Rightarrow> Panic p | _ \<Rightarrow> Ok (), ch, cn)
     }"

text \<open>The fields that the dispatch reads. A message of the type has them.\<close>

fun close_args :: "arg list \<Rightarrow> (16 word \<times> string) option" where
  "close_args (AShort code # AShortstr reply # _) = Some (code, reply)"
| "close_args _ = None"

fun flow_arg :: "arg list \<Rightarrow> bool option" where
  "flow_arg (ABits (active # _) # _) = Some active"
| "flow_arg _ = None"

fun tag_arg :: "arg list \<Rightarrow> string option" where
  "tag_arg (AShortstr tag # _) = Some tag"
| "tag_arg _ = None"

fun ack_args :: "arg list \<Rightarrow> (64 word \<times> bool) option" where
  "ack_args (ALongLong tag # ABits (multiple # _) # _) = Some (tag, multiple)"
| "ack_args _ = None"

definition dispatch :: "message \<Rightarrow> channel \<Rightarrow> connection \<Rightarrow> (unit res \<times> channel \<times> connection) option" where
  "dispatch m ch cn =
     (let t = mg_type m in
      if t = channelClose then
        (case close_args (mg_args m) of
           Some (code, reply) \<Rightarrow>
             (case closeChannel ch (Some (newError code reply)) cn of
                (ch, Panic p, cn) \<Rightarrow> Some (Panic p, ch, cn)
              | (ch, _, cn) \<Rightarrow> answer (plain channelCloseOk []) ch cn)
         | None \<Rightarrow> Some (Ok (), ch, cn))
      else if t = channelFlow then
        (case flow_arg (mg_args m) of
           Some active \<Rightarrow> answer (plain channelFlowOk [ABits [active]]) (put_event (EvFlow active) ch) cn
         | None \<Rightarrow> Some (Ok (), ch, cn))
      else if t = basicCancel then
        (case tag_arg (mg_args m) of
           Some tag \<Rightarrow> answer (plain basicCancelOk [AShortstr tag]) (put_event (EvCancel tag) ch) cn
         | None \<Rightarrow> Some (Ok (), ch, cn))
      else if t = basicReturn then Some (Ok (), put_event (EvReturn m) ch, cn)
      else if t = basicAck \<or> t = basicNack then
        (case ack_args (mg_args m) of
           Some (tag, multiple) \<Rightarrow> map_option (\<lambda>ch. (Ok (), ch, cn)) (confirm_with tag multiple (t = basicAck) ch)
         | None \<Rightarrow> Some (Ok (), ch, cn))
      else if t = basicDeliver then
        (case tag_arg (mg_args m) of
           Some tag \<Rightarrow> Some (Ok (), if tag \<in> set (ch_consumers ch) then put_event (EvDeliver tag m) ch else ch, cn)
         | None \<Rightarrow> Some (Ok (), ch, cn))
      else Some (Ok (), put_event (EvRpc m) ch, cn))"

definition transition :: "recv_state \<Rightarrow> (unit res \<times> channel \<times> connection) \<Rightarrow> unit res \<times> channel \<times> connection" where
  "transition s x = (case x of (Panic p, ch, cn) \<Rightarrow> (Panic p, ch, cn) | (r, ch, cn) \<Rightarrow> (Ok (), ch\<lparr>ch_recv := s\<rparr>, cn))"

definition unexpected_frame :: "channel \<Rightarrow> connection \<Rightarrow> (unit res \<times> channel \<times> connection) option" where
  "unexpected_frame ch cn = Some (Panic ''unexpected frame type'', ch, cn)"

fun recvMethod :: "amqp_frame \<Rightarrow> channel \<Rightarrow> connection \<Rightarrow> (unit res \<times> channel \<times> connection) option" where
  "recvMethod (MethodFrame _ _ _ (Some m)) ch cn =
     (if ms_content (mg_type m) then Some (Ok (), ch\<lparr>ch_body := [], ch_message := Some m, ch_recv := RecvHeader\<rparr>, cn)
      else map_option (transition RecvMethod) (dispatch m ch cn))"
| "recvMethod (HeaderFrame _ _ _ _ _) ch cn = Some (Ok (), ch\<lparr>ch_recv := RecvMethod\<rparr>, cn)"
| "recvMethod (BodyFrame _ _) ch cn = Some (Ok (), ch\<lparr>ch_recv := RecvMethod\<rparr>, cn)"
| "recvMethod _ ch cn = unexpected_frame ch cn"

text \<open>The message is complete: its content is set and it is dispatched.\<close>

definition complete :: "channel \<Rightarrow> connection \<Rightarrow> (unit res \<times> channel \<times> connection) option" where
  "complete ch cn =
     (case (ch_message ch, ch_header ch) of
        (Some m, Some (_, p)) \<Rightarrow> map_option (transition RecvMethod) (dispatch (m\<lparr>mg_props := p, mg_body := ch_body ch\<rparr>) ch cn)
      | _ \<Rightarrow> Some (Panic ''nil pointer dereference'', ch, cn))"

fun recvHeader :: "amqp_frame \<Rightarrow> channel \<Rightarrow> connection \<Rightarrow> (unit res \<times> channel \<times> connection) option" where
  "recvHeader (MethodFrame c k m msg) ch cn = recvMethod (MethodFrame c k m msg) ch cn"
| "recvHeader (HeaderFrame _ _ _ sz p) ch cn =
     (let ch = ch\<lparr>ch_header := Some (sz, p)\<rparr> in
      if sz = 0 then complete ch cn else Some (Ok (), ch\<lparr>ch_recv := RecvContent\<rparr>, cn))"
| "recvHeader (BodyFrame _ _) ch cn = Some (Ok (), ch\<lparr>ch_recv := RecvMethod\<rparr>, cn)"
| "recvHeader _ ch cn = unexpected_frame ch cn"

fun recvContent :: "amqp_frame \<Rightarrow> channel \<Rightarrow> connection \<Rightarrow> (unit res \<times> channel \<times> connection) option" where
  "recvContent (MethodFrame c k m msg) ch cn = recvMethod (MethodFrame c k m msg) ch cn"
| "recvContent (HeaderFrame _ _ _ _ _) ch cn = Some (Ok (), ch\<lparr>ch_recv := RecvMethod\<rparr>, cn)"
| "recvContent (BodyFrame _ b) ch cn =
     (let ch = ch\<lparr>ch_body := ch_body ch @ b\<rparr> in
      case ch_header ch of
        Some (sz, _) \<Rightarrow> if word_of_nat (length (ch_body ch)) \<ge> sz then complete ch cn else Some (Ok (), ch\<lparr>ch_recv := RecvContent\<rparr>, cn)
      | None \<Rightarrow> Some (Panic ''nil pointer dereference'', ch, cn))"
| "recvContent _ ch cn = unexpected_frame ch cn"

definition channel_recv :: "amqp_frame \<Rightarrow> channel \<Rightarrow> connection \<Rightarrow> (unit res \<times> channel \<times> connection) option" where
  "channel_recv f ch cn =
     (case ch_recv ch of RecvMethod \<Rightarrow> recvMethod f ch cn | RecvHeader \<Rightarrow> recvHeader f ch cn | RecvContent \<Rightarrow> recvContent f ch cn)"

text \<open>A frame on a channel of the registry; the channel may have left it when the call is over.\<close>

definition put_back :: "16 word \<Rightarrow> channel \<Rightarrow> connection \<Rightarrow> connection" where
  "put_back i ch cn = (case map_of (cn_channels cn) i of None \<Rightarrow> cn | Some _ \<Rightarrow> cn\<lparr>cn_channels := gm_set i ch (cn_channels cn)\<rparr>)"

section \<open>Calls\<close>

text \<open>What a call that waits receives: an error of a shutdown, a message, or the end of the Go channel.\<close>

datatype arrival = ArrError error | ArrMessage message | ArrEnd

definition channel_call ::
  "message \<Rightarrow> method_sig list \<Rightarrow> arrival \<Rightarrow> channel \<Rightarrow> connection \<Rightarrow> (message option res \<times> connection) option" where
  "channel_call req tries arrived ch cn =
     do {
       (r, cn) \<leftarrow> channel_send req ch cn;
       Some (case r of
           Ok _ \<Rightarrow>
             (if message_wait req then
                (case arrived of
                   ArrError e \<Rightarrow> (Fail e, cn)
                 | ArrMessage m \<Rightarrow> if mg_type m \<in> set tries then (Ok (Some m), cn) else (Fail ErrCommandInvalid, cn)
                 | ArrEnd \<Rightarrow> (Fail ErrClosed, cn))
              else (Ok None, cn))
         | Fail e \<Rightarrow> (Fail e, cn)
         | Panic p \<Rightarrow> (Panic p, cn))
     }"

definition openChannel :: "arrival \<Rightarrow> connection \<Rightarrow> (channel res \<times> connection) option" where
  "openChannel arrived cn =
     (case allocateChannel cn of
        (Ok ch, cn) \<Rightarrow>
          do {
            (r, cn) \<leftarrow> channel_call (plain channelOpen [AShortstr []]) [channelOpenOk] arrived ch cn;
            Some (case r of Ok _ \<Rightarrow> Ok ch | Fail e \<Rightarrow> Fail e | Panic p \<Rightarrow> Panic p, cn)
          }
      | (Fail e, cn) \<Rightarrow> Some (Fail e, cn)
      | (Panic p, cn) \<Rightarrow> Some (Panic p, cn))"

text \<open>The channel is closed on every way out.\<close>

definition Channel_Close :: "arrival \<Rightarrow> channel \<Rightarrow> connection \<Rightarrow> (unit res \<times> channel \<times> connection) option" where
  "Channel_Close arrived ch cn =
     do {
       (r, cn) \<leftarrow> channel_call (plain channelClose [AShort 200, AShortstr [], AShort 0, AShort 0]) [channelCloseOk] arrived ch cn;
       let (ch, r', cn) = closeChannel ch None cn in
       Some (case r' of Panic p \<Rightarrow> Panic p | _ \<Rightarrow> (case r of Ok _ \<Rightarrow> Ok () | Fail e \<Rightarrow> Fail e | Panic p \<Rightarrow> Panic p), ch, cn)
     }"

section \<open>The connection\<close>

definition cn_event :: "event \<Rightarrow> connection \<Rightarrow> connection" where
  "cn_event e cn = cn\<lparr>cn_out := cn_out cn @ [e]\<rparr>"

text \<open>It runs once. Every channel of the registry is closed.\<close>

definition conn_shutdown :: "amqp_error option \<Rightarrow> connection \<Rightarrow> connection" where
  "conn_shutdown e cn =
     (if cn_closed cn then cn
      else
        let cn = (case e of Some err \<Rightarrow> cn_event (EvClose err) cn | None \<Rightarrow> cn);
            cn = fold (\<lambda>(_, ch) cn. snd (snd (closeChannel ch e cn))) (cn_channels cn) cn;
            cn = (case e of Some err \<Rightarrow> cn_event (EvError err) cn | None \<Rightarrow> cn) in
        cn_event EvClosed (cn\<lparr>cn_closed := True\<rparr>))"

text \<open>
  \<^verbatim>\<open>closeWith\<close>, as the reader calls it: it sends the close and waits for the answer, which only the reader itself could
  deliver. It returns if the close cannot be sent.
\<close>

definition closeWith :: "amqp_error \<Rightarrow> connection \<Rightarrow> (unit res \<times> connection) option" where
  "closeWith e cn =
     (case conn_send (MethodFrame 0 0 0 (Some (plain connectionClose
          [AShort (word_of_nat (ae_Code e)), AShortstr (ae_Reason e), AShort 0, AShort 0]))) cn of
        (Ok _, cn) \<Rightarrow> None
      | (_, cn) \<Rightarrow> Some (Ok (), conn_shutdown (Some e) cn))"

definition ErrUnexpectedFrame :: amqp_error where
  "ErrUnexpectedFrame = \<lparr>ae_Code = 505, ae_Reason = ''unexpected frame received'', ae_Server = False, ae_Recover = False\<rparr>"

definition closed_error :: amqp_error where
  "closed_error = \<lparr>ae_Code = 504, ae_Reason = ''channel/connection is not open'', ae_Server = False, ae_Recover = False\<rparr>"

definition dispatch0 :: "amqp_frame \<Rightarrow> connection \<Rightarrow> (unit res \<times> connection) option" where
  "dispatch0 f cn =
     (case f of
        MethodFrame _ _ _ (Some m) \<Rightarrow>
          if mg_type m = connectionClose then
            (case close_args (mg_args m) of
               Some (code, reply) \<Rightarrow>
                 Some (Ok (), conn_shutdown (Some (newError code reply))
                   (snd (conn_send (MethodFrame 0 0 0 (Some (plain connectionCloseOk []))) cn)))
             | None \<Rightarrow> Some (Ok (), cn))
          else if mg_type m = connectionBlocked then
            (case tag_arg (mg_args m) of Some reason \<Rightarrow> Some (Ok (), cn_event (EvBlocked True reason) cn) | None \<Rightarrow> Some (Ok (), cn))
          else if mg_type m = connectionUnblocked then Some (Ok (), cn_event (EvBlocked False []) cn)
          else Some (Ok (), cn_event (EvRpc m) cn)
      | HeartbeatFrame _ \<Rightarrow> Some (Ok (), cn)
      | _ \<Rightarrow> closeWith ErrUnexpectedFrame cn)"

definition dispatchClosed :: "16 word \<Rightarrow> amqp_frame \<Rightarrow> connection \<Rightarrow> (unit res \<times> connection) option" where
  "dispatchClosed i f cn =
     (case f of
        MethodFrame _ _ _ (Some m) \<Rightarrow>
          if mg_type m = channelClose then Some (Ok (), snd (conn_send (MethodFrame i 0 0 (Some (plain channelCloseOk []))) cn))
          else if mg_type m = channelCloseOk then Some (Ok (), cn)
          else closeWith closed_error cn
      | _ \<Rightarrow> Some (Ok (), cn))"

definition dispatchN :: "16 word \<Rightarrow> amqp_frame \<Rightarrow> connection \<Rightarrow> (unit res \<times> connection) option" where
  "dispatchN i f cn =
     (case map_of (cn_channels cn) i of
        None \<Rightarrow> dispatchClosed i f cn
      | Some ch \<Rightarrow>
          do {
            (r, ch, cn) \<leftarrow> channel_recv f ch cn;
            Some (r, put_back i ch cn)
          })"

definition demux :: "amqp_frame \<Rightarrow> connection \<Rightarrow> (unit res \<times> connection) option" where
  "demux f cn =
     (case frame_channel f of
        Ok i \<Rightarrow> if i = 0 then dispatch0 f cn else dispatchN i f cn
      | Fail e \<Rightarrow> Some (Fail e, cn)
      | Panic p \<Rightarrow> Some (Panic p, cn))"

function conn_reader :: "bytes \<Rightarrow> connection \<Rightarrow> (unit res \<times> connection) option" where
  "conn_reader bs cn =
     (case ReadFrame bs of
        (Ok f, bs') \<Rightarrow>
          (case demux f cn of
             None \<Rightarrow> None
           | Some (Panic p, cn) \<Rightarrow> Some (Panic p, cn)
           | Some (_, cn) \<Rightarrow> conn_reader bs' cn)
      | (Fail e, bs') \<Rightarrow>
          Some (Ok (), conn_shutdown (Some \<lparr>ae_Code = 501, ae_Reason = (case e of Errorf t \<Rightarrow> t | _ \<Rightarrow> []), ae_Server = False, ae_Recover = False\<rparr>) cn)
      | (Panic p, bs') \<Rightarrow> Some (Panic p, cn))"
  by pat_completeness auto
termination
  by (relation "measure (\<lambda>(bs, _). length bs)") (auto dest: ReadFrame_Ok [OF sym])

declare conn_reader.simps [simp del]

subsection \<open>Tuning\<close>

definition maxChannelMax :: int where "maxChannelMax = 65535"

definition pick :: "int \<Rightarrow> int \<Rightarrow> int" where
  "pick client server = (if client = 0 \<or> server = 0 then max client server else min client server)"

text \<open>The numbers that \<^verbatim>\<open>openTune\<close> settles and the registry that \<^verbatim>\<open>openComplete\<close> makes for them.\<close>

definition tune_connection :: "int \<Rightarrow> int \<Rightarrow> 16 word \<Rightarrow> 32 word \<Rightarrow> connection \<Rightarrow> connection" where
  "tune_connection clientMax clientFrame serverMax serverFrame cn =
     (let m = pick clientMax (uint serverMax); m = (if m = 0 then maxChannelMax else m) in
      cn\<lparr>cn_ChannelMax := min m maxChannelMax, cn_FrameSize := pick clientFrame (uint serverFrame)\<rparr>)"

definition openComplete :: "connection \<Rightarrow> connection" where
  "openComplete cn = cn\<lparr>cn_allocator := newAllocator 1 (cn_ChannelMax cn)\<rparr>"

end
