(* ===== verification/Amqp_Channel_Correct.thy ===== *)
theory Amqp_Channel_Correct
  imports Amqp_Channel
begin

text \<open>
  A message that a channel sends is cut into frames, and a channel of the library on the other side puts it together
  again: the same method, properties and bytes, delivered once. And the registry: open channels have different
  numbers.
\<close>

section \<open>Sending\<close>

function chunks :: "nat \<Rightarrow> 'a list \<Rightarrow> 'a list list" where
  "chunks n xs = (if n = 0 \<or> xs = [] then [] else take n xs # chunks n (drop n xs))"
  by pat_completeness auto
termination
  by (relation "measure (\<lambda>(_, xs). length xs)") auto

declare chunks.simps [simp del]

definition body_bytes :: "16 word \<Rightarrow> nat \<Rightarrow> bytes \<Rightarrow> bytes" where
  "body_bytes chan n body = concat (map (\<lambda>c. writeFrame frameBody chan c) (chunks n body))"

lemma body_bytes_step:
  "body_bytes chan n xs = (if n = 0 \<or> xs = [] then [] else writeFrame frameBody chan (take n xs) @ body_bytes chan n (drop n xs))"
  unfolding body_bytes_def by (subst chunks.simps) simp

lemma conn_send_up:
  "cn_script cn = [] \<Longrightarrow> frame_write f = Inr b \<Longrightarrow> conn_send f cn = (Ok (), cn\<lparr>cn_wire := cn_wire cn @ b\<rparr>)"
  by (simp add: conn_send_def)

lemma send_body_up:
  assumes "cn_script cn = []" and "0 < sz" and "0 \<le> i"
  shows "send_body chan body sz i (i + sz) cn =
    Some (Ok (), cn\<lparr>cn_wire := cn_wire cn @ body_bytes chan (nat sz) (drop (nat i) body)\<rparr>)"
  using assms
proof (induction "nat (int (length body) - i)" arbitrary: i cn rule: less_induct)
  case less
  show ?case
  proof (cases "i < int (length body)")
    case True
    define j where "j = min (i + sz) (int (length body))"
    have j: "j = (if i + sz > int (length body) then int (length body) else i + sz)" "i < j" using True less.prems by (auto simp: j_def)
    have tk: "take (nat (j - i)) (drop (nat i) body) = take (nat sz) (drop (nat i) body)"
      and dr: "drop (nat j) body = drop (nat sz) (drop (nat i) body)"
      using True less.prems by (auto simp: j_def min_def nat_diff_distrib nat_add_distrib add.commute)
    let ?cn = "cn\<lparr>cn_wire := cn_wire cn @ writeFrame frameBody chan (take (nat sz) (drop (nat i) body))\<rparr>"
    have "send_body chan body sz i (i + sz) cn = send_body chan body sz j (j + sz) ?cn"
      using True j less.prems by (subst send_body.simps) (simp add: Let_def conn_send_up tk flip: j(1))
    also have "\<dots> = Some (Ok (), ?cn\<lparr>cn_wire := cn_wire ?cn @ body_bytes chan (nat sz) (drop (nat j) body)\<rparr>)"
      using True j less.prems by (intro less.hyps) auto
    finally show ?thesis using True less.prems by (subst body_bytes_step) (simp add: dr nat_less_iff)
  next
    case False
    then show ?thesis by (subst send_body.simps) (simp add: body_bytes_step)
  qed
qed

definition message_ok :: "message \<Rightarrow> bool" where
  "message_ok m \<longleftrightarrow> mg_type m \<in> set methods \<and> ms_content (mg_type m) \<and> args_ok (ms_args (mg_type m)) (mg_args m) \<and>
     properties_ok (mg_props m) \<and> length (mg_body m) < 2 ^ 32"

text \<open>A frame size that is not in the way: unlimited, or with room for at least one byte of a body.\<close>

definition frame_size_ok :: "connection \<Rightarrow> bool" where
  "frame_size_ok cn \<longleftrightarrow> cn_FrameSize cn \<le> 0 \<or> cn_FrameSize cn > frameHeaderSize"

definition part_size :: "connection \<Rightarrow> message \<Rightarrow> int" where
  "part_size cn m = (if cn_FrameSize cn > 0 then cn_FrameSize cn - frameHeaderSize else int (length (mg_body m)))"

definition header_frame :: "16 word \<Rightarrow> message \<Rightarrow> amqp_frame" where
  "header_frame i m = HeaderFrame i (word_of_nat (ms_class (mg_type m))) 0 (word_of_nat (length (mg_body m))) (mg_props m)"

lemma sendOpen_up:
  assumes "message_ok m" and "cn_script cn = []" and "frame_size_ok cn" and "ch_id ch = i"
  obtains b1 b2 where "frame_write (MethodFrame i 0 0 (Some m)) = Inr b1" and "frame_write (header_frame i m) = Inr b2"
    and "sendOpen m ch cn = Some (Ok (), cn\<lparr>cn_wire := cn_wire cn @ b1 @ b2 @ body_bytes i (nat (part_size cn m)) (mg_body m)\<rparr>)"
proof -
  obtain b1 where b1: "frame_write (MethodFrame i 0 0 (Some m)) = Inr b1"
    using frame_ok_writes [of "MethodFrame i 0 0 (Some m)"] assms(1) by (auto simp: message_ok_def)
  obtain b2 where b2: "frame_write (header_frame i m) = Inr b2"
    using frame_ok_writes [of "header_frame i m"] assms(1) by (auto simp: message_ok_def header_frame_def)
  let ?cn = "cn\<lparr>cn_wire := cn_wire cn @ b1 @ b2\<rparr>" and ?sz = "part_size cn m"
  have "send_body i (mg_body m) ?sz 0 ?sz ?cn = Some (Ok (), ?cn\<lparr>cn_wire := cn_wire ?cn @ body_bytes i (nat ?sz) (mg_body m)\<rparr>)"
  proof (cases "mg_body m = []")
    case True
    then show ?thesis by (subst send_body.simps) (simp add: body_bytes_step)
  next
    case False
    then have "0 < ?sz" using assms(3) by (auto simp: part_size_def frame_size_ok_def)
    then show ?thesis using send_body_up [of ?cn ?sz 0 i "mg_body m"] assms(2) by simp
  qed
  moreover have "sendOpen m ch cn = send_body i (mg_body m) ?sz 0 ?sz ?cn"
    using assms b1 b2 by (simp add: sendOpen_def conn_send_up message_ok_def part_size_def header_frame_def Let_def)
  ultimately show thesis using that b1 b2 by simp
qed

section \<open>Receiving\<close>

lemma gm_set_again: "gm_set k b (gm_set k a m) = gm_set k b m"
  by (induction k a m rule: gm_set.induct) auto

lemma gm_set_same: "map_of m k = Some v \<Longrightarrow> gm_set k v m = m"
  by (induction k v m rule: gm_set.induct) (auto split: if_splits)

abbreviation in_registry :: "16 word \<Rightarrow> channel \<Rightarrow> connection \<Rightarrow> connection" where
  "in_registry i ch cn \<equiv> cn\<lparr>cn_channels := gm_set i ch (cn_channels cn)\<rparr>"

text \<open>One frame on channel \<open>i\<close>.\<close>

lemma reader_step:
  assumes "frame_ok f" and "frame_write f = Inr b" and "frame_channel (arrives f) = Ok i" and "i \<noteq> 0"
    and "channel_recv (arrives f) ch (in_registry i ch cn) = Some (Ok (), ch', in_registry i ch cn)"
  shows "conn_reader (b @ r) (in_registry i ch cn) = conn_reader r (in_registry i ch' cn)"
proof -
  have "demux (arrives f) (in_registry i ch cn) = Some (Ok (), in_registry i ch' cn)"
    using assms(3-5) by (simp add: demux_def dispatchN_def put_back_def gm_set_again)
  then show ?thesis using frame_round_trip [OF assms(1,2)] by (subst conn_reader.simps) simp
qed

text \<open>What the client sees of a message with content.\<close>

definition events_of :: "message \<Rightarrow> string list \<Rightarrow> event list" where
  "events_of m tags =
     (if mg_type m = basicReturn then [EvReturn m]
      else if mg_type m = basicDeliver then
        (case tag_arg (mg_args m) of Some tag \<Rightarrow> if tag \<in> set tags then [EvDeliver tag m] else [] | None \<Rightarrow> [])
      else [EvRpc m])"

lemma filter_content: "filter ms_content methods = [basicPublish, basicReturn, basicDeliver, basicGetOk]"
  by code_simp

lemma content_methods: "s \<in> set methods \<Longrightarrow> ms_content s \<Longrightarrow> s \<in> {basicPublish, basicReturn, basicDeliver, basicGetOk}"
proof -
  assume "s \<in> set methods" "ms_content s"
  then have "s \<in> set (filter ms_content methods)" by simp
  then show ?thesis unfolding filter_content by simp
qed

lemma dispatch_content:
  assumes "mg_type m \<in> set methods" and "ms_content (mg_type m)"
  shows "dispatch m ch cn = Some (Ok (), ch\<lparr>ch_out := ch_out ch @ events_of m (ch_consumers ch)\<rparr>, cn)"
proof -
  have "mg_type m \<in> {basicPublish, basicReturn, basicDeliver, basicGetOk}" using content_methods assms by blast
  then show ?thesis
    by (auto simp: dispatch_def events_of_def put_event_def method_sig_defs split: option.split)
qed

text \<open>The channel when a message is complete.\<close>

definition delivered :: "message \<Rightarrow> channel \<Rightarrow> channel" where
  "delivered m ch = ch\<lparr>ch_recv := RecvMethod, ch_message := Some (m\<lparr>mg_props := no_properties, mg_body := []\<rparr>),
     ch_header := Some (word_of_nat (length (mg_body m)), mg_props m), ch_body := mg_body m,
     ch_out := ch_out ch @ events_of m (ch_consumers ch)\<rparr>"

text \<open>The channel while the body of a message arrives, with \<open>b\<close> of it here.\<close>

definition collecting :: "message \<Rightarrow> bytes \<Rightarrow> channel \<Rightarrow> channel" where
  "collecting m b ch = ch\<lparr>ch_recv := RecvContent, ch_message := Some (m\<lparr>mg_props := no_properties, mg_body := []\<rparr>),
     ch_header := Some (word_of_nat (length (mg_body m)), mg_props m), ch_body := b\<rparr>"

lemma complete_delivers:
  assumes "message_ok m"
  shows "complete (collecting m (mg_body m) ch) cn = Some (Ok (), delivered m ch, cn)"
    and "complete ((collecting m (mg_body m) ch)\<lparr>ch_recv := s\<rparr>) cn = Some (Ok (), delivered m ch, cn)"
  using assms dispatch_content [of m]
  by (simp_all add: complete_def collecting_def message_ok_def transition_def delivered_def)

lemma collecting_simps:
  "ch_body (collecting m b ch) = b" "ch_header (collecting m b ch) = Some (word_of_nat (length (mg_body m)), mg_props m)"
  "ch_recv (collecting m b ch) = RecvContent"
  "(collecting m b ch)\<lparr>ch_recv := RecvContent\<rparr> = collecting m b ch" "(collecting m b ch)\<lparr>ch_body := c\<rparr> = collecting m c ch"
  by (simp_all add: collecting_def)

lemma recv_part:
  assumes "message_ok m" and "mg_body m = b @ c @ d"
  shows "recvContent (BodyFrame i c) (collecting m b ch) cn =
    Some (Ok (), if d = [] then delivered m ch else collecting m (b @ c) ch, cn)"
proof -
  have le: "(word_of_nat (length (mg_body m)) :: 64 word) \<le> word_of_nat (length (b @ c)) \<longleftrightarrow> d = []"
    using assms by (subst word_tag_le) (auto simp: message_ok_def)
  have "d = [] \<Longrightarrow> mg_body m = b @ c" using assms(2) by simp
  then have "d = [] \<Longrightarrow> complete (collecting m (b @ c) ch) cn = Some (Ok (), delivered m ch, cn)"
    using complete_delivers(1) [OF assms(1)] by simp
  then show ?thesis by (simp add: Let_def collecting_simps le del: length_append)
qed

lemma reader_body:
  assumes "message_ok m" and "i \<noteq> 0" and "0 < n" and "mg_body m = b @ d" and "d \<noteq> []"
  shows "conn_reader (body_bytes i n d @ r) (in_registry i (collecting m b ch) cn) = conn_reader r (in_registry i (delivered m ch) cn)"
  using assms
proof (induction d arbitrary: b rule: length_induct)
  case (1 d)
  let ?c = "take n d" and ?d = "drop n d"
  have f: "frame_ok (BodyFrame i ?c)" "frame_write (BodyFrame i ?c) = Inr (writeFrame frameBody i ?c)"
    using "1.prems"(1,4) by (auto simp: message_ok_def)
  have "mg_body m = b @ ?c @ ?d" using "1.prems"(4) by simp
  note rec = recv_part [OF "1.prems"(1) this, of i ch]
  have "channel_recv (BodyFrame i ?c) (collecting m b ch) cn' = Some (Ok (), if ?d = [] then delivered m ch else collecting m (b @ ?c) ch, cn')" for cn'
    using rec by (simp add: channel_recv_def collecting_simps)
  then have step: "conn_reader (writeFrame frameBody i ?c @ x) (in_registry i (collecting m b ch) cn) =
      conn_reader x (in_registry i (if ?d = [] then delivered m ch else collecting m (b @ ?c) ch) cn)" for x
    using reader_step [OF f] "1.prems"(2) by simp
  have bb: "body_bytes i n d = writeFrame frameBody i ?c @ body_bytes i n ?d" using "1.prems"(3,5) by (subst body_bytes_step) simp
  show ?case
  proof (cases "?d = []")
    case True
    then show ?thesis using step [of r] bb by (simp add: body_bytes_step)
  next
    case False
    then have "conn_reader (body_bytes i n ?d @ r) (in_registry i (collecting m (b @ ?c) ch) cn) = conn_reader r (in_registry i (delivered m ch) cn)"
      using 1 by simp
    then show ?thesis using step [of "body_bytes i n ?d @ r"] bb False by simp
  qed
qed

text \<open>The message that \<open>sendOpen_up\<close> writes, at the other end.\<close>

lemma reader_message:
  assumes "message_ok m" and "i \<noteq> 0" and "0 < n \<or> mg_body m = []" and "map_of (cn_channels cn) i = Some ch" and "ch_recv ch = RecvMethod"
    and "frame_write (MethodFrame i 0 0 (Some m)) = Inr b1" and "frame_write (header_frame i m) = Inr b2"
  shows "conn_reader ((b1 @ b2 @ body_bytes i n (mg_body m)) @ r) cn = conn_reader r (in_registry i (delivered m ch) cn)"
proof -
  let ?m = "m\<lparr>mg_props := no_properties, mg_body := []\<rparr>"
  let ?ch = "ch\<lparr>ch_body := [], ch_message := Some ?m, ch_recv := RecvHeader\<rparr>"
  have cn: "in_registry i ch cn = cn" using gm_set_same [OF assms(4)] by simp
  have ok: "frame_ok (MethodFrame i 0 0 (Some m))" "frame_ok (header_frame i m)"
    using assms(1) by (simp_all add: message_ok_def header_frame_def)
  have 1: "conn_reader (b1 @ x) cn = conn_reader x (in_registry i ?ch cn)" for x
    using reader_step [OF ok(1) assms(6), of i ch cn ?ch x] assms(1,2,5) cn by (simp add: channel_recv_def message_ok_def)
  have col: "(?ch\<lparr>ch_header := Some (word_of_nat (length (mg_body m)), mg_props m)\<rparr>) = (collecting m [] ch)\<lparr>ch_recv := RecvHeader\<rparr>"
    by (simp add: collecting_def)
  have "(word_of_nat (length (mg_body m)) :: 64 word) = 0 \<longleftrightarrow> mg_body m = []"
    using assms(1) word_tag_eq [of "length (mg_body m)" 0] by (simp add: message_ok_def)
  then have "channel_recv (header_frame i m) ?ch cn' = Some (Ok (), if mg_body m = [] then delivered m ch else collecting m [] ch, cn')" for cn'
    using complete_delivers(2) [OF assms(1), of RecvHeader ch cn'] col
    by (cases ch) (auto simp: channel_recv_def header_frame_def Let_def collecting_def)
  then have 2: "conn_reader (b2 @ x) (in_registry i ?ch cn) =
      conn_reader x (in_registry i (if mg_body m = [] then delivered m ch else collecting m [] ch) cn)" for x
    using reader_step [OF ok(2) assms(7)] assms(2) by (simp add: header_frame_def)
  show ?thesis
    using 1 [of "b2 @ body_bytes i n (mg_body m) @ r"] 2 [of "body_bytes i n (mg_body m) @ r"] reader_body [OF assms(1,2), of n "[]" "mg_body m" r ch cn] assms(3)
    by (auto simp: body_bytes_step)
qed

end
