(* ===== verification/Amqp_Registry.thy ===== *)
theory Amqp_Registry
  imports Amqp_Channel
begin

text \<open>
  The registry of channels of a connection over time: whatever channels are opened and closed and whatever frames
  arrive, the numbers in use are those of the channels in the registry, each of a channel that has it.
\<close>

section \<open>What leaves the registry alone\<close>

definition reg :: "connection \<Rightarrow> allocator \<times> (16 word \<times> channel) list \<times> int" where
  "reg cn = (cn_allocator cn, cn_channels cn, cn_ChannelMax cn)"

lemma reg_simps [simp]:
  "reg (cn\<lparr>cn_wire := w\<rparr>) = reg cn" "reg (cn\<lparr>cn_script := s\<rparr>) = reg cn" "reg (cn\<lparr>cn_down := d\<rparr>) = reg cn"
  "reg (cn\<lparr>cn_closed := d\<rparr>) = reg cn" "reg (cn\<lparr>cn_out := e\<rparr>) = reg cn" "reg (cn_event ev cn) = reg cn"
  by (simp_all add: reg_def cn_event_def)

lemma reg_send: "conn_send f cn = (r, cn') \<Longrightarrow> reg cn' = reg cn"
  by (auto simp: conn_send_def split: sum.splits list.splits option.splits)

lemma reg_send_body: "send_body chan body sz i j cn = Some (r, cn') \<Longrightarrow> reg cn' = reg cn"
proof -
  assume a: "send_body chan body sz i j cn = Some (r, cn')"
  have "reg (snd (r, cn')) = reg cn"
  proof (rule send_body.raw_induct [OF _ a], goal_cases)
    case (1 f chan body sz i j cn y)
    show ?case
    proof (cases "i < int (length body) \<and> i \<le> min j (int (length body))")
      case True
      let ?j = "if j > int (length body) then int (length body) else j"
      obtain r1 cn1 where s: "conn_send (BodyFrame chan (take (nat (?j - i)) (drop (nat i) body))) cn = (r1, cn1)" by fastforce
      show ?thesis using 1 True s reg_send [OF s] by (auto simp: Let_def split: res.splits if_splits)
    next
      case False
      then show ?thesis using 1(2) by (auto simp: Let_def split: if_splits)
    qed
  qed
  then show ?thesis by simp
qed

lemma reg_sendOpen: "sendOpen m ch cn = Some (r, cn') \<Longrightarrow> reg cn' = reg cn"
  by (auto simp: sendOpen_def Let_def dest!: reg_send reg_send_body split: if_splits prod.splits res.splits)

lemma reg_channel_send: "channel_send m ch cn = Some (r, cn') \<Longrightarrow> reg cn' = reg cn"
  by (auto simp: channel_send_def sendClosed_def dest: reg_sendOpen reg_send split: if_splits)

lemma reg_answer: "answer m ch cn = Some (r, ch', cn') \<Longrightarrow> reg cn' = reg cn \<and> ch' = ch"
  by (auto simp: answer_def dest: reg_channel_send split: bind_splits)

section \<open>The invariant\<close>

definition registry_ok :: "connection \<Rightarrow> bool" where
  "registry_ok cn \<longleftrightarrow> al_ok (cn_allocator cn) \<and> al_range (cn_allocator cn) = {1..cn_ChannelMax cn} \<and> cn_ChannelMax cn \<le> 65535 \<and>
     gm_ok (cn_channels cn) \<and> uint ` dom (map_of (cn_channels cn)) = al_used (cn_allocator cn) \<and>
     (\<forall>i ch. map_of (cn_channels cn) i = Some ch \<longrightarrow> ch_id ch = i)"

lemma registry_ok_reg: "reg cn' = reg cn \<Longrightarrow> registry_ok cn' = registry_ok cn"
  by (simp add: registry_ok_def reg_def)

lemma registry_range: "registry_ok cn \<Longrightarrow> al_range (cn_allocator cn) = {1..cn_ChannelMax cn}"
  by (simp add: registry_ok_def)

lemma al_used_range: "al_used a \<subseteq> al_range a"
  by (auto simp: al_used_def)

lemma registered_range: "registry_ok cn \<Longrightarrow> map_of (cn_channels cn) i = Some ch \<Longrightarrow> uint i \<in> al_range (cn_allocator cn)"
  unfolding registry_ok_def using al_used_range by blast

lemma registered_id: "registry_ok cn \<Longrightarrow> map_of (cn_channels cn) i = Some ch \<Longrightarrow> ch_id ch = i"
  and registry_gm_ok: "registry_ok cn \<Longrightarrow> gm_ok (cn_channels cn)"
  unfolding registry_ok_def by blast+

text \<open>A number in the range is the value of a 16-bit word.\<close>

lemma channel_number: "registry_ok cn \<Longrightarrow> n \<in> al_range (cn_allocator cn) \<Longrightarrow> uint (word_of_int n :: 16 word) = n"
  by (auto simp: registry_ok_def uint_word_of_int_eq take_bit_int_eq_self_iff)

lemma registry_release:
  assumes "registry_ok cn" and "uint i \<in> al_range (cn_allocator cn)"
  shows "\<exists>a. releaseChannel i cn = (Ok (), cn\<lparr>cn_channels := AList.delete i (cn_channels cn), cn_allocator := a\<rparr>) \<and>
    registry_ok (snd (releaseChannel i cn))"
proof -
  obtain a where a: "alloc_release (uint i) (cn_allocator cn) = Ok a" "al_ok a" "al_range a = al_range (cn_allocator cn)"
      "al_used a = al_used (cn_allocator cn) - {uint i}"
    using alloc.free_ok [OF _ assms(2)] assms(1) by (auto simp: registry_ok_def)
  have "uint ` dom (map_of (AList.delete i (cn_channels cn))) = uint ` dom (map_of (cn_channels cn)) - {uint i}"
    by (auto simp: delete_conv' dom_def word_uint_eq_iff split: if_splits)
  then show ?thesis
    using assms(1) a by (auto simp: releaseChannel_def registry_ok_def distinct_delete delete_conv' split: if_splits)
qed

lemma registry_close:
  assumes "registry_ok cn" and "uint (ch_id ch) \<in> al_range (cn_allocator cn)" and "closeChannel ch e cn = (ch', r, cn')"
  shows "r = Ok () \<and> registry_ok cn' \<and> ch_id ch' = ch_id ch \<and> al_range (cn_allocator cn') = al_range (cn_allocator cn) \<and>
    map_of (cn_channels cn') = (map_of (cn_channels cn))(ch_id ch := None)"
proof -
  have i: "ch_id (channel_shutdown e ch) = ch_id ch" by (simp add: channel_shutdown_def put_event_def Let_def split: option.split)
  obtain a where a: "releaseChannel (ch_id ch) cn = (Ok (), cn\<lparr>cn_channels := AList.delete (ch_id ch) (cn_channels cn), cn_allocator := a\<rparr>)"
      "registry_ok (snd (releaseChannel (ch_id ch) cn))"
    using registry_release [OF assms(1,2)] by blast
  have cn': "ch' = channel_shutdown e ch" "r = Ok ()" "cn' = cn\<lparr>cn_channels := AList.delete (ch_id ch) (cn_channels cn), cn_allocator := a\<rparr>"
    using assms(3) i a(1) by (simp_all add: closeChannel_def Let_def)
  then have ok: "registry_ok cn'" using a by simp
  have "al_range (cn_allocator cn') = al_range (cn_allocator cn)"
    using registry_range [OF ok] registry_range [OF assms(1)] cn'(3) by simp
  then show ?thesis using ok cn' i by (simp add: delete_conv')
qed

lemma registry_allocate:
  assumes "registry_ok cn" and "allocateChannel cn = (r, cn')"
  shows "registry_ok cn'"
    and "case r of
       Ok ch \<Rightarrow> map_of (cn_channels cn) (ch_id ch) = None \<and> map_of (cn_channels cn') = (map_of (cn_channels cn))(ch_id ch \<mapsto> ch) \<and>
         uint (ch_id ch) \<in> {1..cn_ChannelMax cn}
     | Fail e \<Rightarrow> e = ErrChannelMax \<and> cn_channels cn' = cn_channels cn \<and> uint ` dom (map_of (cn_channels cn)) = {1..cn_ChannelMax cn}
     | Panic p \<Rightarrow> False"
proof -
  obtain n a where n: "alloc_next (cn_allocator cn) = (n, a)" by fastforce
  have ok: "al_ok (cn_allocator cn)" using assms(1) by (simp add: registry_ok_def)
  note a = alloc.fresh_ok [OF ok n]
  have "registry_ok cn' \<and> (case r of
       Ok ch \<Rightarrow> map_of (cn_channels cn) (ch_id ch) = None \<and> map_of (cn_channels cn') = (map_of (cn_channels cn))(ch_id ch \<mapsto> ch) \<and>
         uint (ch_id ch) \<in> {1..cn_ChannelMax cn}
     | Fail e \<Rightarrow> e = ErrChannelMax \<and> cn_channels cn' = cn_channels cn \<and> uint ` dom (map_of (cn_channels cn)) = {1..cn_ChannelMax cn}
     | Panic p \<Rightarrow> False)"
  proof (cases n)
    case None
    then have "r = Fail ErrChannelMax" "cn' = cn\<lparr>cn_allocator := a\<rparr>" using n assms(2) by (auto simp: allocateChannel_def)
    then show ?thesis using alloc.fresh_None [OF ok, of a] n a assms(1) None by (simp add: registry_ok_def)
  next
    case (Some k)
    note f = alloc.fresh_Some [OF ok n [unfolded Some]]
    have u: "uint (word_of_int k :: 16 word) = k" using channel_number [OF assms(1)] f by simp
    then have "word_of_int k \<notin> dom (map_of (cn_channels cn))" using f assms(1) by (metis image_eqI registry_ok_def)
    moreover have "r = Ok (newChannel (word_of_int k))"
        "cn' = cn\<lparr>cn_allocator := a, cn_channels := gm_set (word_of_int k) (newChannel (word_of_int k)) (cn_channels cn)\<rparr>"
      using n Some assms(2) by (auto simp: allocateChannel_def Let_def)
    ultimately show ?thesis
      using f a assms(1) u by (simp add: registry_ok_def newChannel_def domIff)
  qed
  then show "registry_ok cn'" and "case r of
       Ok ch \<Rightarrow> map_of (cn_channels cn) (ch_id ch) = None \<and> map_of (cn_channels cn') = (map_of (cn_channels cn))(ch_id ch \<mapsto> ch) \<and>
         uint (ch_id ch) \<in> {1..cn_ChannelMax cn}
     | Fail e \<Rightarrow> e = ErrChannelMax \<and> cn_channels cn' = cn_channels cn \<and> uint ` dom (map_of (cn_channels cn)) = {1..cn_ChannelMax cn}
     | Panic p \<Rightarrow> False"
    by auto
qed

section \<open>Frames that arrive\<close>

lemma registry_dispatch:
  assumes "dispatch m ch cn = Some (r, ch', cn')" and "registry_ok cn" and "uint (ch_id ch) \<in> al_range (cn_allocator cn)"
  shows "registry_ok cn' \<and> ch_id ch' = ch_id ch"
proof (cases "mg_type m = channelClose")
  case True
  show ?thesis
  proof (cases "close_args (mg_args m)")
    case None
    then show ?thesis using assms True by (auto simp: dispatch_def)
  next
    case (Some p)
    obtain code reply where p: "p = (code, reply)" by fastforce
    obtain ch1 r1 cn1 where c: "closeChannel ch (Some (newError code reply)) cn = (ch1, r1, cn1)" by (metis prod_cases3)
    note k = registry_close [OF assms(2,3) c]
    then have "answer (plain channelCloseOk []) ch1 cn1 = Some (r, ch', cn')"
      using assms(1) Some p True c by (simp add: dispatch_def)
    from reg_answer [OF this] show ?thesis using k registry_ok_reg [of cn' cn1] by simp
  qed
next
  case False
  then have "reg cn' = reg cn \<and> ch_id ch' = ch_id ch"
    using assms(1) unfolding dispatch_def Let_def
    by (auto simp: put_event_def confirm_with_def dest!: reg_answer split: if_splits option.splits)
  then show ?thesis using registry_ok_reg assms(2) by blast
qed

lemma registry_transition: "transition s x = (r, ch, cn) \<Longrightarrow> cn = snd (snd x) \<and> ch_id ch = ch_id (fst (snd x))"
  by (auto simp: transition_def split: prod.splits res.splits)

lemma registry_complete:
  assumes "complete ch cn = Some (r, ch', cn')" and "registry_ok cn" and "uint (ch_id ch) \<in> al_range (cn_allocator cn)"
  shows "registry_ok cn' \<and> ch_id ch' = ch_id ch"
proof -
  have "registry_ok (snd (snd x)) \<and> ch_id (fst (snd x)) = ch_id ch" if "dispatch m ch cn = Some x" for m x
    using registry_dispatch [of m ch cn "fst x" "fst (snd x)" "snd (snd x)"] that assms(2,3) by simp
  then show ?thesis
    using assms(1,2) by (auto simp: complete_def dest!: registry_transition split: option.splits)
qed

lemma registry_recvMethod:
  assumes "recvMethod f ch cn = Some (r, ch', cn')" and "registry_ok cn" and "uint (ch_id ch) \<in> al_range (cn_allocator cn)"
  shows "registry_ok cn' \<and> ch_id ch' = ch_id ch"
proof -
  have "registry_ok (snd (snd x)) \<and> ch_id (fst (snd x)) = ch_id ch" if "dispatch m ch cn = Some x" for m x
    using registry_dispatch [of m ch cn "fst x" "fst (snd x)" "snd (snd x)"] that assms(2,3) by simp
  then show ?thesis
    using assms(1,2)
    by (cases "(f, ch, cn)" rule: recvMethod.cases) (auto simp: unexpected_frame_def dest!: registry_transition split: if_splits)
qed

lemma registry_recv:
  assumes "channel_recv f ch cn = Some (r, ch', cn')" and "registry_ok cn" and "uint (ch_id ch) \<in> al_range (cn_allocator cn)"
  shows "registry_ok cn' \<and> ch_id ch' = ch_id ch"
proof -
  have "registry_ok cn' \<and> ch_id ch' = ch_id ch" if "recvHeader f ch cn = Some (r, ch', cn')"
    using that registry_recvMethod [OF _ assms(2,3)] registry_complete [of "ch\<lparr>ch_header := h\<rparr>" cn r ch' cn' for h] assms(2,3)
    by (cases "(f, ch, cn)" rule: recvHeader.cases) (auto simp: unexpected_frame_def Let_def split: if_splits)
  moreover have "registry_ok cn' \<and> ch_id ch' = ch_id ch" if "recvContent f ch cn = Some (r, ch', cn')"
    using that registry_recvMethod [OF _ assms(2,3)] registry_complete [of "ch\<lparr>ch_body := h\<rparr>" cn r ch' cn' for h] assms(2,3)
    by (cases "(f, ch, cn)" rule: recvContent.cases) (auto simp: unexpected_frame_def Let_def split: if_splits option.splits)
  ultimately show ?thesis
    using assms(1) registry_recvMethod [OF _ assms(2,3)] by (auto simp: channel_recv_def split: recv_state.splits)
qed

lemma registry_put_back: "registry_ok cn \<Longrightarrow> ch_id ch = i \<Longrightarrow> registry_ok (put_back i ch cn)"
  by (auto simp: put_back_def registry_ok_def insert_absorb domIff simp del: map_of_eq_Some_iff split: option.split if_splits)

lemma registry_ok_event: "registry_ok (cn\<lparr>cn_out := x\<rparr>) = registry_ok cn" "registry_ok (cn\<lparr>cn_closed := b\<rparr>) = registry_ok cn"
  by (simp_all add: registry_ok_def)

lemma registry_shutdown:
  assumes "registry_ok cn"
  shows "registry_ok (conn_shutdown e cn)"
proof -
  let ?close = "\<lambda>(_ :: 16 word, ch) cn. snd (snd (closeChannel ch e cn))"
  have fold: "registry_ok (fold ?close xs c)"
    if "registry_ok c" "\<forall>(_, ch) \<in> set xs. uint (ch_id ch) \<in> al_range (cn_allocator c)" for xs c
    using that
  proof (induction xs arbitrary: c)
    case (Cons x xs)
    obtain i ch where x: "x = (i, ch)" by fastforce
    obtain ch' r c' where c: "closeChannel ch e c = (ch', r, c')" by (metis prod_cases3)
    note k = registry_close [OF Cons.prems(1) _ c]
    then have "registry_ok c'" "\<forall>(_, ch) \<in> set xs. uint (ch_id ch) \<in> al_range (cn_allocator c')" using Cons.prems x by auto
    then show ?case using Cons.IH x c by simp
  qed simp
  have ids: "\<forall>(_, ch) \<in> set (cn_channels cn). uint (ch_id ch) \<in> al_range (cn_allocator cn)"
    using registered_id [OF assms] registered_range [OF assms] map_of_is_SomeI [OF registry_gm_ok [OF assms]] by fastforce
  have "registry_ok (fold ?close (cn_channels cn) (case e of Some err \<Rightarrow> cn_event (EvClose err) cn | None \<Rightarrow> cn))"
    by (rule fold) (use assms ids in \<open>simp_all add: registry_ok_event cn_event_def split: option.split\<close>)
  moreover have "cn_channels (case e of Some err \<Rightarrow> cn_event (EvClose err) cn | None \<Rightarrow> cn) = cn_channels cn"
    by (simp add: cn_event_def split: option.split)
  ultimately show ?thesis
    using assms unfolding conn_shutdown_def Let_def
    by (cases e) (simp_all add: registry_ok_event cn_event_def)
qed

lemma registry_sent: "registry_ok cn \<Longrightarrow> conn_send f cn = (r, cn') \<Longrightarrow> registry_ok cn'"
  using reg_send registry_ok_reg by blast

lemma registry_closeWith: "closeWith e cn = Some (r, cn') \<Longrightarrow> registry_ok cn \<Longrightarrow> registry_ok cn'"
  by (auto simp: closeWith_def dest: registry_sent intro: registry_shutdown split: prod.splits res.splits)

lemma registry_dispatch0:
  assumes "dispatch0 f cn = Some (r, cn')" and "registry_ok cn"
  shows "registry_ok cn'"
proof -
  have sent: "registry_ok (snd (conn_send g cn))" for g using registry_sent [OF assms(2)] by (metis prod.collapse)
  have event: "registry_ok (cn_event e cn)" for e using assms(2) registry_ok_reg [of "cn_event e cn" cn] by simp
  show ?thesis
    using assms sent event unfolding dispatch0_def
    by (auto intro: registry_shutdown registry_closeWith split: amqp_frame.splits option.splits if_splits)
qed

lemma registry_dispatchN:
  assumes "dispatchN i f cn = Some (r, cn')" and "registry_ok cn"
  shows "registry_ok cn'"
proof (cases "map_of (cn_channels cn) i")
  case None
  have "registry_ok (snd (conn_send g cn))" for g using registry_sent [OF assms(2)] by (metis prod.collapse)
  then show ?thesis
    using assms None
    by (auto simp: dispatchN_def dispatchClosed_def intro: registry_closeWith split: amqp_frame.splits option.splits if_splits)
next
  case (Some ch)
  then have i: "ch_id ch = i" "uint i \<in> al_range (cn_allocator cn)"
    using registered_id [OF assms(2)] registered_range [OF assms(2)] by blast+
  obtain ch1 cn1 where k: "channel_recv f ch cn = Some (r, ch1, cn1)" "cn' = put_back i ch1 cn1"
    using assms(1) Some by (auto simp: dispatchN_def split: bind_splits)
  then have "registry_ok cn1" "ch_id ch1 = i" using registry_recv [OF k(1) assms(2)] i by auto
  then show ?thesis using registry_put_back k(2) by simp
qed

lemma registry_demux: "demux f cn = Some (r, cn') \<Longrightarrow> registry_ok cn \<Longrightarrow> registry_ok cn'"
  by (auto simp: demux_def intro: registry_dispatch0 registry_dispatchN split: res.splits if_splits)

section \<open>Over time\<close>

lemma tuned_bounds:
  assumes "0 \<le> clientMax"
  shows "1 \<le> cn_ChannelMax (tune_connection clientMax clientFrame serverMax serverFrame cn) \<and>
    cn_ChannelMax (tune_connection clientMax clientFrame serverMax serverFrame cn) \<le> maxChannelMax"
proof -
  have "0 \<le> pick clientMax (uint serverMax)" using assms by (simp add: pick_def)
  then show ?thesis by (auto simp: tune_connection_def Let_def maxChannelMax_def)
qed

inductive registry_run :: "connection \<Rightarrow> bool" where
  run_tuned: "cn_channels cn = [] \<Longrightarrow> 0 \<le> clientMax \<Longrightarrow>
    registry_run (openComplete (tune_connection clientMax clientFrame serverMax serverFrame cn))"
| run_allocate: "registry_run cn \<Longrightarrow> allocateChannel cn = (r, cn') \<Longrightarrow> registry_run cn'"
| run_close: "registry_run cn \<Longrightarrow> map_of (cn_channels cn) i = Some ch \<Longrightarrow> closeChannel ch e cn = (ch', r', cn') \<Longrightarrow> registry_run cn'"
| run_send: "registry_run cn \<Longrightarrow> channel_send m ch cn = Some (r', cn') \<Longrightarrow> registry_run cn'"
| run_frame: "registry_run cn \<Longrightarrow> demux f cn = Some (r', cn') \<Longrightarrow> registry_run cn'"
| run_shutdown: "registry_run cn \<Longrightarrow> registry_run (conn_shutdown e cn)"

lemma run_registry_ok: "registry_run cn \<Longrightarrow> registry_ok cn"
proof (induction rule: registry_run.induct)
  case (run_tuned cn clientMax clientFrame serverMax serverFrame)
  let ?c = "tune_connection clientMax clientFrame serverMax serverFrame cn"
  have "1 \<le> cn_ChannelMax ?c" "cn_ChannelMax ?c \<le> 65535" using tuned_bounds [OF run_tuned(2)] by (auto simp: maxChannelMax_def)
  moreover have "cn_channels ?c = []" using run_tuned(1) by (simp add: tune_connection_def Let_def)
  ultimately show ?case using newAllocator_ok [of 1 "cn_ChannelMax ?c"] by (simp add: openComplete_def registry_ok_def)
next
  case (run_allocate cn r cn')
  then show ?case using registry_allocate(1) by blast
next
  case (run_close cn i ch e ch' r' cn')
  then have "uint (ch_id ch) \<in> al_range (cn_allocator cn)" using registered_range registered_id by blast
  then show ?case using registry_close run_close by blast
next
  case (run_send cn m ch r' cn')
  then show ?case using reg_channel_send registry_ok_reg by blast
qed (auto intro: registry_demux registry_shutdown)

end
