(* ===== verification/Claims_Amqp.thy ===== *)
theory Claims_Amqp
  imports Amqp_Channel_Correct Amqp_Registry
begin

text \<open>
  The properties of the client of the message broker: its codec, its messages, its confirmations and its channels.
\<close>

section \<open>The codec\<close>

text \<open>C36. A table that the wire can carry (lengths that fit their width, keys of at most 255 bytes, times in whole
  seconds, nested to any depth) is written, and read back as it was, whatever follows it.\<close>

theorem amqp_table_round_trip:
  assumes "wire_table_ok t"
  shows "\<exists>b. writeTable t = Inr b \<and> (\<forall>r. readTable (b @ r) = (Ok t, r))"
  using wire_table_writes [OF assms] readTable_write [OF assms] by blast

definition demo_table :: table where
  "demo_table = [(''product'', FString ''bundler''), (''limits'', FArray [FInt32 (- 1), FBool True]),
     (''capabilities'', FTable [(''connection.blocked'', FBool True)])]"

theorem amqp_table_round_trip_witness: "\<exists>b. writeTable demo_table = Inr b \<and> readTable b = (Ok demo_table, [])"
proof -
  have "wire_table_ok demo_table" by (simp add: wire_table_ok_def demo_table_def cat_def writeShortstr_def writeLongstr_def)
  then show ?thesis using amqp_table_round_trip [of demo_table] by (metis append_Nil2)
qed

text \<open>Validation promises what it should: a table passes \<^verbatim>\<open>Validate\<close> exactly when writing it does not fail, so a
  message whose headers were validated never fails half way for an unsupported value.\<close>

lemma amqp_validate_exact: "Validate t = None \<longleftrightarrow> (\<exists>b. writeTable t = Inr b)"
  using validate_iff(3) [of t] by (auto simp: Validate_def writeTable_def split: sum.splits)

text \<open>C37. Every frame the client can send (any method of the protocol with arguments of its types, a content header with
  any choice of properties, a body, a heartbeat) is written, and the reader of the library reads it back and
  stops exactly at its end.\<close>

theorem amqp_frame_round_trip:
  assumes "frame_ok f"
  shows "\<exists>b. frame_write f = Inr b \<and> (\<forall>r. ReadFrame (b @ r) = (Ok (arrives f), r))"
  using frame_ok_writes [OF assms] frame_round_trip [OF assms] by blast

definition demo_publish :: message where
  "demo_publish = \<lparr>mg_type = basicPublish,
     mg_args = [AShort 0, AShortstr ''siphon.apps.notifications'', AShortstr [], ABits [False, False]],
     mg_props = no_properties\<lparr>pr_ContentType := ''application/json''\<rparr>, mg_body = ''{}''\<rparr>"

lemma basicPublish_method: "basicPublish \<in> set methods"
  by (simp add: methods_def)

theorem amqp_frame_round_trip_witness:
  "\<exists>b. frame_write (MethodFrame 1 0 0 (Some demo_publish)) = Inr b \<and>
     ReadFrame b = (Ok (arrives (MethodFrame 1 0 0 (Some demo_publish))), [])"
proof -
  have "frame_ok (MethodFrame 1 0 0 (Some demo_publish))"
    using basicPublish_method by (simp add: demo_publish_def basicPublish_def)
  then show ?thesis using amqp_frame_round_trip by (metis append_Nil2)
qed

section \<open>Messages\<close>

text \<open>C19. A message arrives as it was sent: over a transport that works, with an unlimited frame size or one that leaves
  room for a body, a channel that is open writes a message with content, however long its body, and returns;
  a channel with that number at the other end of the connection hands on exactly this message, with its properties and its
  body, once, and is ready for the next.\<close>

theorem amqp_message_delivered:
  assumes "message_ok m" and "cn_script cn = []" and "frame_size_ok cn" and "ch_open ch" and "ch_id ch \<noteq> 0"
    and "map_of (cn_channels peer) (ch_id ch) = Some ch2" and "ch_recv ch2 = RecvMethod"
  shows "\<exists>b ch3. channel_send m ch cn = Some (Ok (), cn\<lparr>cn_wire := cn_wire cn @ b\<rparr>) \<and>
    (\<forall>r. conn_reader (b @ r) peer = conn_reader r (peer\<lparr>cn_channels := gm_set (ch_id ch) ch3 (cn_channels peer)\<rparr>)) \<and>
    ch_recv ch3 = RecvMethod \<and> ch_out ch3 = ch_out ch2 @ events_of m (ch_consumers ch2)"
proof -
  obtain b1 b2 where b: "frame_write (MethodFrame (ch_id ch) 0 0 (Some m)) = Inr b1" "frame_write (header_frame (ch_id ch) m) = Inr b2"
      "sendOpen m ch cn = Some (Ok (), cn\<lparr>cn_wire := cn_wire cn @ b1 @ b2 @ body_bytes (ch_id ch) (nat (part_size cn m)) (mg_body m)\<rparr>)"
    by (rule sendOpen_up [OF assms(1-3) refl])
  have "0 < nat (part_size cn m) \<or> mg_body m = []" using assms(3) by (auto simp: part_size_def frame_size_ok_def)
  note r = reader_message [OF assms(1,5) this assms(6,7) b(1,2)]
  show ?thesis
    using r b(3) assms(4)
    by (intro exI [of _ "b1 @ b2 @ body_bytes (ch_id ch) (nat (part_size cn m)) (mg_body m)"] exI [of _ "delivered m ch2"])
      (simp add: channel_send_def delivered_def)
qed

definition demo_connection :: connection where
  "demo_connection = \<lparr>cn_wire = [], cn_script = [], cn_down = False, cn_FrameSize = 9, cn_ChannelMax = 4,
     cn_allocator = newAllocator 1 4, cn_channels = [(1, newChannel 1)], cn_closed = False, cn_out = []\<rparr>"

lemma demo_publish_ok: "message_ok demo_publish"
  using basicPublish_method
  by (simp add: message_ok_def demo_publish_def properties_ok_def no_properties_def wire_table_ok_def whole_second_def)
    (simp add: basicPublish_def)

theorem amqp_message_delivered_witness:
  "\<exists>b ch3. channel_send demo_publish (newChannel 1) demo_connection = Some (Ok (), demo_connection\<lparr>cn_wire := b\<rparr>) \<and>
     conn_reader b demo_connection = conn_reader [] (demo_connection\<lparr>cn_channels := [(1, ch3)]\<rparr>) \<and>
     ch_out ch3 = [EvRpc demo_publish]"
proof -
  have "cn_script demo_connection = []" "frame_size_ok demo_connection" "ch_open (newChannel 1)" "ch_id (newChannel 1) \<noteq> 0"
    "map_of (cn_channels demo_connection) (ch_id (newChannel 1)) = Some (newChannel 1)" "ch_recv (newChannel 1) = RecvMethod"
    by (simp_all add: demo_connection_def frame_size_ok_def frameHeaderSize_def newChannel_def)
  then obtain b ch3 where "channel_send demo_publish (newChannel 1) demo_connection = Some (Ok (), demo_connection\<lparr>cn_wire := cn_wire demo_connection @ b\<rparr>)"
      "conn_reader (b @ []) demo_connection = conn_reader [] (demo_connection\<lparr>cn_channels := gm_set (ch_id (newChannel 1)) ch3 (cn_channels demo_connection)\<rparr>)"
      "ch_out ch3 = ch_out (newChannel 1) @ events_of demo_publish (ch_consumers (newChannel 1))"
    using amqp_message_delivered [OF demo_publish_ok] by blast
  moreover have "events_of demo_publish [] = [EvRpc demo_publish]" by (simp add: events_of_def demo_publish_def method_sig_defs)
  ultimately show ?thesis by (auto simp: demo_connection_def newChannel_def)
qed

section \<open>Confirmations\<close>

text \<open>C21. A listener never sees a confirmation out of order or twice, and none is left out: whatever operations were
  performed and however the broker's answers came, the tags it received count up, the last one just before
  the tag that is expected next.\<close>

theorem amqp_confirms_in_order:
  assumes "confirms_reach c" and "l \<in> set (co_listeners c)"
  shows "map cf_DeliveryTag l = map (\<lambda>i. co_expecting c - word_of_nat i) (rev [1..<Suc (length l)])"
  using reach_inv [OF assms(1)] assms(2) by (auto simp: confirms_inv_def counts_to_def)

theorem amqp_confirms_in_order_witness:
  "confirms_reach (confirms_One \<lparr>cf_DeliveryTag = 1, cf_Ack = True\<rparr> (Listen newConfirms)) \<and>
   map cf_DeliveryTag [\<lparr>cf_DeliveryTag = 1, cf_Ack = True\<rparr>] = [1]"
proof -
  let ?c = "confirms_One \<lparr>cf_DeliveryTag = 1, cf_Ack = True\<rparr> (Listen newConfirms)"
  have c: "co_listeners ?c = [[\<lparr>cf_DeliveryTag = 1, cf_Ack = True\<rparr>]]" "co_expecting ?c = 2"
    by (simp_all add: confirms_One_def Listen_def newConfirms_def confirm_def resequence_idle)
  have "confirms_reach ?c" by (rule reach_One, rule reach_Listen, rule reach_new)
  then show ?thesis using amqp_confirms_in_order [of ?c "[\<lparr>cf_DeliveryTag = 1, cf_Ack = True\<rparr>]"] c by simp
qed

text \<open>C20. Confirmations that arrive one by one in any order all reach the listeners, in the order of publishing: after the
  confirmations of \<open>n\<close> published messages have come in whatever order, every listener has received all of them,
  from the first to the last, each with its own answer.\<close>

theorem amqp_confirms_any_order:
  assumes "n < 2 ^ 64 - 1" and "distinct ts" and "set ts = {1..n}" and "\<And>t. t \<in> {1..n} \<Longrightarrow> cf_DeliveryTag (f t) = word_of_nat t"
    and "co_expecting c = 1" and "co_sequencer c = []" and "co_published c = word_of_nat n"
  shows "co_listeners (fold confirms_One (map f ts) c) = map (\<lambda>l. l @ map f [1..<Suc n]) (co_listeners c)"
  using confirms_any_order [OF assms(1-3) _ assms(5-7)] assms(4) by blast

theorem amqp_confirms_any_order_witness:
  "co_listeners (fold confirms_One (map (\<lambda>t. \<lparr>cf_DeliveryTag = word_of_nat t, cf_Ack = even t\<rparr>) [3, 1, 2])
     ((Listen newConfirms)\<lparr>co_published := 3\<rparr>)) =
   [[\<lparr>cf_DeliveryTag = 1, cf_Ack = False\<rparr>, \<lparr>cf_DeliveryTag = 2, cf_Ack = True\<rparr>, \<lparr>cf_DeliveryTag = 3, cf_Ack = False\<rparr>]]"
proof -
  let ?f = "\<lambda>t. \<lparr>cf_DeliveryTag = word_of_nat t, cf_Ack = even t\<rparr>" and ?c = "(Listen newConfirms)\<lparr>co_published := 3\<rparr>"
  have "co_listeners (fold confirms_One (map ?f [3, 1, 2]) ?c) = map (\<lambda>l. l @ map ?f [1..<Suc 3]) (co_listeners ?c)"
    by (rule amqp_confirms_any_order) (auto simp: Listen_def newConfirms_def)
  then show ?thesis by (simp add: Listen_def newConfirms_def upt_rec)
qed

text \<open>C34. Confirming many messages at once ends, for every tag the broker can name but the greatest number of 64 bits, for
  which no counter is ever past it.\<close>

theorem amqp_multiple_ends: "(\<exists>c'. confirms_Multiple cf c = Some c') \<longleftrightarrow> cf_DeliveryTag cf \<noteq> - 1"
  using Multiple_ends [of cf c] Multiple_greatest [of cf c] by (metis option.distinct(1))

section \<open>Channels\<close>

text \<open>C22. Channels have numbers of their own: whatever was opened, closed, sent and received on a connection before, a new
  channel gets a number from 1 to the limit that no channel of the registry has, and it is refused only when
  all numbers are taken; the limit fits 16 bits.\<close>

theorem amqp_channel_numbers:
  assumes "registry_run cn" and "allocateChannel cn = (r, cn')"
  shows "cn_ChannelMax cn \<le> 65535 \<and>
    (case r of
       Ok ch \<Rightarrow> map_of (cn_channels cn) (ch_id ch) = None \<and> map_of (cn_channels cn') = (map_of (cn_channels cn))(ch_id ch \<mapsto> ch) \<and>
         uint (ch_id ch) \<in> {1..cn_ChannelMax cn}
     | Fail e \<Rightarrow> e = ErrChannelMax \<and> cn_channels cn' = cn_channels cn \<and> uint ` dom (map_of (cn_channels cn)) = {1..cn_ChannelMax cn}
     | Panic p \<Rightarrow> False)"
  using run_registry_ok [OF assms(1)] registry_allocate(2) [OF run_registry_ok [OF assms(1)] assms(2)]
  by (auto simp: registry_ok_def)

definition fresh_connection :: connection where
  "fresh_connection = openComplete (tune_connection 0 0 1 131072 (demo_connection\<lparr>cn_channels := []\<rparr>))"

lemma fresh_run: "registry_run fresh_connection"
  unfolding fresh_connection_def by (rule run_tuned) (simp_all add: demo_connection_def)

lemma fresh_parts:
  "cn_ChannelMax fresh_connection = 1" "cn_channels fresh_connection = []" "cn_allocator fresh_connection = newAllocator 1 1"
  by (simp_all add: fresh_connection_def demo_connection_def tune_connection_def openComplete_def pick_def maxChannelMax_def Let_def)

theorem amqp_channel_numbers_witness:
  "\<exists>ch cn'. allocateChannel fresh_connection = (Ok ch, cn') \<and> uint (ch_id ch) = 1 \<and> map_of (cn_channels cn') = [ch_id ch \<mapsto> ch]"
proof -
  obtain r cn' where a: "allocateChannel fresh_connection = (r, cn')" by fastforce
  show ?thesis using amqp_channel_numbers [OF fresh_run a] a by (cases r) (auto simp: fresh_parts)
qed

text \<open>Closing a channel a second time releases its number again, although another channel may have it by then: with one
  number, the channel that was opened in between loses its place in the registry while it is still open.\<close>

lemma close_twice:
  "\<exists>ch1 cn1 ch1' cn2 ch2 cn3 ch1'' r cn4.
     allocateChannel fresh_connection = (Ok ch1, cn1) \<and> closeChannel ch1 None cn1 = (ch1', Ok (), cn2) \<and>
     allocateChannel cn2 = (Ok ch2, cn3) \<and> ch_open ch2 \<and> closeChannel ch1' None cn3 = (ch1'', r, cn4) \<and> cn_channels cn4 = []"
  by (simp add: allocateChannel_def fresh_parts alloc_next_def newAllocator_def find_free.simps reserve_def reserved_def
      closeChannel_def channel_shutdown_def releaseChannel_def alloc_release_def newChannel_def put_event_def Let_def bit_unset_bit_iff)

end
