(* ===== verification/Pq_Url.thy ===== *)
theory Pq_Url
  imports Sign
begin

text \<open>
  How the driver of the database reads its address: \<^verbatim>\<open>ParseURL\<close> (\<^verbatim>\<open>lib/pq/url.go\<close>) turns a URL into a string of options, and
  \<^verbatim>\<open>parseOpts\<close> (\<^verbatim>\<open>lib/pq/conn.go\<close>) reads such strings. A character stands for a rune; the model has those below 256. Parsing
  the URL is the library's, a parameter. The order of the query is the order in which this run ranges over it.
\<close>

section \<open>From a URL to options\<close>

record parsed_url =
  u_Scheme :: string
  u_User :: "(string \<times> string option) option"
  u_Host :: string
  u_Path :: string
  u_Query :: gvalues

definition escape_char :: "char \<Rightarrow> string" where
  "escape_char c = (if c = CHR '' '' \<or> c = CHR 0x27 \<or> c = CHR 0x5C then [CHR 0x5C, c] else [c])"

definition escaper :: "string \<Rightarrow> string" where
  "escaper v = concat (map escape_char v)"

definition accrue :: "string \<Rightarrow> string \<Rightarrow> string list \<Rightarrow> string list" where
  "accrue k v kvs = (if v \<noteq> [] then kvs @ [k @ ''='' @ escaper v] else kvs)"

definition host_part :: "string \<Rightarrow> string" where
  "host_part h = takeWhile (\<lambda>c. c \<noteq> CHR '':'') h"

definition url_kvs :: "parsed_url \<Rightarrow> string list" where
  "url_kvs u =
     (let kvs = (case u_User u of
            None \<Rightarrow> []
          | Some (name, pw) \<Rightarrow> accrue ''password'' (case pw of Some p \<Rightarrow> p | None \<Rightarrow> []) (accrue ''user'' name []));
          kvs = (if CHR '':'' \<notin> set (u_Host u) then accrue ''host'' (u_Host u) kvs
            else accrue ''port'' (drop (Suc (length (host_part (u_Host u)))) (u_Host u)) (accrue ''host'' (host_part (u_Host u)) kvs));
          kvs = (if u_Path u \<noteq> [] then accrue ''dbname'' (tl (u_Path u)) kvs else kvs) in
      fold (\<lambda>(k, vs). accrue k (case vs of v # _ \<Rightarrow> v | [] \<Rightarrow> [])) (u_Query u) kvs)"

definition ParseURL :: "(string \<Rightarrow> error + parsed_url) \<Rightarrow> string \<Rightarrow> error + string" where
  "ParseURL nurl_Parse url =
     (case nurl_Parse url of
        Inl e \<Rightarrow> Inl e
      | Inr u \<Rightarrow>
          if u_Scheme u \<noteq> ''postgres'' \<and> u_Scheme u \<noteq> ''postgresql''
          then Inl (Errorf (''invalid connection protocol: '' @ u_Scheme u))
          else Inr (join '' '' (sort (url_kvs u))))"

section \<open>Reading options\<close>

definition isSpace :: "char \<Rightarrow> bool" where
  "isSpace c \<longleftrightarrow> c \<in> {CHR 0x09, CHR 0x0A, CHR 0x0B, CHR 0x0C, CHR 0x0D, CHR '' '', CHR 0x85, CHR 0xA0}"

text \<open>\<^verbatim>\<open>SkipSpaces\<close>: the next rune that is not a space, and what follows; \<open>None\<close> at the end.\<close>

fun SkipSpaces :: "string \<Rightarrow> (char \<times> string) option" where
  "SkipSpaces [] = None"
| "SkipSpaces (c # s) = (if isSpace c then SkipSpaces s else Some (c, s))"

text \<open>The key at the head of a string, and the rune it stopped at with what follows, if it did not reach the end.\<close>

fun scan_key :: "string \<Rightarrow> string \<times> (char \<times> string) option" where
  "scan_key [] = ([], None)"
| "scan_key (r # s) = (if isSpace r \<or> r = CHR ''='' then ([], Some (r, s)) else map_prod (Cons r) id (scan_key s))"

text \<open>A value without quotes, and with quotes; what follows it.\<close>

definition cons_value :: "char \<Rightarrow> error + string \<times> string \<Rightarrow> error + string \<times> string" where
  "cons_value c x = map_sum id (map_prod (Cons c) id) x"

fun scan_value :: "string \<Rightarrow> error + string \<times> string" where
  "scan_value [] = Inr ([], [])"
| "scan_value (r # s) =
     (if isSpace r then Inr ([], s)
      else if r = CHR 0x5C then
        (case s of [] \<Rightarrow> Inl (Errorf ''missing character after backslash'') | c # s' \<Rightarrow> cons_value c (scan_value s'))
      else cons_value r (scan_value s))"

fun scan_quoted :: "string \<Rightarrow> error + string \<times> string" where
  "scan_quoted [] = Inl (Errorf ''unterminated quoted string literal in connection string'')"
| "scan_quoted (r # s) =
     (if r = CHR 0x27 then Inr ([], s)
      else if r = CHR 0x5C then
        (case s of
           [] \<Rightarrow> Inl (Errorf ''unterminated quoted string literal in connection string'')
         | c # s' \<Rightarrow> cons_value c (scan_quoted s'))
      else cons_value r (scan_quoted s))"

text \<open>The \<open>=\<close> after a key, with spaces before it.\<close>

definition find_equals :: "(char \<times> string) option \<Rightarrow> string option" where
  "find_equals x =
     (case x of
        None \<Rightarrow> None
      | Some (r, s) \<Rightarrow>
          if r = CHR ''='' then Some s
          else (case SkipSpaces s of Some (r', s') \<Rightarrow> if r' = CHR ''='' then Some s' else None | None \<Rightarrow> None))"

text \<open>The value; at the end of the string it is empty.\<close>

definition parse_value :: "string \<Rightarrow> error + string \<times> string" where
  "parse_value s =
     (case SkipSpaces s of
        None \<Rightarrow> Inr ([], [])
      | Some (r, s) \<Rightarrow> if r \<noteq> CHR 0x27 then scan_value (r # s) else scan_quoted s)"

text \<open>One option: its key and value and what follows, or nothing after the spaces.\<close>

definition parse_option :: "string \<Rightarrow> error + (string \<times> string \<times> string) option" where
  "parse_option s =
     (case SkipSpaces s of
        None \<Rightarrow> Inr None
      | Some (r, s) \<Rightarrow>
          (case scan_key (r # s) of
             (key, x) \<Rightarrow>
               (case find_equals x of
                  None \<Rightarrow> Inl (Errorf (''missing '' @ [CHR 0x22] @ ''='' @ [CHR 0x22] @ '' after '' @ [CHR 0x22] @ key @ [CHR 0x22] @ '' in connection info string'' @ [CHR 0x22]))
                | Some s \<Rightarrow>
                    (case parse_value s of
                       Inl e \<Rightarrow> Inl e
                     | Inr (v, s) \<Rightarrow> Inr (Some (key, v, s))))))"

lemma SkipSpaces_length: "SkipSpaces s = Some (r, s') \<Longrightarrow> length s' < length s"
  by (induction s) (auto split: if_splits)

lemma scan_key_length: "scan_key s = (k, Some (r', s')) \<Longrightarrow> length s' < length s"
  by (induction s arbitrary: k) (auto simp: map_prod_def split: if_splits prod.splits)

lemma cons_value_Inr [simp]: "cons_value c x = Inr (v, s) \<longleftrightarrow> (\<exists>v'. x = Inr (v', s) \<and> v = c # v')"
  by (cases x) (auto simp: cons_value_def)

lemma scan_value_length: "scan_value s = Inr (v, s') \<Longrightarrow> length s' \<le> length s"
  by (induction s arbitrary: v rule: scan_value.induct) (fastforce split: if_splits list.splits)+

lemma scan_quoted_length: "scan_quoted s = Inr (v, s') \<Longrightarrow> length s' \<le> length s"
  by (induction s arbitrary: v rule: scan_quoted.induct) (fastforce split: if_splits list.splits)+

lemma find_equals_length: "find_equals (Some (r, s)) = Some s' \<Longrightarrow> length s' \<le> length s"
  by (auto simp: find_equals_def dest: SkipSpaces_length split: if_splits option.splits)

lemma parse_value_length: "parse_value s = Inr (v, s') \<Longrightarrow> length s' \<le> length s"
  by (auto simp: parse_value_def simp del: scan_value.simps(2)
      dest!: SkipSpaces_length scan_value_length scan_quoted_length split: if_splits option.splits)

lemma parse_option_length:
  assumes "parse_option s = Inr (Some (k, v, s'))"
  shows "length s' < length s"
proof -
  obtain r s1 x s2 where 1: "SkipSpaces s = Some (r, s1)" "scan_key (r # s1) = (k, x)" "find_equals x = Some s2" "parse_value s2 = Inr (v, s')"
    using assms by (auto simp: parse_option_def simp del: scan_key.simps(2) split: option.splits prod.splits sum.splits)
  moreover obtain r' s3 where "x = Some (r', s3)" using 1(3) by (auto simp: find_equals_def split: option.splits)
  ultimately show ?thesis
    using SkipSpaces_length [of s r s1] scan_key_length [of "r # s1" k r' s3] find_equals_length [of r' s3 s2] parse_value_length [of s2 v s'] by simp
qed

function parseOpts :: "string \<Rightarrow> gomap \<Rightarrow> error + gomap" where
  "parseOpts s out =
     (case parse_option s of
        Inl e \<Rightarrow> Inl e
      | Inr None \<Rightarrow> Inr out
      | Inr (Some (k, v, s')) \<Rightarrow> parseOpts s' (gm_set k v out))"
  by pat_completeness auto
termination
  by (relation "measure (\<lambda>(s, _). length s)") (auto dest: parse_option_length)

declare parseOpts.simps [simp del]

section \<open>What is written is read back\<close>

definition enc :: "string \<times> string \<Rightarrow> string" where
  "enc kv = fst kv @ ''='' @ escaper (snd kv)"

text \<open>
  Keys without spaces and equal signs; values whose only white space is the blank. The driver escapes blanks and no
  other space, so a tab in a password would end it.
\<close>

definition option_ok :: "string \<times> string \<Rightarrow> bool" where
  "option_ok kv \<longleftrightarrow> list_all (\<lambda>c. \<not> isSpace c \<and> c \<noteq> CHR ''='') (fst kv) \<and> snd kv \<noteq> [] \<and> list_all (\<lambda>c. isSpace c \<longrightarrow> c = CHR '' '') (snd kv)"

lemma isSpace_simps [simp]: "isSpace (CHR '' '')" "\<not> isSpace (CHR 0x27)" "\<not> isSpace (CHR 0x5C)" "\<not> isSpace (CHR ''='')"
  by (simp_all add: isSpace_def)

lemma scan_key_app: "list_all (\<lambda>c. \<not> isSpace c \<and> c \<noteq> CHR ''='') k \<Longrightarrow> scan_key (k @ CHR ''='' # s) = (k, Some (CHR ''='', s))"
  by (induction k) auto

lemma scan_value_escaper:
  assumes "list_all (\<lambda>c. isSpace c \<longrightarrow> c = CHR '' '') v"
  shows "scan_value (escaper v) = Inr (v, [])" and "scan_value (escaper v @ CHR '' '' # s) = Inr (v, s)"
  using assms by (induction v) (auto simp: escaper_def escape_char_def cons_value_def)

lemma escaper_head: "v \<noteq> [] \<Longrightarrow> list_all (\<lambda>c. isSpace c \<longrightarrow> c = CHR '' '') v \<Longrightarrow> \<exists>c t. escaper v = c # t \<and> \<not> isSpace c \<and> c \<noteq> CHR 0x27"
  by (cases v) (auto simp: escaper_def escape_char_def)

lemma parse_value_escaper:
  assumes "v \<noteq> []" and "list_all (\<lambda>c. isSpace c \<longrightarrow> c = CHR '' '') v"
  shows "parse_value (escaper v) = Inr (v, [])" and "parse_value (escaper v @ CHR '' '' # s) = Inr (v, s)"
proof -
  obtain c t where "escaper v = c # t" "\<not> isSpace c" "c \<noteq> CHR 0x27" using escaper_head [OF assms] by blast
  then show "parse_value (escaper v) = Inr (v, [])" and "parse_value (escaper v @ CHR '' '' # s) = Inr (v, s)"
    using scan_value_escaper [OF assms(2)] by (simp_all add: parse_value_def del: scan_value.simps(2))
qed

lemma SkipSpaces_key: "list_all (\<lambda>c. \<not> isSpace c \<and> c \<noteq> CHR ''='') k \<Longrightarrow> \<exists>r t. k @ CHR ''='' # s = r # t \<and> SkipSpaces (k @ CHR ''='' # s) = Some (r, t)"
  by (cases k) auto

lemma parse_option_enc:
  assumes "option_ok kv"
  shows "parse_option (enc kv) = Inr (Some (fst kv, snd kv, []))" and "parse_option (enc kv @ CHR '' '' # s) = Inr (Some (fst kv, snd kv, s))"
proof -
  have k: "list_all (\<lambda>c. \<not> isSpace c \<and> c \<noteq> CHR ''='') (fst kv)" and v: "snd kv \<noteq> []" "list_all (\<lambda>c. isSpace c \<longrightarrow> c = CHR '' '') (snd kv)"
    using assms by (simp_all add: option_ok_def)
  have p: "parse_option (fst kv @ CHR ''='' # x) = (case parse_value x of Inl e \<Rightarrow> Inl e | Inr (v, s) \<Rightarrow> Inr (Some (fst kv, v, s)))" for x
    using SkipSpaces_key [OF k, of x] scan_key_app [OF k, of x] by (auto simp: parse_option_def find_equals_def simp del: scan_key.simps(2))
  show "parse_option (enc kv) = Inr (Some (fst kv, snd kv, []))" and "parse_option (enc kv @ CHR '' '' # s) = Inr (Some (fst kv, snd kv, s))"
    using parse_value_escaper [OF v] by (simp_all add: enc_def p)
qed

lemma parseOpts_enc: "list_all option_ok ps \<Longrightarrow> parseOpts (join '' '' (map enc ps)) out = Inr (fold (\<lambda>(k, v). gm_set k v) ps out)"
proof (induction ps arbitrary: out)
  case Nil
  then show ?case by (subst parseOpts.simps) (simp add: parse_option_def)
next
  case (Cons p ps)
  note o = parse_option_enc [of p]
  show ?case
  proof (cases ps)
    case Nil
    have "parseOpts [] x = Inr x" for x by (subst parseOpts.simps) (simp add: parse_option_def)
    then show ?thesis using Cons.prems o(1) Nil by (subst parseOpts.simps) (simp add: case_prod_unfold)
  next
    case (Cons q qs)
    then have "join '' '' (map enc (p # ps)) = enc p @ CHR '' '' # join '' '' (map enc ps)" by simp
    then show ?thesis using Cons.prems Cons.IH \<open>list_all option_ok (p # ps)\<close> o(2) by (subst parseOpts.simps) (simp add: case_prod_unfold)
  qed
qed

lemma sort_map_key: "sort (map f xs) = map f (sort_key f xs)"
  by (rule properties_for_sort) (simp_all add: sorted_sort_key)

text \<open>The options of a URL that are not empty.\<close>

definition url_pairs :: "parsed_url \<Rightarrow> (string \<times> string) list" where
  "url_pairs u = filter (\<lambda>(_, v). v \<noteq> [])
     ((case u_User u of None \<Rightarrow> [] | Some (name, pw) \<Rightarrow> [(''user'', name), (''password'', case pw of Some p \<Rightarrow> p | None \<Rightarrow> [])]) @
      (if CHR '':'' \<notin> set (u_Host u) then [(''host'', u_Host u)]
       else [(''host'', host_part (u_Host u)), (''port'', drop (Suc (length (host_part (u_Host u)))) (u_Host u))]) @
      [(''dbname'', tl (u_Path u))] @ map (\<lambda>(k, vs). (k, case vs of v # _ \<Rightarrow> v | [] \<Rightarrow> [])) (u_Query u))"

lemma accrue_app: "accrue k v kvs = kvs @ map enc (filter (\<lambda>(_, v). v \<noteq> []) [(k, v)])"
  by (simp add: accrue_def enc_def)

lemma accrue_query:
  "fold (\<lambda>(k, vs). accrue k (case vs of v # _ \<Rightarrow> v | [] \<Rightarrow> [])) q kvs =
    kvs @ map enc (filter (\<lambda>(_, v). v \<noteq> []) (map (\<lambda>(k, vs). (k, case vs of v # _ \<Rightarrow> v | [] \<Rightarrow> [])) q))"
  by (induction q arbitrary: kvs) (auto simp: accrue_app)

lemma url_kvs_pairs: "url_kvs u = map enc (url_pairs u)"
proof -
  have "(if u_Path u \<noteq> [] then accrue ''dbname'' (tl (u_Path u)) kvs else kvs) = kvs @ map enc (filter (\<lambda>(_, v). v \<noteq> []) [(''dbname'', tl (u_Path u))])" for kvs
    by (cases "u_Path u") (simp_all add: accrue_app)
  then show ?thesis
    unfolding url_kvs_def url_pairs_def Let_def accrue_query accrue_app
    by (cases "u_User u"; cases "CHR '':'' \<in> set (u_Host u)") (simp_all add: case_prod_unfold)
qed

text \<open>The string that comes out of a URL sets its options, in whatever order they are sorted, over those that were there.\<close>

lemma parse_sorted:
  assumes "gm_ok ps" and "list_all option_ok ps"
  shows "\<exists>out'. parseOpts (join '' '' (sort (map enc ps))) out = Inr out' \<and> map_of out' = map_of out ++ map_of ps \<and> (gm_ok out \<longrightarrow> gm_ok out')"
proof -
  let ?ps = "sort_key enc ps"
  have m: "mset ?ps = mset ps" by simp
  have ok: "gm_ok ?ps" using gm_ok_perm [OF m] assms(1) by simp
  have "list_all option_ok ?ps" using assms(2) by (simp add: list_all_iff)
  then have "parseOpts (join '' '' (sort (map enc ps))) out = Inr (fold (\<lambda>(k, v). gm_set k v) ?ps out)" by (simp add: sort_map_key parseOpts_enc)
  moreover have "map_of (rev ?ps) = map_of ps" using map_of_rev_distinct [OF ok] map_of_perm [OF m assms(1)] by simp
  ultimately show ?thesis using gm_ok_fold [of out ?ps] by (simp add: map_of_gm_fold)
qed

end
