(* ===== verification/Pq_Conn.thy ===== *)
theory Pq_Conn
  imports Pq_Url Amqp_Codec S3_Test_Server
begin

text \<open>
  Opening a connection to the database: \<^verbatim>\<open>lib/pq/conn.go\<close> from \<^verbatim>\<open>DialOpen\<close> to the first \<^verbatim>\<open>ReadyForQuery\<close>, with the buffers of
  \<^verbatim>\<open>buf.go\<close> and the errors of \<^verbatim>\<open>error.go\<close>. A connection is a record: the bytes the server will send, those it was sent, and a
  script of what the calls on the transport return. The driver reports errors inside by panicking with an error
  value and recovers them in \<^verbatim>\<open>DialOpen\<close>; such a panic is \<open>Fail\<close>, a run-time panic is \<open>Panic\<close>, and both become the
  error that is returned. The rest of the machine is the record \<open>pq_lib\<close>: the parser of URLs, the environment, the user,
  MD5 in hexadecimal, the scanner of version numbers, the time zones, dialling, and TLS.
\<close>

section \<open>State\<close>

record pq_conn =
  pc_in :: bytes
  pc_out :: bytes
  pc_script :: "error option list"
  pc_txnStatus :: char
  pc_serverVersion :: int
  pc_currentLocation :: "string option"
  pc_saveMessage :: "(char \<times> bytes) option"
  pc_disablePreparedBinaryResult :: bool
  pc_binaryParameters :: bool

record pq_lib =
  pl_Parse :: "string \<Rightarrow> error + parsed_url"
  pl_Environ :: "string list"
  pl_userCurrent :: "error + string"
  pl_md5s :: "string \<Rightarrow> string"
  pl_Sscanf :: "string \<Rightarrow> (int \<times> int \<times> int) option"
  pl_LoadLocation :: "string \<Rightarrow> error + string"
  pl_Dial :: "string \<Rightarrow> string \<Rightarrow> 64 word option \<Rightarrow> error + pq_conn"
  pl_tls :: "gomap \<Rightarrow> pq_conn \<Rightarrow> unit res \<times> pq_conn"

definition values_Get :: "gomap \<Rightarrow> string \<Rightarrow> string" where
  "values_Get o' k = (case map_of o' k of Some v \<Rightarrow> v | None \<Rightarrow> [])"

definition quoted :: "string \<Rightarrow> string" where
  "quoted s = CHR 0x22 # s @ [CHR 0x22]"

definition quoted_byte :: "char \<Rightarrow> string" where
  "quoted_byte c = [CHR 0x27, c, CHR 0x27]"

text \<open>What \<^verbatim>\<open>errRecoverNoErrBadConn\<close> makes of a panic with a string, and \<^verbatim>\<open>errorf\<close>.\<close>

definition pq_unexpected :: "string \<Rightarrow> error" where
  "pq_unexpected s = Errorf (''pq: unexpected error: '' @ quoted s)"

definition pq_errorf :: "string \<Rightarrow> error" where
  "pq_errorf s = Errorf (''pq: '' @ s)"

section \<open>Settings\<close>

definition pg_names :: gomap where
  "pg_names = [(''PGHOST'', ''host''), (''PGPORT'', ''port''), (''PGDATABASE'', ''dbname''), (''PGUSER'', ''user''), (''PGPASSWORD'', ''password''),
     (''PGOPTIONS'', ''options''), (''PGAPPNAME'', ''application_name''), (''PGSSLMODE'', ''sslmode''), (''PGSSLCERT'', ''sslcert''),
     (''PGSSLKEY'', ''sslkey''), (''PGSSLROOTCERT'', ''sslrootcert''), (''PGCONNECT_TIMEOUT'', ''connect_timeout''),
     (''PGCLIENTENCODING'', ''client_encoding''), (''PGDATESTYLE'', ''datestyle''), (''PGTZ'', ''timezone''), (''PGGEQO'', ''geqo'')]"

definition pg_unsupported :: "string list" where
  "pg_unsupported = [''PGHOSTADDR'', ''PGPASSFILE'', ''PGSERVICE'', ''PGSERVICEFILE'', ''PGREALM'', ''PGREQUIRESSL'', ''PGSSLCRL'', ''PGREQUIREPEER'',
     ''PGKRBSRVNAME'', ''PGGSSLIB'', ''PGSYSCONFDIR'', ''PGLOCALEDIR'']"

fun parseEnviron :: "string list \<Rightarrow> gomap \<Rightarrow> error + gomap" where
  "parseEnviron [] out = Inr out"
| "parseEnviron (v # vs) out =
     (let name = takeWhile (\<lambda>c. c \<noteq> CHR ''='') v in
      case map_of pg_names name of
        Some keyname \<Rightarrow>
          if CHR ''='' \<notin> set v then Inl (Errorf ''runtime error: index out of range'')
          else parseEnviron vs (gm_set keyname (drop (Suc (length name)) v) out)
      | None \<Rightarrow>
          if name \<in> set pg_unsupported then Inl (pq_unexpected (''setting '' @ name @ '' not supported''))
          else parseEnviron vs out)"

definition alnumLowerASCII :: "char \<Rightarrow> char option" where
  "alnumLowerASCII ch =
     (if CHR ''A'' \<le> ch \<and> ch \<le> CHR ''Z'' then Some (char_of (of_char ch + 32 :: nat))
      else if CHR ''a'' \<le> ch \<and> ch \<le> CHR ''z'' \<or> CHR ''0'' \<le> ch \<and> ch \<le> CHR ''9'' then Some ch
      else None)"

definition isUTF8 :: "string \<Rightarrow> bool" where
  "isUTF8 name = (let s = List.map_filter alnumLowerASCII name in s = ''utf8'' \<or> s = ''unicode'')"

definition boolSetting :: "gomap \<Rightarrow> string \<Rightarrow> bool \<Rightarrow> error + bool" where
  "boolSetting o' key val =
     (let value = values_Get o' key in
      if value = [] then Inr val else if value = ''yes'' then Inr True else if value = ''no'' then Inr False
      else Inl (Errorf (''unrecognized value '' @ quoted value @ '' for '' @ key)))"

text \<open>The two switches, as they are set on a new connection.\<close>

definition handleDriverSettings :: "gomap \<Rightarrow> error + bool \<times> bool" where
  "handleDriverSettings o' =
     (case boolSetting o' ''disable_prepared_binary_result'' False of
        Inl e \<Rightarrow> Inl e
      | Inr a \<Rightarrow> (case boolSetting o' ''binary_parameters'' False of Inl e \<Rightarrow> Inl e | Inr b \<Rightarrow> Inr (a, b)))"

definition default_options :: gomap where
  "default_options = [(''host'', ''localhost''), (''port'', ''5432''), (''extra_float_digits'', ''2'')]"

text \<open>The defaults, under the environment, under the connection string.\<close>

definition gather_options :: "pq_lib \<Rightarrow> string \<Rightarrow> error + gomap" where
  "gather_options L name =
     (case parseEnviron (pl_Environ L) [] of
        Inl e \<Rightarrow> Inl e
      | Inr es \<Rightarrow>
          (let o' = fold (\<lambda>(k, v). gm_set k v) es default_options in
           if prefix ''postgres://'' name \<or> prefix ''postgresql://'' name
           then (case ParseURL (pl_Parse L) name of Inl e \<Rightarrow> Inl e | Inr name \<Rightarrow> parseOpts name o')
           else parseOpts name o'))"

text \<open>What is added or refused afterwards.\<close>

definition settle_options :: "pq_lib \<Rightarrow> gomap \<Rightarrow> error + gomap" where
  "settle_options L o' =
     (let fallback = values_Get o' ''fallback_application_name'';
          o' = (if fallback \<noteq> [] \<and> map_of o' ''application_name'' = None then gm_set ''application_name'' fallback o' else o') in
      if values_Get o' ''client_encoding'' \<noteq> [] \<and> \<not> isUTF8 (values_Get o' ''client_encoding'')
      then Inl (Errorf (''client_encoding must be absent or '' @ [CHR 0x27] @ ''UTF8'' @ [CHR 0x27]))
      else
        (let o' = gm_set ''client_encoding'' ''UTF8'' o'; datestyle = values_Get o' ''datestyle'' in
         if datestyle \<noteq> [] \<and> datestyle \<noteq> ''ISO, MDY''
         then Inl (pq_unexpected (''setting datestyle must be absent or ISO, MDY; got '' @ datestyle))
         else
           (let o' = (if datestyle = [] then gm_set ''datestyle'' ''ISO, MDY'' o' else o') in
            if values_Get o' ''user'' = []
            then map_sum id (\<lambda>u. gm_set ''user'' u o') (pl_userCurrent L)
            else Inr o')))"

section \<open>Dialling\<close>

definition network :: "gomap \<Rightarrow> string \<times> string" where
  "network o' =
     (let host = values_Get o' ''host''; port = values_Get o' ''port'' in
      if prefix ''/'' host then (''unix'', path_Join [host, ''.s.PGSQL.'' @ port]) else (''tcp'', host @ '':'' @ port))"

text \<open>One call on the transport, with what it returns.\<close>

definition pq_next :: "pq_conn \<Rightarrow> unit res \<times> pq_conn" where
  "pq_next c = (case pc_script c of [] \<Rightarrow> (Ok (), c) | None # s \<Rightarrow> (Ok (), c\<lparr>pc_script := s\<rparr>) | Some e # s \<Rightarrow> (Fail e, c\<lparr>pc_script := s\<rparr>))"

definition has_timeout :: "gomap \<Rightarrow> bool" where
  "has_timeout o' \<longleftrightarrow> values_Get o' ''connect_timeout'' \<noteq> [] \<and> values_Get o' ''connect_timeout'' \<noteq> ''0''"

text \<open>The connection, and the options, which are changed for a Unix socket. A duration counts nanoseconds in 64 bits.\<close>

definition dial :: "pq_lib \<Rightarrow> gomap \<Rightarrow> error + pq_conn \<times> gomap" where
  "dial L o' =
     (case network o' of
        (ntw, addr) \<Rightarrow>
          (let o' = (if ntw = ''unix'' then gm_set ''sslmode'' ''disable'' o' else o') in
           if has_timeout o' then
             (case Atoi (values_Get o' ''connect_timeout'') of
                None \<Rightarrow> Inl (Errorf ''invalid value for parameter connect_timeout'')
              | Some seconds \<Rightarrow>
                  (case pl_Dial L ntw addr (Some (of_int seconds * 1000000000)) of
                     Inl e \<Rightarrow> Inl e
                   | Inr c \<Rightarrow> (case pq_next c of (Fail e, _) \<Rightarrow> Inl e | (_, c) \<Rightarrow> Inr (c, o'))))
           else map_sum id (\<lambda>c. (c, o')) (pl_Dial L ntw addr None)))"

section \<open>Buffers\<close>

text \<open>\<^verbatim>\<open>writeBuf\<close> (the length is filled in at the end, so its first value does not matter) and \<^verbatim>\<open>readBuf\<close>.\<close>

record writeBuf =
  wb_buf :: bytes
  wb_pos :: nat

definition new_writeBuf :: "char \<Rightarrow> writeBuf" where
  "new_writeBuf b = \<lparr>wb_buf = b # replicate 4 (CHR 0x00), wb_pos = 1\<rparr>"

definition wb_int32 :: "int \<Rightarrow> writeBuf \<Rightarrow> writeBuf" where
  "wb_int32 n b = b\<lparr>wb_buf := wb_buf b @ be 4 (nat (n mod 2 ^ 32))\<rparr>"

definition wb_string :: "string \<Rightarrow> writeBuf \<Rightarrow> writeBuf" where
  "wb_string s b = b\<lparr>wb_buf := wb_buf b @ s @ [CHR 0x00]\<rparr>"

definition wb_wrap :: "writeBuf \<Rightarrow> bytes" where
  "wb_wrap b = (let p = drop (wb_pos b) (wb_buf b) in take (wb_pos b) (wb_buf b) @ be 4 (length p) @ drop 4 p)"

definition rb_next :: "nat \<Rightarrow> bytes \<Rightarrow> bytes res \<times> bytes" where
  "rb_next n b = (if length b < n then (Panic ''runtime error: slice bounds out of range'', b) else (Ok (take n b), drop n b))"

definition rb_int32 :: "bytes \<Rightarrow> int res \<times> bytes" where
  "rb_int32 b =
     (if length b < 4 then (Panic ''runtime error: index out of range'', b)
      else (let n = int (be_nat (take 4 b)) in (Ok (if n < 2 ^ 31 then n else n - 2 ^ 32), drop 4 b)))"

definition rb_string :: "bytes \<Rightarrow> string res \<times> bytes" where
  "rb_string b =
     (let s = takeWhile (\<lambda>c. c \<noteq> CHR 0x00) b in
      if CHR 0x00 \<notin> set b then (Fail (pq_errorf ''invalid message format; expected string terminator''), b)
      else (Ok s, drop (Suc (length s)) b))"

definition rb_byte :: "bytes \<Rightarrow> char res \<times> bytes" where
  "rb_byte b = andThen (rb_next 1 b) (\<lambda>x b. (Ok (hd x), b))"

text \<open>A read from a message in the course of an operation on the connection.\<close>

definition from_msg :: "'a res \<times> bytes \<Rightarrow> pq_conn \<Rightarrow> ('a \<times> bytes) res \<times> pq_conn" where
  "from_msg m c = (case m of (r, b) \<Rightarrow> (map_res (\<lambda>a. (a, b)) r, c))"

section \<open>Messages\<close>

definition pq_write :: "bytes \<Rightarrow> pq_conn \<Rightarrow> unit res \<times> pq_conn" where
  "pq_write b c = andThen (pq_next c) (\<lambda>_ c. (Ok (), c\<lparr>pc_out := pc_out c @ b\<rparr>))"

definition pq_send :: "writeBuf \<Rightarrow> pq_conn \<Rightarrow> unit res \<times> pq_conn" where
  "pq_send m c = pq_write (wb_wrap m) c"

definition sendStartupPacket :: "writeBuf \<Rightarrow> pq_conn \<Rightarrow> unit res \<times> pq_conn" where
  "sendStartupPacket m c = (if hd (wb_buf m) \<noteq> CHR 0x00 then (Fail (pq_unexpected ''oops''), c) else pq_write (tl (wb_wrap m)) c)"

definition io_ReadFull :: "nat \<Rightarrow> pq_conn \<Rightarrow> bytes res \<times> pq_conn" where
  "io_ReadFull n c = (case read_full n (pc_in c) of (r, bs) \<Rightarrow> (r, c\<lparr>pc_in := bs\<rparr>))"

definition recvMessage :: "pq_conn \<Rightarrow> (char \<times> bytes) res \<times> pq_conn" where
  "recvMessage c =
     (case pc_saveMessage c of
        Some m \<Rightarrow> (Ok m, c\<lparr>pc_saveMessage := None\<rparr>)
      | None \<Rightarrow>
          andThen (io_ReadFull 5 c) (\<lambda>x c.
            let n = int (be_nat (tl x)) - 4 in
            if n < 0 then (Panic ''runtime error: slice bounds out of range'', c)
            else andThen (io_ReadFull (nat n) c) (\<lambda>y c. (Ok (hd x, y), c))))"

text \<open>\<^verbatim>\<open>parseError\<close>: the fields of an error message; only the text reaches the caller's \<^verbatim>\<open>Error()\<close>.\<close>

function parseError_loop :: "bytes \<Rightarrow> gomap \<Rightarrow> gomap res" where
  "parseError_loop r err =
     (case rb_byte r of
        (Ok t, r1) \<Rightarrow>
          if t = CHR 0x00 then Ok err
          else
            (case rb_string r1 of
               (Ok msg, r2) \<Rightarrow> parseError_loop r2 (if t \<in> set ''SCMDHPpqWstcdnFLR'' then gm_set [t] msg err else err)
             | (Fail e, _) \<Rightarrow> Fail e
             | (Panic p, _) \<Rightarrow> Panic p)
      | (Fail e, _) \<Rightarrow> Fail e
      | (Panic p, _) \<Rightarrow> Panic p)"
  by pat_completeness auto
termination
  by (relation "measure (\<lambda>(r, _). length r)")
    (auto simp: rb_byte_def rb_next_def rb_string_def Let_def split: if_splits)

declare parseError_loop.simps [simp del]

definition parseError :: "bytes \<Rightarrow> unit res" where
  "parseError r =
     (case parseError_loop r [] of
        Ok err \<Rightarrow> Fail (pq_errorf (values_Get err ''M''))
      | Fail e \<Rightarrow> Fail e
      | Panic p \<Rightarrow> Panic p)"

definition pending :: "pq_conn \<Rightarrow> nat" where
  "pending c = length (pc_in c) + (case pc_saveMessage c of None \<Rightarrow> 0 | Some _ \<Rightarrow> 1)"

lemma io_ReadFull_Ok: "io_ReadFull n c = (Ok x, c') \<Longrightarrow> pending c = n + pending c' \<and> pc_saveMessage c' = pc_saveMessage c"
  by (auto simp: io_ReadFull_def read_full_Ok pending_def split: prod.splits)

lemma recvMessage_less: "recvMessage c = (Ok m, c') \<Longrightarrow> pending c' < pending c"
  by (auto simp: recvMessage_def andThen_eq_Ok Let_def pending_def dest!: io_ReadFull_Ok split: option.splits if_splits)

function pq_recv :: "pq_conn \<Rightarrow> (char \<times> bytes) res \<times> pq_conn" where
  "pq_recv c =
     andThen (recvMessage c) (\<lambda>m c. case m of (t, r) \<Rightarrow>
       if t = CHR ''E'' then (case parseError r of Fail e \<Rightarrow> (Fail e, c) | Panic p \<Rightarrow> (Panic p, c) | Ok _ \<Rightarrow> (Ok (t, r), c))
       else if t = CHR ''N'' then pq_recv c
       else (Ok (t, r), c))"
  by pat_completeness auto
termination
  by (relation "measure pending") (auto dest: recvMessage_less)

declare pq_recv.simps [simp del]

section \<open>Starting a session\<close>

definition isDriverSetting :: "string \<Rightarrow> bool" where
  "isDriverSetting key \<longleftrightarrow> key \<in> set [''host'', ''port'', ''password'', ''sslmode'', ''sslcert'', ''sslkey'', ''sslrootcert'',
     ''fallback_application_name'', ''connect_timeout'', ''disable_prepared_binary_result'', ''binary_parameters'']"

definition startup_option :: "string \<times> string \<Rightarrow> writeBuf \<Rightarrow> writeBuf" where
  "startup_option kv w =
     (if isDriverSetting (fst kv) then w
      else wb_string (snd kv) (wb_string (if fst kv = ''dbname'' then ''database'' else fst kv) w))"

definition startup_packet :: "gomap \<Rightarrow> writeBuf" where
  "startup_packet o' = wb_string [] (fold startup_option o' (wb_int32 196608 (new_writeBuf (CHR 0x00))))"

definition processParameterStatus :: "pq_lib \<Rightarrow> bytes \<Rightarrow> pq_conn \<Rightarrow> unit res \<times> pq_conn" where
  "processParameterStatus L r c =
     andThen (from_msg (rb_string r) c) (\<lambda>(param, r) c.
       if param = ''server_version'' then
         andThen (from_msg (rb_string r) c) (\<lambda>(v, _) c.
           (Ok (), case pl_Sscanf L v of
                     Some (major1, major2, minor) \<Rightarrow> c\<lparr>pc_serverVersion := major1 * 10000 + major2 * 100 + minor\<rparr>
                   | None \<Rightarrow> c))
       else if param = ''TimeZone'' then
         andThen (from_msg (rb_string r) c) (\<lambda>(v, _) c.
           (Ok (), c\<lparr>pc_currentLocation := (case pl_LoadLocation L v of Inr l \<Rightarrow> Some l | Inl _ \<Rightarrow> None)\<rparr>))
       else (Ok (), c))"

definition processReadyForQuery :: "bytes \<Rightarrow> pq_conn \<Rightarrow> unit res \<times> pq_conn" where
  "processReadyForQuery r c = andThen (from_msg (rb_byte r) c) (\<lambda>(t, _) c. (Ok (), c\<lparr>pc_txnStatus := t\<rparr>))"

text \<open>The answer to a request for a password, and what the server says to it.\<close>

definition send_password :: "string \<Rightarrow> pq_conn \<Rightarrow> unit res \<times> pq_conn" where
  "send_password pw c =
     andThen (pq_send (wb_string pw (new_writeBuf (CHR ''p''))) c) (\<lambda>_ c.
     andThen (pq_recv c) (\<lambda>(t, r) c.
       if t \<noteq> CHR ''R'' then (Fail (pq_errorf (''unexpected password response: '' @ quoted_byte t)), c)
       else andThen (from_msg (rb_int32 r) c) (\<lambda>(code, _) c.
         if code \<noteq> 0 then (Fail (pq_errorf (''unexpected authentication response: '' @ quoted_byte t)), c) else (Ok (), c))))"

definition pq_auth :: "pq_lib \<Rightarrow> bytes \<Rightarrow> gomap \<Rightarrow> pq_conn \<Rightarrow> unit res \<times> pq_conn" where
  "pq_auth L r o' c =
     andThen (from_msg (rb_int32 r) c) (\<lambda>(code, r) c.
       if code = 0 then (Ok (), c)
       else if code = 3 then send_password (values_Get o' ''password'') c
       else if code = 5 then
         andThen (from_msg (rb_next 4 r) c) (\<lambda>(s, _) c.
           send_password (''md5'' @ pl_md5s L (pl_md5s L (values_Get o' ''password'' @ values_Get o' ''user'') @ s)) c)
       else (Fail (pq_errorf (''unknown authentication response: '' @ dec_int code)), c))"

lemma pending_update [simp]:
  "pending (c\<lparr>pc_out := x\<rparr>) = pending c" "pending (c\<lparr>pc_script := y\<rparr>) = pending c" "pending (c\<lparr>pc_txnStatus := t\<rparr>) = pending c"
  "pending (c\<lparr>pc_serverVersion := v\<rparr>) = pending c" "pending (c\<lparr>pc_currentLocation := l\<rparr>) = pending c"
  by (simp_all add: pending_def)

lemma from_msg_Ok [simp]: "from_msg m c = (Ok x, c') \<longleftrightarrow> m = (Ok (fst x), snd x) \<and> c' = c"
  by (cases m; cases "fst m"; cases x) (auto simp: from_msg_def)

lemma pq_recv_less: "pq_recv c = (Ok m, c') \<Longrightarrow> pending c' < pending c"
proof (induction c rule: pq_recv.induct)
  case (1 c)
  obtain t r c1 where m: "recvMessage c = (Ok (t, r), c1)"
    using 1(2) by (subst (asm) pq_recv.simps) (auto simp: andThen_eq_Ok)
  show ?case
  proof (cases "t = CHR ''N''")
    case True
    then have "pq_recv c1 = (Ok m, c')" using 1(2) m by (subst (asm) pq_recv.simps) simp
    then show ?thesis using 1(1) [OF m refl] True recvMessage_less [OF m] by simp
  next
    case False
    then have "c' = c1" using 1(2) m by (subst (asm) pq_recv.simps) (auto split: if_splits res.splits)
    then show ?thesis using recvMessage_less [OF m] by simp
  qed
qed

lemma processParameterStatus_pending: "processParameterStatus L r c = (Ok u, c') \<Longrightarrow> pending c' = pending c"
  by (auto simp: processParameterStatus_def andThen_eq_Ok split: if_splits option.splits)

lemma pq_write_pending: "pq_write b c = (Ok u, c') \<Longrightarrow> pending c' = pending c"
  by (auto simp: pq_write_def pq_next_def andThen_eq_Ok split: list.splits option.splits)

lemma send_password_pending: "send_password pw c = (Ok u, c') \<Longrightarrow> pending c' \<le> pending c"
  by (auto simp: send_password_def pq_send_def andThen_eq_Ok dest!: pq_write_pending pq_recv_less split: if_splits)

lemma pq_auth_pending: "pq_auth L r o' c = (Ok u, c') \<Longrightarrow> pending c' \<le> pending c"
  by (auto simp: pq_auth_def andThen_eq_Ok dest!: send_password_pending split: if_splits)

text \<open>The loop of \<^verbatim>\<open>startup\<close>. It ends: each message that is read takes bytes from the connection.\<close>

function startup_loop :: "pq_lib \<Rightarrow> gomap \<Rightarrow> pq_conn \<Rightarrow> unit res \<times> pq_conn" where
  "startup_loop L o' c =
     andThen (pq_recv c) (\<lambda>m c. case m of (t, r) \<Rightarrow>
       if t = CHR ''K'' then startup_loop L o' c
       else if t = CHR ''S'' then andThen (processParameterStatus L r c) (\<lambda>_ c. startup_loop L o' c)
       else if t = CHR ''R'' then andThen (pq_auth L r o' c) (\<lambda>_ c. startup_loop L o' c)
       else if t = CHR ''Z'' then processReadyForQuery r c
       else (Fail (pq_errorf (''unknown response for startup: '' @ quoted_byte t)), c))"
  by pat_completeness auto
termination
  by (relation "measure (\<lambda>(_, _, c). pending c)") (auto dest!: pq_recv_less processParameterStatus_pending pq_auth_pending)

declare startup_loop.simps [simp del]

definition startup :: "pq_lib \<Rightarrow> gomap \<Rightarrow> pq_conn \<Rightarrow> unit res \<times> pq_conn" where
  "startup L o' c = andThen (sendStartupPacket (startup_packet o') c) (\<lambda>_ c. startup_loop L o' c)"

text \<open>\<^verbatim>\<open>ssl\<close> up to the choice of the mode; the negotiation is the library's.\<close>

definition pq_ssl :: "pq_lib \<Rightarrow> gomap \<Rightarrow> pq_conn \<Rightarrow> unit res \<times> pq_conn" where
  "pq_ssl L o' c =
     (let mode = values_Get o' ''sslmode'' in
      if mode \<in> set [''require'', [], ''verify-ca'', ''verify-full''] then pl_tls L o' c
      else if mode = ''disable'' then (Ok (), c)
      else (Fail (pq_errorf (''unsupported sslmode '' @ quoted mode @ ''; only '' @ quoted ''require'' @ '' (default), '' @ quoted ''verify-full'' @
             '', and '' @ quoted ''disable'' @ '' supported'')), c))"

definition recover_conn :: "unit res \<times> pq_conn \<Rightarrow> error + pq_conn" where
  "recover_conn m = (case m of (Ok _, c) \<Rightarrow> Inr c | (Fail e, _) \<Rightarrow> Inl e | (Panic p, _) \<Rightarrow> Inl (Errorf p))"

definition open_conn :: "pq_lib \<Rightarrow> gomap \<Rightarrow> error + pq_conn" where
  "open_conn L o' =
     (case handleDriverSettings o' of
        Inl e \<Rightarrow> Inl e
      | Inr (a, b) \<Rightarrow>
          (case dial L o' of
             Inl e \<Rightarrow> Inl e
           | Inr (c, o') \<Rightarrow>
               recover_conn
                 (andThen (pq_ssl L o' (c\<lparr>pc_disablePreparedBinaryResult := a, pc_binaryParameters := b\<rparr>)) (\<lambda>_ c.
                  andThen (startup L o' c) (\<lambda>_ c.
                  if has_timeout o' then pq_next c else (Ok (), c))))))"

definition DialOpen :: "pq_lib \<Rightarrow> string \<Rightarrow> error + pq_conn" where
  "DialOpen L name =
     (case gather_options L name of
        Inl e \<Rightarrow> Inl e
      | Inr o' \<Rightarrow> (case settle_options L o' of Inl e \<Rightarrow> Inl e | Inr o' \<Rightarrow> open_conn L o'))"

end
