(* ===== verification/Pq_Conn_Correct.thy ===== *)
theory Pq_Conn_Correct
  imports Pq_Conn
begin

text \<open>
  A session of the database as the server sees it: the packet that opens it, read the way the protocol defines it,
  and the messages a server greets a client with, which the driver works through to \<^verbatim>\<open>ReadyForQuery\<close>.
\<close>

section \<open>Messages of the server\<close>

definition server_msg :: "char \<Rightarrow> bytes \<Rightarrow> bytes" where
  "server_msg t b = t # be 4 (length b + 4) @ b"

definition msg_ok :: "bytes \<Rightarrow> bool" where
  "msg_ok b \<longleftrightarrow> length b + 4 < 2 ^ 32"

lemma io_ReadFull_app: "pc_in c = x @ r \<Longrightarrow> length x = n \<Longrightarrow> io_ReadFull n c = (Ok x, c\<lparr>pc_in := r\<rparr>)"
  by (simp add: io_ReadFull_def)

lemma recvMessage_msg:
  assumes "pc_in c = server_msg t b @ r" and "msg_ok b" and "pc_saveMessage c = None"
  shows "recvMessage c = (Ok (t, b), c\<lparr>pc_in := r\<rparr>)"
proof -
  have 1: "io_ReadFull 5 c = (Ok (t # be 4 (length b + 4)), c\<lparr>pc_in := b @ r\<rparr>)"
    using assms(1) by (simp add: io_ReadFull_app server_msg_def)
  have 2: "io_ReadFull (length b) (c\<lparr>pc_in := b @ r\<rparr>) = (Ok b, c\<lparr>pc_in := r\<rparr>)"
    by (subst io_ReadFull_app [of _ b r]) simp_all
  show ?thesis using assms(2,3) 1 2 by (simp add: recvMessage_def msg_ok_def)
qed

lemma pq_recv_msg:
  assumes "pc_in c = server_msg t b @ r" and "msg_ok b" and "pc_saveMessage c = None" and "t \<noteq> CHR ''E''"
  shows "pq_recv c = (if t = CHR ''N'' then pq_recv (c\<lparr>pc_in := r\<rparr>) else (Ok (t, b), c\<lparr>pc_in := r\<rparr>))"
  using assms(4) by (subst pq_recv.simps) (simp add: recvMessage_msg [OF assms(1-3)])

lemma rb_int32_be: "n < 2 ^ 31 \<Longrightarrow> rb_int32 (be 4 n @ x) = (Ok (int n), x)"
  by (simp add: rb_int32_def)

lemma rb_string_app: "CHR 0x00 \<notin> set s \<Longrightarrow> rb_string (s @ CHR 0x00 # x) = (Ok s, x)"
  by (simp add: rb_string_def takeWhile_append)

section \<open>The packet that opens a session\<close>

fun cstring :: "bytes \<Rightarrow> (string \<times> bytes) option" where
  "cstring [] = None"
| "cstring (c # b) = (if c = CHR 0x00 then Some ([], b) else map_option (map_prod (Cons c) id) (cstring b))"

lemma cstring_length: "cstring b = Some (s, b') \<Longrightarrow> length b' < length b"
  by (induction b arbitrary: s) (fastforce split: if_splits)+

function decode_params :: "bytes \<Rightarrow> gomap option" where
  "decode_params b =
     (case cstring b of
        None \<Rightarrow> None
      | Some (k, b1) \<Rightarrow>
          if k = [] then (if b1 = [] then Some [] else None)
          else (case cstring b1 of None \<Rightarrow> None | Some (v, b2) \<Rightarrow> map_option (Cons (k, v)) (decode_params b2)))"
  by pat_completeness auto
termination
  by (relation "measure length") (auto dest!: cstring_length)

declare decode_params.simps [simp del]

definition decode_startup :: "bytes \<Rightarrow> (nat \<times> gomap) option" where
  "decode_startup p =
     (if length p < 8 \<or> be_nat (take 4 p) \<noteq> length p then None
      else map_option (Pair (be_nat (take 4 (drop 4 p)))) (decode_params (drop 8 p)))"

text \<open>What a client with these options tells the server.\<close>

definition announced :: "gomap \<Rightarrow> gomap" where
  "announced o' = map (\<lambda>(k, v). (if k = ''dbname'' then ''database'' else k, v)) (filter (\<lambda>(k, _). \<not> isDriverSetting k) o')"

definition param_bytes :: "gomap \<Rightarrow> bytes" where
  "param_bytes ps = concat (map (\<lambda>(k, v). k @ [CHR 0x00] @ v @ [CHR 0x00]) ps)"

definition startup_bytes :: "gomap \<Rightarrow> bytes" where
  "startup_bytes o' = tl (wb_wrap (startup_packet o'))"

definition no_nul :: "string \<times> string \<Rightarrow> bool" where
  "no_nul kv \<longleftrightarrow> fst kv \<noteq> [] \<and> CHR 0x00 \<notin> set (fst kv) \<and> CHR 0x00 \<notin> set (snd kv)"

lemma startup_options: "fold startup_option o' b = b\<lparr>wb_buf := wb_buf b @ param_bytes (announced o')\<rparr>"
  by (induction o' arbitrary: b) (auto simp: startup_option_def wb_string_def announced_def param_bytes_def)

lemma wb_wrap_app: "wb_wrap \<lparr>wb_buf = t # replicate 4 z @ x, wb_pos = Suc 0\<rparr> = t # be 4 (length x + 4) @ x"
  by (simp add: wb_wrap_def add.commute)

lemma startup_bytes_eq:
  "startup_bytes o' = be 4 (9 + length (param_bytes (announced o'))) @ be 4 196608 @ param_bytes (announced o') @ [CHR 0x00]"
  by (simp add: startup_bytes_def startup_packet_def startup_options wb_wrap_app wb_string_def wb_int32_def new_writeBuf_def add.commute del: replicate.simps)

lemma cstring_app: "CHR 0x00 \<notin> set s \<Longrightarrow> cstring (s @ CHR 0x00 # b) = Some (s, b)"
  by (induction s) auto

lemma decode_params_bytes: "list_all no_nul ps \<Longrightarrow> decode_params (param_bytes ps @ [CHR 0x00]) = Some ps"
proof (induction ps)
  case Nil
  then show ?case by (subst decode_params.simps) (simp add: param_bytes_def)
next
  case (Cons p ps)
  then show ?case by (subst decode_params.simps) (auto simp: param_bytes_def no_nul_def cstring_app case_prod_unfold)
qed

lemma decode_startup_bytes:
  assumes "length (startup_bytes o') < 2 ^ 32" and "list_all no_nul o'"
  shows "decode_startup (startup_bytes o') = Some (196608, announced o')"
proof -
  have "list_all no_nul (announced o')" using assms(2) by (auto simp: announced_def list_all_iff no_nul_def)
  then show ?thesis using assms(1) by (simp add: decode_startup_def startup_bytes_eq decode_params_bytes)
qed

section \<open>A session begins\<close>

text \<open>
  How a server lets a client in: without a password, with the password as it is, or hashed with a salt. Then it tells
  settings (\<^verbatim>\<open>S\<close>), a key for cancelling (\<^verbatim>\<open>K\<close>) and notices (\<^verbatim>\<open>N\<close>) in any order, and that it is ready.
\<close>

datatype login_request = AskNothing | AskPassword | AskMd5 bytes

definition auth_msg :: "nat \<Rightarrow> bytes \<Rightarrow> bytes" where
  "auth_msg n x = server_msg (CHR ''R'') (be 4 n @ x)"

fun auth_greeting :: "login_request \<Rightarrow> bytes" where
  "auth_greeting AskNothing = auth_msg 0 []"
| "auth_greeting AskPassword = auth_msg 3 [] @ auth_msg 0 []"
| "auth_greeting (AskMd5 salt) = auth_msg 5 salt @ auth_msg 0 []"

fun auth_ok :: "login_request \<Rightarrow> bool" where
  "auth_ok (AskMd5 salt) = (length salt = 4)"
| "auth_ok _ = True"

definition password_msg :: "string \<Rightarrow> bytes" where
  "password_msg s = CHR ''p'' # be 4 (length s + 5) @ s @ [CHR 0x00]"

fun auth_answer :: "(string \<Rightarrow> string) \<Rightarrow> login_request \<Rightarrow> string \<Rightarrow> string \<Rightarrow> bytes" where
  "auth_answer hash AskNothing user pw = []"
| "auth_answer hash AskPassword user pw = password_msg pw"
| "auth_answer hash (AskMd5 salt) user pw = password_msg (''md5'' @ hash (hash (pw @ user) @ salt))"

definition info_ok :: "char \<times> bytes \<Rightarrow> bool" where
  "info_ok m \<longleftrightarrow> msg_ok (snd m) \<and> fst m \<in> set ''SKN'' \<and>
     (fst m = CHR ''S'' \<longrightarrow> length (filter (\<lambda>c. c = CHR 0x00) (snd m)) = 2)"

definition greeting :: "login_request \<Rightarrow> (char \<times> bytes) list \<Rightarrow> bytes" where
  "greeting req infos = auth_greeting req @ concat (map (\<lambda>(t, b). server_msg t b) infos) @ server_msg (CHR ''Z'') ''I''"

lemma send_password_ok:
  assumes "pc_in c = auth_msg 0 [] @ r" and "pc_saveMessage c = None" and "pc_script c = []"
  shows "send_password pw c = (Ok (), c\<lparr>pc_out := pc_out c @ password_msg pw, pc_in := r\<rparr>)"
proof -
  have "pq_send (wb_string pw (new_writeBuf (CHR ''p''))) c = (Ok (), c\<lparr>pc_out := pc_out c @ password_msg pw\<rparr>)"
    using assms(3) by (simp add: pq_send_def pq_write_def pq_next_def wb_string_def new_writeBuf_def wb_wrap_app password_msg_def add.commute del: replicate.simps)
  moreover have "msg_ok (be 4 0)" by (simp add: msg_ok_def)
  ultimately show ?thesis
    using assms(1,2) pq_recv_msg [of "c\<lparr>pc_out := pc_out c @ password_msg pw\<rparr>" "CHR ''R''" "be 4 0" r] rb_int32_be [of 0 "[]"]
    by (simp add: send_password_def auth_msg_def from_msg_def)
qed

lemma pq_auth_ok:
  assumes "auth_ok req" and "pc_in c = auth_greeting req @ r" and "pc_saveMessage c = None" and "pc_script c = []"
  shows "startup_loop L o' c = startup_loop L o' (c\<lparr>pc_out := pc_out c @
      auth_answer (pl_md5s L) req (values_Get o' ''user'') (values_Get o' ''password''), pc_in := r\<rparr>)"
proof -
  have b: "msg_ok (be 4 n @ x)" if "length x \<le> 4" for n x using that by (simp add: msg_ok_def)
  have l: "startup_loop L o' c = andThen (pq_auth L (be 4 n @ x) o' (c\<lparr>pc_in := r'\<rparr>)) (\<lambda>_ c. startup_loop L o' c)"
    if "pc_in c = auth_msg n x @ r'" "length x \<le> 4" for n x r'
    by (subst startup_loop.simps) (simp add: pq_recv_msg [OF that(1) [unfolded auth_msg_def] b [OF that(2)] assms(3)])
  show ?thesis
  proof (cases req)
    case AskNothing
    then show ?thesis using assms(2) l [of 0 "[]" r] rb_int32_be [of 0 "[]"] by (simp add: pq_auth_def from_msg_def)
  next
    case AskPassword
    then show ?thesis using assms l [of 3 "[]" "auth_msg 0 [] @ r"] rb_int32_be [of 3 "[]"]
      by (simp add: pq_auth_def from_msg_def send_password_ok [of _ r])
  next
    case (AskMd5 salt)
    then have "rb_next 4 salt = (Ok salt, [])" using assms(1) by (simp add: rb_next_def)
    then show ?thesis using AskMd5 assms l [of 5 salt "auth_msg 0 [] @ r"] rb_int32_be [of 5 salt]
      by (simp add: pq_auth_def from_msg_def send_password_ok [of _ r])
  qed
qed

lemma two_strings:
  assumes "length (filter (\<lambda>c. c = CHR 0x00) b) = 2"
  shows "\<exists>k x v y. rb_string b = (Ok k, x) \<and> rb_string x = (Ok v, y)"
proof -
  have ex: "\<exists>k x. b = k @ CHR 0x00 # x \<and> CHR 0x00 \<notin> set k" if "filter (\<lambda>c. c = CHR 0x00) b \<noteq> []" for b :: bytes
    using that split_list_first [of "CHR 0x00" b] by (auto simp: filter_empty_conv)
  have "filter (\<lambda>c. c = CHR 0x00) b \<noteq> []" using assms by auto
  then obtain k x where 1: "b = k @ CHR 0x00 # x" "CHR 0x00 \<notin> set k" using ex by blast
  have "filter (\<lambda>c. c = CHR 0x00) k = []" using 1(2) by (auto simp: filter_empty_conv)
  then have "filter (\<lambda>c. c = CHR 0x00) x \<noteq> []" using assms 1(1) by auto
  then obtain v y where "x = v @ CHR 0x00 # y" "CHR 0x00 \<notin> set v" using ex by blast
  then show ?thesis using 1 by (simp add: rb_string_app)
qed

lemma processParameterStatus_ok:
  assumes "length (filter (\<lambda>c. c = CHR 0x00) b) = 2"
  shows "\<exists>v l. processParameterStatus L b c = (Ok (), c\<lparr>pc_serverVersion := v, pc_currentLocation := l\<rparr>)"
proof -
  obtain k x v y where "rb_string b = (Ok k, x)" "rb_string x = (Ok v, y)" using two_strings [OF assms] by blast
  then show ?thesis
    by (intro exI [of _ "if k = ''server_version'' then (case pl_Sscanf L v of Some (a, b, d) \<Rightarrow> a * 10000 + b * 100 + d | None \<Rightarrow> pc_serverVersion c)
        else pc_serverVersion c"]
      exI [of _ "if k = ''TimeZone'' then (case pl_LoadLocation L v of Inr l \<Rightarrow> Some l | Inl _ \<Rightarrow> None) else pc_currentLocation c"])
      (auto simp: processParameterStatus_def from_msg_def split: option.split)
qed

text \<open>One message of the greeting, whose effect is on what the connection knows of the server.\<close>

lemma startup_loop_info:
  assumes "info_ok m" and "pc_in c = (case m of (t, b) \<Rightarrow> server_msg t b) @ r" and "pc_saveMessage c = None"
  shows "\<exists>v l. startup_loop L o' c = startup_loop L o' (c\<lparr>pc_in := r, pc_serverVersion := v, pc_currentLocation := l\<rparr>)"
proof -
  obtain t b where m: "m = (t, b)" "pc_in c = server_msg t b @ r" "msg_ok b" "t \<noteq> CHR ''E''"
    using assms by (cases m) (auto simp: info_ok_def)
  note recv = pq_recv_msg [OF m(2,3) assms(3) m(4)]
  let ?c = "c\<lparr>pc_in := r\<rparr>"
  have same: "?c = c\<lparr>pc_in := r, pc_serverVersion := pc_serverVersion c, pc_currentLocation := pc_currentLocation c\<rparr>" by simp
  consider "t = CHR ''S''" | "t = CHR ''K''" | "t = CHR ''N''" using assms(1) m(1) by (auto simp: info_ok_def)
  then show ?thesis
  proof cases
    case 1
    then obtain v l where "processParameterStatus L b ?c = (Ok (), ?c\<lparr>pc_serverVersion := v, pc_currentLocation := l\<rparr>)"
      using assms(1) m(1) processParameterStatus_ok [of b L ?c] by (auto simp: info_ok_def)
    then have "startup_loop L o' c = startup_loop L o' (?c\<lparr>pc_serverVersion := v, pc_currentLocation := l\<rparr>)"
      using 1 recv by (subst startup_loop.simps) simp
    then show ?thesis by auto
  next
    case 2
    then have "startup_loop L o' c = startup_loop L o' ?c" using recv by (subst startup_loop.simps) simp
    then show ?thesis using same by metis
  next
    case 3
    then have "startup_loop L o' c = startup_loop L o' ?c" using recv by (subst (1 2) startup_loop.simps) simp
    then show ?thesis using same by metis
  qed
qed

lemma startup_loop_infos:
  assumes "list_all info_ok infos" and "pc_in c = concat (map (\<lambda>(t, b). server_msg t b) infos) @ r" and "pc_saveMessage c = None"
  shows "\<exists>v l. startup_loop L o' c = startup_loop L o' (c\<lparr>pc_in := r, pc_serverVersion := v, pc_currentLocation := l\<rparr>)"
  using assms
proof (induction infos arbitrary: c)
  case Nil
  then have "c = c\<lparr>pc_in := r, pc_serverVersion := pc_serverVersion c, pc_currentLocation := pc_currentLocation c\<rparr>" by simp
  then show ?case by metis
next
  case (Cons m infos)
  let ?r = "concat (map (\<lambda>(t, b). server_msg t b) infos) @ r"
  obtain v l where 1: "startup_loop L o' c = startup_loop L o' (c\<lparr>pc_in := ?r, pc_serverVersion := v, pc_currentLocation := l\<rparr>)"
    using startup_loop_info [of m c ?r L o'] Cons.prems by auto
  show ?case
    using Cons.IH [of "c\<lparr>pc_in := ?r, pc_serverVersion := v, pc_currentLocation := l\<rparr>"] Cons.prems 1 by auto
qed

lemma startup_session:
  assumes "auth_ok req" and "list_all info_ok infos" and "pc_in c = greeting req infos @ r" and "pc_saveMessage c = None" and "pc_script c = []"
  shows "\<exists>v l. startup L o' c = (Ok (), c\<lparr>pc_out := pc_out c @ startup_bytes o' @
      auth_answer (pl_md5s L) req (values_Get o' ''user'') (values_Get o' ''password''), pc_in := r, pc_serverVersion := v,
      pc_currentLocation := l, pc_txnStatus := CHR ''I''\<rparr>)"
proof -
  let ?o = "pc_out c @ startup_bytes o' @ auth_answer (pl_md5s L) req (values_Get o' ''user'') (values_Get o' ''password'')"
  let ?is = "concat (map (\<lambda>(t, b). server_msg t b) infos)" and ?z = "server_msg (CHR ''Z'') ''I''"
  have h: "hd (wb_buf (startup_packet o')) = CHR 0x00"
    by (simp add: startup_packet_def startup_options wb_string_def wb_int32_def new_writeBuf_def)
  then have "startup L o' c = startup_loop L o' (c\<lparr>pc_out := pc_out c @ startup_bytes o'\<rparr>)"
    using assms(5) by (simp add: startup_def sendStartupPacket_def pq_write_def pq_next_def startup_bytes_def)
  also have "\<dots> = startup_loop L o' (c\<lparr>pc_out := ?o, pc_in := ?is @ ?z @ r\<rparr>)"
    using pq_auth_ok [OF assms(1), of "c\<lparr>pc_out := pc_out c @ startup_bytes o'\<rparr>" "?is @ ?z @ r" L o'] assms(3-5) by (simp add: greeting_def)
  also obtain v l where "\<dots> = startup_loop L o' (c\<lparr>pc_out := ?o, pc_in := ?z @ r, pc_serverVersion := v, pc_currentLocation := l\<rparr>)"
    using startup_loop_infos [OF assms(2), of "c\<lparr>pc_out := ?o, pc_in := ?is @ ?z @ r\<rparr>" "?z @ r" L o'] assms(4) by auto
  also have "\<dots> = (Ok (), c\<lparr>pc_out := ?o, pc_in := r, pc_serverVersion := v, pc_currentLocation := l, pc_txnStatus := CHR ''I''\<rparr>)"
    using pq_recv_msg [of "c\<lparr>pc_out := ?o, pc_in := ?z @ r, pc_serverVersion := v, pc_currentLocation := l\<rparr>" "CHR ''Z''" "''I''" r] assms(4)
    by (subst startup_loop.simps) (simp add: msg_ok_def processReadyForQuery_def rb_byte_def rb_next_def from_msg_def)
  finally show ?thesis by blast
qed

section \<open>Which options a connection has\<close>

lemma parseEnviron_keys:
  "parseEnviron vs out = Inr es \<Longrightarrow> gm_ok out \<Longrightarrow> gm_ok es \<and> fst ` set es \<subseteq> fst ` set out \<union> snd ` set pg_names"
proof (induction vs out rule: parseEnviron.induct)
  case (2 v vs out)
  let ?n = "takeWhile (\<lambda>c. c \<noteq> CHR ''='') v"
  show ?case
  proof (cases "map_of pg_names ?n")
    case None
    then show ?thesis using 2 by (simp add: Let_def split: if_splits)
  next
    case (Some k)
    then have "k \<in> snd ` set pg_names" by (force dest: map_of_SomeD)
    then show ?thesis using 2(2) [OF refl Some] 2(3,4) Some by (auto simp: Let_def split: if_splits)
  qed
qed simp

text \<open>The address over the environment over the defaults, and two options the driver insists on.\<close>

definition session_options :: "gomap \<Rightarrow> gomap \<Rightarrow> string \<rightharpoonup> string" where
  "session_options es ps = (map_of default_options ++ map_of es ++ map_of ps)(''client_encoding'' \<mapsto> ''UTF8'', ''datestyle'' \<mapsto> ''ISO, MDY'')"

lemma options_of_url:
  assumes env: "parseEnviron (pl_Environ L) [] = Inr es" and u: "pl_Parse L name = Inr u" "u_Scheme u = ''postgres''" "prefix ''postgres://'' name"
    and ps: "gm_ok (url_pairs u)" "list_all option_ok (url_pairs u)" and user: "map_of (url_pairs u) ''user'' = Some user"
    and plain: "set (map fst (es @ url_pairs u)) \<inter> {''client_encoding'', ''datestyle'', ''fallback_application_name''} = {}"
  shows "\<exists>o1 o2. gather_options L name = Inr o1 \<and> settle_options L o1 = Inr o2 \<and> gm_ok o2 \<and> map_of o2 = session_options es (url_pairs u)"
proof -
  let ?o = "fold (\<lambda>(k, v). gm_set k v) es default_options"
  have es: "gm_ok es" using parseEnviron_keys [OF env] by simp
  have d: "gm_ok default_options" by (simp add: default_options_def)
  obtain o1 where o1: "parseOpts (join '' '' (sort (map enc (url_pairs u)))) ?o = Inr o1" "map_of o1 = map_of ?o ++ map_of (url_pairs u)" "gm_ok o1"
    using parse_sorted [OF ps, of ?o] gm_ok_fold [OF d, of es] by blast
  have m: "map_of o1 = map_of default_options ++ map_of es ++ map_of (url_pairs u)"
    using o1(2) map_of_rev_distinct [OF es] by (simp add: map_of_gm_fold)
  have g: "gather_options L name = Inr o1" using env u o1(1) by (simp add: gather_options_def ParseURL_def url_kvs_pairs)
  have n: "map_of o1 k = None" if "k \<in> {''client_encoding'', ''datestyle'', ''fallback_application_name''}" for k
    using that plain by (auto simp: m map_add_None map_of_eq_None_iff default_options_def)
  have usr: "map_of o1 ''user'' = Some user" "user \<noteq> []"
    using user ps(2) map_of_SomeD [OF user] by (auto simp: m list_all_iff option_ok_def)
  let ?o2 = "gm_set ''datestyle'' ''ISO, MDY'' (gm_set ''client_encoding'' ''UTF8'' o1)"
  have "settle_options L o1 = Inr ?o2" using n usr by (simp add: settle_options_def values_Get_def Let_def)
  moreover have "map_of ?o2 = session_options es (url_pairs u)" by (simp add: session_options_def m)
  ultimately show ?thesis using g o1(3) by fastforce
qed

lemma announced_password: "''password'' \<notin> fst ` set (announced o')"
  by (auto simp: announced_def isDriverSetting_def split: if_splits)

lemma announced_map: "k \<noteq> ''dbname'' \<Longrightarrow> k \<noteq> ''database'' \<Longrightarrow> \<not> isDriverSetting k \<Longrightarrow> map_of (announced o') k = map_of o' k"
  by (induction o') (auto simp: announced_def)

lemma announced_database: "''database'' \<notin> fst ` set o' \<Longrightarrow> map_of (announced o') ''database'' = map_of o' ''dbname''"
  by (induction o') (auto simp: announced_def isDriverSetting_def)

lemma session_no_nul:
  assumes "gm_ok o'" and "map_of o' = session_options es ps" and "list_all no_nul (es @ ps)"
  shows "list_all no_nul o'"
proof -
  have "no_nul (k, v)" if "(k, v) \<in> set o'" for k v
  proof -
    have "session_options es ps k = Some v" using that assms(1) by (simp flip: assms(2))
    then have "(k, v) \<in> set (default_options @ es @ ps @ [(''client_encoding'', ''UTF8''), (''datestyle'', ''ISO, MDY'')])"
      by (auto simp: session_options_def map_add_Some_iff dest: map_of_SomeD split: if_splits)
    moreover have "list_all no_nul default_options" "no_nul (''client_encoding'', ''UTF8'')" "no_nul (''datestyle'', ''ISO, MDY'')"
      by (simp_all add: default_options_def no_nul_def)
    ultimately show ?thesis using assms(3) by (auto simp: list_all_iff)
  qed
  then show ?thesis by (auto simp: list_all_iff)
qed

end
