(* ===== verification/Claims_Links.thy ===== *)
theory Claims_Links
  imports Claims_Amqp Pq_Conn_Correct Router Demo
begin

text \<open>
  Where the program meets its drivers: the notification of an updated app, from \<^verbatim>\<open>notifications.go\<close> to what a reader of the
  broker's protocol gets, and the address of the database, from \<^verbatim>\<open>db.go\<close> to the options of the driver.
\<close>

section \<open>The notification\<close>








section \<open>The connection to the database\<close>












end
