(* ===== verification/Spec2Isabelle.thy ===== *)
theory Spec2Isabelle
  imports Claims_Store Claims_Server Claims_Memcache Claims_Handlers Claims_Parts Sign_Correct Claims_Amqp Claims_Links
begin

text \<open>
  \<^bold>\<open>The bundler.\<close> The program is the siphon bundler, an HTTP server written in Go (\<^verbatim>\<open>src/src/siphon/bundler\<close>). Clients push the
  development files of an app, pull the assets and a packaged footer, and submit a snapshot for production. State
  lives in four places: a PostgreSQL table \<^verbatim>\<open>files\<close> of (app, submission, name, hash), an S3 bucket with the contents by
  hash, memcached in front of it, and temporary directories on disk. The vendored libraries it runs on are under
  \<^verbatim>\<open>src/src/github.com\<close> and \<^verbatim>\<open>src/src/gopkg.in\<close>.

  \<^bold>\<open>How it is modelled.\<close> A handler is a function from a request and a \<open>world\<close> to an outcome and a world (theory \<open>World\<close>). The
  world is a record: the rows, the states of the object store and of memcached (type parameters), the file system
  (a map from paths to nodes), the response written so far, the request contexts, and scripts of outcomes for the
  database, the web application and the message broker. An outcome is \<open>Ok\<close>, \<open>Fail\<close> (a returned error) or \<open>Panic\<close>. Code outside the
  repository is a field of the record \<open>env\<close>; what is assumed of it is a named hypothesis: \<open>range_law\<close> (ranging over a map visits
  each entry once), \<open>temp_law\<close> (temporary directories are new), \<open>memcached_law\<close>, and the locales \<open>s3_service\<close> and
  \<open>memcached_peer\<close>.

  \<^bold>\<open>The theories,\<close> from the bottom.
  \<^item> \<open>Go_Prelude\<close>, \<open>Go_Path\<close>, \<open>Go_Fs\<close>, \<open>Go_Json\<close>, \<open>Go_Encode\<close>: what the source uses of Go and its library: results, loops with early
    return, maps as lists without repeated keys, \<^verbatim>\<open>path/filepath\<close>, the \<^verbatim>\<open>os\<close> calls with symbolic links, the JSON
    scanner, decoder and encoder.
  \<^item> \<open>Request_Context\<close>: \<^verbatim>\<open>gorilla/context\<close>. \<open>World\<close>: the state and the parameters.
  \<^item> \<open>Files_Db\<close>: \<^verbatim>\<open>db.go\<close>, with the locale \<open>file_index\<close> (a finite map with add, update, delete, list) interpreted on the table of
    an app. \<open>S3_Client\<close>: \<^verbatim>\<open>s3.go\<close> with the client library (\<^verbatim>\<open>amz.v3/s3/s3.go\<close>, \<^verbatim>\<open>amz.v3/aws/aws.go\<close>) and the locale \<open>s3_service\<close>.
    \<open>Cache\<close>: \<^verbatim>\<open>cache.go\<close>, the locales \<open>blob_store\<close> (the contract) and \<open>cache_backend\<close> (the two services), the latter a
    sublocale of the former.
  \<^item> \<open>Unzip\<close>, \<open>Archive\<close>, \<open>Metadata\<close>, \<open>Packager\<close>, \<open>Icons\<close>: \<^verbatim>\<open>unzip.go\<close>, \<^verbatim>\<open>archive.go\<close>, \<^verbatim>\<open>metadata.go\<close>, \<^verbatim>\<open>packager.go\<close> with \<^verbatim>\<open>utils.go\<close>,
    \<^verbatim>\<open>icon.go\<close>. \<open>Auth\<close>: \<^verbatim>\<open>auth.go\<close>.
  \<^item> \<open>Push\<close>, \<open>Pull\<close>, \<open>Submit\<close>, \<open>Healthcheck\<close>: the handlers, \<^verbatim>\<open>push.go\<close> (with \<^verbatim>\<open>notifications.go\<close>), \<^verbatim>\<open>pull.go\<close>, \<^verbatim>\<open>submit.go\<close>, \<^verbatim>\<open>healthcheck.go\<close>.
    \<open>Push_Correct\<close>, \<open>Pull_Correct\<close>, \<open>Submit_Correct\<close> hold the lemmas about them.
  \<^item> \<open>S3_Test_Server\<close>: the in-memory server of \<^verbatim>\<open>amz.v3/s3/s3test\<close>, which interprets \<open>s3_service\<close>. \<open>Testbed\<close> closes the system
    (that server and a memcached that is a map) and interprets \<open>cache_backend\<close>; \<open>Demo\<close> has a concrete state.
  \<^item> \<open>Memcache\<close>: the client of \<^verbatim>\<open>bradfitz/gomemcache\<close>, down to the bytes on the connection; \<open>Memcache_Correct\<close>: its parser against
    the printer of a server, and its three operations over any \<open>memcached_peer\<close>, a locale interpreted on a reference
    server. What they prove are the clauses of \<open>memcached_law\<close>.
  \<^item> \<open>Attempt\<close>: the retry strategy of \<^verbatim>\<open>amz.v3/aws/attempt.go\<close> as a step relation over a clock.
  \<^item> \<open>Sign\<close>, \<open>Sign_Correct\<close>: \<^verbatim>\<open>amz.v3/aws/sign.go\<close>, the text of a request that is hashed and the headers it leaves.
  \<^item> \<open>Amqp_Codec\<close>, \<open>Amqp_Methods\<close>, \<open>Amqp_Frame\<close>: \<^verbatim>\<open>streadway/amqp\<close>, the values, methods and frames on the wire, with
    \<open>Amqp_Codec_Correct\<close> and \<open>Amqp_Frame_Correct\<close>, which show that what is written is read back. \<open>Amqp_Alloc\<close>: channel
    numbers, with the locale \<open>number_pool\<close> interpreted on the bit set, and confirmations, with \<open>Amqp_Confirms\<close>. \<open>Amqp_Channel\<close>:
    channels and connections; \<open>Amqp_Channel_Correct\<close> follows a message from one end to the other, \<open>Amqp_Registry\<close> the
    registry of channels over time.
  \<^item> \<open>Pq_Url\<close>: how the driver of the database, \<^verbatim>\<open>lib/pq\<close>, reads an address (\<^verbatim>\<open>url.go\<close>) and a string of options (\<^verbatim>\<open>conn.go\<close>); \<open>Pq_Conn\<close>: the
    opening of a connection, from \<^verbatim>\<open>DialOpen\<close> to the first \<^verbatim>\<open>ReadyForQuery\<close>; \<open>Pq_Conn_Correct\<close>: the same as a server sees it.
  \<^item> \<open>Mux\<close>, \<open>Gzip\<close>, \<open>Router\<close>, \<open>Router_Correct\<close>: \<^verbatim>\<open>gorilla/mux\<close>, \<^verbatim>\<open>nytimes/gziphandler\<close>, and \<^verbatim>\<open>routes.go\<close> with \<^verbatim>\<open>main.go\<close>: the server.
    \<open>Server_Runs\<close>: the server over time, a step relation of requests and of what happens between them.
  \<^item> \<open>Claims_Store\<close>, \<open>Claims_Server\<close>, \<open>Claims_Memcache\<close>, \<open>Claims_Handlers\<close>, \<open>Claims_Parts\<close>, \<open>Claims_Amqp\<close>, \<open>Claims_Links\<close> and this theory: the properties, each with
    a concrete instance.

  \<^bold>\<open>What is shown.\<close> Of the server: only an authentic push or submit changes the table, and only the rows of its app; every
  path leads to the handler it names; nothing of a request outlives it; over any sequence of requests the table
  stays well-formed and a submission that exists never changes. Of a push: when it completes the table is the
  uploaded listing, and every row has its object; on every outcome the rest of the table is untouched. Of a
  submission: it is a faithful copy and is never changed. Of a pull: the assets have the stored bytes and the
  file system is restored. Of signing: the signature depends on the request only, not on the order of a range, covers every
  header, and is the same when a request is signed again. Of the cache: read-back, with entries of memcached coming and going. Of
  the broker's client: tables, frames and whole messages arrive as they were sent, confirmations are put in order,
  channels have numbers of their own, and the notification of a push arrives. Of the driver of the database: the
  bundler gets a session with the user and the database of its address. Of the parts: confinement of everything written from an upload, exactness of the comparison, limits of the
  metadata, round trips of the JSON answer and of the memcached protocol, bounds of retries, pools and server
  selection, and where the code panics instead of returning its error.

  \<^bold>\<open>Fuel and bounds.\<close> The walk over a directory has fuel 4096, the longest path the kernel accepts, so it visits every file. The
  retry loop of the object store has the number of attempts of its strategy, which is a parameter. Everything
  else is structural or has a measure, but for two loops of the broker's client that need not end, the one over the parts of a body
  and the one that confirms many messages: there a result \<open>None\<close> is a run that does not end, and it is proved when they do. Integers are unbounded where the source's cannot overflow; the size
  field of a memcached answer wraps at 64 bits, and the checksum that selects a server is a 32-bit word.

  \<^bold>\<open>Not modelled.\<close> Goroutines and the interleaving of requests: every handler runs alone. The memcached client's \<^verbatim>\<open>GetMulti\<close> (one
  goroutine per server). Header and scheme matchers, URL building and sub-routers of the router, none of which
  the program uses. Multipart uploads of the S3 client. Of the
  driver of the database, TLS and what follows the opening of a connection: the table gives the meaning of the statements, the
  scripts the outcomes of the calls. Of the client of the
  message broker, dialling, the handshake apart from the limits it settles, heartbeats, and the buffers of
  consumers; the notification in \<open>Push\<close> takes the outcomes of its calls from a script. Logging. The
  development tools under \<^verbatim>\<open>golang.org/x/tools\<close> and \<^verbatim>\<open>golang/lint\<close> are no part of the server.
\<close>

section \<open>Uploading\<close>

text \<open>C4. When the first half of a push completes (the archive is unpacked, the metadata is accepted, the
  database answers), the file table of the app is exactly the listing the client sent, whatever it was
  before; the listing has passed the checks on names and hashes.\<close>

theorem push_table_is_listing:
  assumes "range_law env" and "listing_sane h" and "db_ok w" and "db_up w" and "handle_sync env h w = (Ok h', w')"
  shows "app_files (ph_appID h) w' = map_of (listing_of (ph_archive h')) \<and>
    listing_ok (listing_of (ph_archive h')) \<and> rows_ok (w_rows w')"
  using handle_sync_table [OF assms] by (auto simp: db_ok_def)

theorem push_table_is_listing_witness:
  "\<exists>h' w'. handle_sync bed_env demo_handler demo_world = (Ok h', w') \<and>
     app_files ''app'' w' = map_of (listing_of (ph_archive h'))"
proof -
  obtain h' w' where run: "handle_sync bed_env demo_handler demo_world = (Ok h', w')" using demo_sync by blast
  have "app_files (ph_appID demo_handler) w' = map_of (listing_of (ph_archive h'))"
    using push_table_is_listing [OF bed_range demo_sane demo_db run] by blast
  then show ?thesis using run by (auto simp: demo_handler_def)
qed

text \<open>C7. Whatever a push does and however it ends (an error at any step, a lost database answer, a panic), the
  rows of the table stay well-formed, no name of the app leads upwards and no hash is empty, and the rows of
  every other app and of every submission are untouched.\<close>

theorem push_isolated:
  assumes "range_law env" and "ctx_get r AppIDKey w = Some app" and "push_inv app rs (w_rows w)"
  shows "push_inv app rs (w_rows (snd (Push env r w)))"
  by (rule Push_inv [OF assms])

theorem push_isolated_witness:
  "push_inv ''app'' demo_rows (w_rows (snd (Push bed_env demo_request (ctx_set bed_env demo_request AppIDKey ''app'' demo_world))))"
  by (rule push_isolated [OF bed_range])
    (simp_all add: demo_world_def demo_rows_def push_inv_def rows_ok_def row_key_def in_ns_def)

end
